(* ===== verification/P2P_Prelude.thy ===== *)
theory P2P_Prelude
  imports Main "HOL-Library.Word"
begin

text \<open>
  What the components of the P2PFileSync model share: the names of the machine types, the ways
  a C++ call ends other than by returning (\<open>failure\<close>), the \<open>std::string\<close> searches the
  sources use, the fact collections of the development, and generic lemmas on lists, options
  and words.
\<close>

unbundle bit_operations_syntax

section \<open>Types\<close>

type_synonym u8 = "8 word"
type_synonym u16 = "16 word"
type_synonym u32 = "32 word"
type_synonym u64 = "64 word"

text \<open>
  A call that does not return normally: an exception of the standard library, an assertion of a
  library, \<open>LOG(FATAL)\<close>, or an access that the language leaves undefined. Each is a value, so
  every such branch of the sources is a branch of the model.
\<close>

datatype failure =
    NullDeref
  | OutOfRange
  | InvalidArgument
  | LengthError
  | BadOptionalAccess
  | BadWeakPtr
  | BadFunctionCall
  | AssertionFailed
  | OutOfBounds
  | UseAfterFree
  | Uninitialised
  | RuntimeError string
  | Fatal string

type_synonym 'a result = "failure + 'a"

definition bind_result :: "'a result \<Rightarrow> ('a \<Rightarrow> 'b result) \<Rightarrow> 'b result" where
  "bind_result m f = (case m of Inl e \<Rightarrow> Inl e | Inr x \<Rightarrow> f x)"

named_theorems result_simps \<open>rewriting of calls that may fail\<close>

lemma bind_result_Inl [simp, result_simps]: "bind_result (Inl e) f = Inl e"
  by (simp add: bind_result_def)

lemma bind_result_Inr [simp, result_simps]: "bind_result (Inr x) f = f x"
  by (simp add: bind_result_def)

lemma bind_result_eq_Inr [result_simps]:
  "bind_result m f = Inr y \<longleftrightarrow> (\<exists>x. m = Inr x \<and> f x = Inr y)"
  by (cases m) auto

lemma bind_result_assoc [result_simps]:
  "bind_result (bind_result m f) g = bind_result m (\<lambda>x. bind_result (f x) g)"
  by (cases m) auto

lemma bind_result_cong [fundef_cong]:
  "m = m' \<Longrightarrow> (\<And>x. m' = Inr x \<Longrightarrow> f x = g x) \<Longrightarrow> bind_result m f = bind_result m' g"
  by (cases m') auto

section \<open>Strings\<close>

text \<open>
  \<open>std::string\<close> searches, with \<open>None\<close> for \<open>npos\<close>: \<open>find(c)\<close>, \<open>find(c, pos)\<close>,
  \<open>find_first_not_of(c)\<close> and \<open>find_last_not_of(c)\<close>.
\<close>

fun find_char :: "char \<Rightarrow> string \<Rightarrow> nat option" where
  "find_char c [] = None"
| "find_char c (x # xs) = (if x = c then Some 0 else map_option Suc (find_char c xs))"

definition find_char_from :: "char \<Rightarrow> nat \<Rightarrow> string \<Rightarrow> nat option" where
  "find_char_from c pos s = map_option (\<lambda>i. pos + i) (find_char c (drop pos s))"

fun find_first_not_of :: "char \<Rightarrow> string \<Rightarrow> nat option" where
  "find_first_not_of c [] = None"
| "find_first_not_of c (x # xs) =
     (if x \<noteq> c then Some 0 else map_option Suc (find_first_not_of c xs))"

fun find_last_not_of :: "char \<Rightarrow> string \<Rightarrow> nat option" where
  "find_last_not_of c [] = None"
| "find_last_not_of c (x # xs) =
     (case find_last_not_of c xs of
        Some i \<Rightarrow> Some (Suc i)
      | None \<Rightarrow> (if x \<noteq> c then Some 0 else None))"

named_theorems string_simps \<open>rewriting of string searches\<close>

lemma find_char_None [string_simps]: "find_char c s = None \<longleftrightarrow> c \<notin> set s"
  by (induction s) auto

lemma find_char_Some [string_simps]:
  "find_char c s = Some i \<longleftrightarrow> i < length s \<and> s ! i = c \<and> c \<notin> set (take i s)"
proof (induction s arbitrary: i)
  case Nil
  then show ?case by simp
next
  case (Cons x s)
  show ?case by (cases i) (auto simp: Cons.IH)
qed

lemma find_char_append:
  "c \<notin> set s \<Longrightarrow> find_char c (s @ c # t) = Some (length s)"
  by (induction s) auto

lemma find_char_lt: "find_char c s = Some i \<Longrightarrow> i < length s"
  by (simp add: find_char_Some)

lemma find_first_not_of_dropWhile:
  "drop (case find_first_not_of c s of None \<Rightarrow> length s | Some i \<Rightarrow> i) s
     = dropWhile (\<lambda>x. x = c) s"
  by (induction s) (auto split: option.splits)

lemma find_last_not_of_append:
  "find_last_not_of c (s @ t) =
     (case find_last_not_of c t of
        Some i \<Rightarrow> Some (length s + i)
      | None \<Rightarrow> find_last_not_of c s)"
  by (induction s) (auto split: option.splits)

lemma find_last_not_of_trim:
  "take (case find_last_not_of c s of None \<Rightarrow> 0 | Some i \<Rightarrow> Suc i) s
     = rev (dropWhile (\<lambda>x. x = c) (rev s))"
proof (induction s rule: rev_induct)
  case Nil
  then show ?case by simp
next
  case (snoc x s)
  show ?case
  proof (cases "x = c")
    case True
    have "(case find_last_not_of c s of None \<Rightarrow> 0 | Some i \<Rightarrow> Suc i) \<le> length s"
      by (induction s) (auto split: option.splits)
    with True snoc.IH show ?thesis
      by (simp add: find_last_not_of_append)
  next
    case False
    then show ?thesis by (simp add: find_last_not_of_append)
  qed
qed

section \<open>Words\<close>

named_theorems word_simps \<open>reading word operations as operations on naturals\<close>

lemma unat_xor [word_simps]: "unat (a XOR b) = unat a XOR unat (b :: 'a::len word)"
  by (simp add: unsigned_xor_eq)

lemma unat_drop_bit [word_simps]: "unat (drop_bit n a) = drop_bit n (unat (a :: 'a::len word))"
  by (simp add: unsigned_drop_bit_eq take_bit_nat_eq_self drop_bit_nat_def)

lemma unat_push_bit [word_simps]:
  "unat (push_bit n a) = take_bit LENGTH('a) (push_bit n (unat (a :: 'a::len word)))"
  by (simp add: unsigned_push_bit_eq)

lemma bit_unat [word_simps]: "bit (unat a) n = bit (a :: 'a::len word) n"
  by (simp add: bit_unsigned_iff bit_imp_le_length)

lemma unat_lt_iff_bits: "unat (w :: 'a::len word) < 2 ^ k \<longleftrightarrow> (\<forall>n \<ge> k. \<not> bit w n)"
proof
  assume "unat w < 2 ^ k"
  then have "take_bit k (unat w) = unat w"
    by (simp add: take_bit_nat_eq_self_iff)
  then show "\<forall>n \<ge> k. \<not> bit w n"
    by (metis bit_take_bit_iff bit_unat not_le)
next
  assume "\<forall>n \<ge> k. \<not> bit w n"
  then have "take_bit k (unat w) = unat w"
    by (intro bit_eqI) (auto simp: bit_take_bit_iff bit_unat not_le)
  then show "unat w < 2 ^ k"
    by (simp add: take_bit_nat_eq_self_iff)
qed

end
