(* ===== verification/Bitops.thy ===== *)
theory Bitops
  imports P2P_Prelude "HOL-Library.Log_Nat"
begin

text \<open>
  The bit-position helpers of \<open>daemon/utils/bitpos.h\<close>: \<open>fls\<close> on 32-bit and \<open>fls64\<close> on
  64-bit words, each a binary search for the most significant set bit.
\<close>

definition fls :: "u32 \<Rightarrow> nat" where
  "fls x =
     (let r = 32 in
      if x = 0 then 0 else
      let (x, r) = (if x AND 0xffff0000 = 0 then (push_bit 16 x, r - 16) else (x, r));
          (x, r) = (if x AND 0xff000000 = 0 then (push_bit 8 x, r - 8) else (x, r));
          (x, r) = (if x AND 0xf0000000 = 0 then (push_bit 4 x, r - 4) else (x, r));
          (x, r) = (if x AND 0xc0000000 = 0 then (push_bit 2 x, r - 2) else (x, r));
          (x, r) = (if x AND 0x80000000 = 0 then (push_bit 1 x, r - 1) else (x, r))
      in r)"

definition fls64 :: "u64 \<Rightarrow> nat" where
  "fls64 x =
     (let h = (ucast (drop_bit 32 x) :: u32) in
      if h \<noteq> 0 then fls h + 32 else fls (ucast x))"

section \<open>The most significant set bit\<close>

definition topbit :: "'a::len word \<Rightarrow> nat \<Rightarrow> bool" where
  "topbit x n \<longleftrightarrow> bit x n \<and> (\<forall>m > n. \<not> bit x m)"

lemma topbit_lt: "topbit (x :: 'a::len word) n \<Longrightarrow> n < LENGTH('a)"
  by (auto simp: topbit_def dest: bit_imp_le_length)

lemma topbit_unique: "topbit x n \<Longrightarrow> topbit x m \<Longrightarrow> n = m"
  unfolding topbit_def by (metis linorder_neqE_nat)

lemma topbit_exists:
  assumes "(x :: 'a::len word) \<noteq> 0"
  shows "\<exists>n. topbit x n"
proof -
  let ?S = "{n. bit x n}"
  have fin: "finite ?S"
    by (rule finite_subset [of _ "{..< LENGTH('a)}"]) (auto dest: bit_imp_le_length)
  have ne: "?S \<noteq> {}"
    using assms by (metis Collect_empty_eq bit_0_eq bit_eqI bot_apply bot_bool_def)
  have "bit x (Max ?S)" using Max_in [OF fin ne] by simp
  moreover have "\<forall>m > Max ?S. \<not> bit x m"
    using Max_ge [OF fin] by (metis mem_Collect_eq not_le)
  ultimately show ?thesis unfolding topbit_def by blast
qed

lemma topbit_range: "topbit x n \<Longrightarrow> 2 ^ n \<le> unat x \<and> unat x < 2 ^ Suc n"
proof -
  assume t: "topbit x n"
  then have "bit (unat x) n" by (simp add: topbit_def word_simps)
  then have "2 ^ n \<le> unat x"
    by (metis bit_take_bit_iff less_irrefl not_le take_bit_nat_eq_self)
  moreover have "unat x < 2 ^ Suc n"
    using t unfolding unat_lt_iff_bits topbit_def by auto
  ultimately show ?thesis by simp
qed

text \<open>
  The state of the search: the current word is the original one shifted left by \<open>32 - r\<close>, and
  its top bit, once at \<open>n0\<close>, has reached position \<open>lo\<close> or higher.
\<close>

definition fls_inv :: "nat \<Rightarrow> nat \<Rightarrow> u32 \<times> nat \<Rightarrow> bool" where
  "fls_inv n0 lo = (\<lambda>(x, r). \<exists>n. topbit x n \<and> lo \<le> n \<and> n0 + 32 = n + r)"

lemma high_bits_clear_iff:
  fixes x :: u32
  assumes "topbit x n" and "k \<le> 32" and "hi = push_bit (32 - k) (mask k)"
  shows "x AND hi = 0 \<longleftrightarrow> n < 32 - k"
proof
  have hi: "bit hi m \<longleftrightarrow> 32 - k \<le> m \<and> m < 32" for m
    using assms(2,3) by (auto simp: bit_push_bit_iff bit_mask_iff)
  { assume "x AND hi = 0"
    then have "\<not> bit (x AND hi) n" by simp
    then have "\<not> bit hi n" using assms(1) by (simp add: bit_and_iff topbit_def)
    then show "n < 32 - k" using topbit_lt [OF assms(1)] by (simp add: hi)
  next
    assume "n < 32 - k"
    then show "x AND hi = 0"
      using assms(1) by (intro bit_eqI) (auto simp: bit_and_iff hi topbit_def)
  }
qed

lemma fls_step:
  assumes inv: "fls_inv n0 lo (x, r)" and k: "0 < k" "k \<le> 32" "32 - 2 * k \<le> lo"
    and hi: "hi = push_bit (32 - k) (mask k)"
  shows "fls_inv n0 (32 - k) (if x AND hi = 0 then (push_bit k x, r - k) else (x, r))"
proof -
  from inv obtain n where n: "topbit x n" "lo \<le> n" "n0 + 32 = n + r"
    by (auto simp: fls_inv_def)
  have iff: "x AND hi = 0 \<longleftrightarrow> n < 32 - k"
    by (rule high_bits_clear_iff [OF n(1) k(2) hi])
  show ?thesis
  proof (cases "n < 32 - k")
    case True
    then have "topbit (push_bit k x) (n + k)"
      using n(1) by (auto simp: topbit_def bit_push_bit_iff)
    with True iff n k show ?thesis
      by (auto simp: fls_inv_def intro!: exI [of _ "n + k"])
  next
    case False
    with iff n show ?thesis by (auto simp: fls_inv_def)
  qed
qed

lemma fls_topbit:
  assumes "topbit x n"
  shows "fls x = Suc n"
proof -
  have nz: "x \<noteq> 0" using assms by (auto simp: topbit_def)
  have i0: "fls_inv n 0 (x, 32)"
    using assms by (auto simp: fls_inv_def)
  obtain x1 r1 where e1: "(if x AND 0xffff0000 = 0 then (push_bit 16 x, 32 - 16) else (x, 32)) = (x1, r1 :: nat)"
    by (metis surj_pair)
  have i1: "fls_inv n 16 (x1, r1)"
    using fls_step [OF i0, of 16 "0xffff0000"] by (simp add: e1 push_bit_eq_mult mask_eq_exp_minus_1)
  obtain x2 r2 where e2: "(if x1 AND 0xff000000 = 0 then (push_bit 8 x1, r1 - 8) else (x1, r1)) = (x2, r2)"
    by (metis surj_pair)
  have i2: "fls_inv n 24 (x2, r2)"
    using fls_step [OF i1, of 8 "0xff000000"] by (simp add: e2 push_bit_eq_mult mask_eq_exp_minus_1)
  obtain x3 r3 where e3: "(if x2 AND 0xf0000000 = 0 then (push_bit 4 x2, r2 - 4) else (x2, r2)) = (x3, r3)"
    by (metis surj_pair)
  have i3: "fls_inv n 28 (x3, r3)"
    using fls_step [OF i2, of 4 "0xf0000000"] by (simp add: e3 push_bit_eq_mult mask_eq_exp_minus_1)
  obtain x4 r4 where e4: "(if x3 AND 0xc0000000 = 0 then (push_bit 2 x3, r3 - 2) else (x3, r3)) = (x4, r4)"
    by (metis surj_pair)
  have i4: "fls_inv n 30 (x4, r4)"
    using fls_step [OF i3, of 2 "0xc0000000"] by (simp add: e4 push_bit_eq_mult mask_eq_exp_minus_1)
  obtain x5 r5 where e5: "(if x4 AND 0x80000000 = 0 then (push_bit 1 x4, r4 - 1) else (x4, r4)) = (x5, r5)"
    by (metis surj_pair)
  have i5: "fls_inv n 31 (x5, r5)"
    using fls_step [OF i4, of 1 "0x80000000"] by (simp add: e5 push_bit_eq_mult mask_eq_exp_minus_1)
  then have "r5 = Suc n"
    by (auto simp: fls_inv_def dest!: topbit_lt)
  moreover have "fls x = r5"
    unfolding fls_def Let_def by (simp only: nz if_False e1 e2 e3 e4 e5 prod.case)
  ultimately show ?thesis by simp
qed

lemma fls_0 [simp]: "fls 0 = 0"
  by (simp add: fls_def)

lemma fls64_topbit:
  assumes "topbit x n"
  shows "fls64 x = Suc n"
proof -
  let ?h = "ucast (drop_bit 32 x) :: u32"
  have bh: "bit ?h m \<longleftrightarrow> bit x (m + 32)" for m
    by (auto simp: bit_simps add.commute dest: bit_imp_le_length)
  show ?thesis
  proof (cases "n < 32")
    case True
    have "?h = 0"
      using assms True by (intro bit_eqI) (auto simp: bh topbit_def)
    moreover have "topbit (ucast x :: u32) n"
      using assms True by (auto simp: topbit_def bit_simps)
    ultimately show ?thesis by (simp add: fls64_def fls_topbit)
  next
    case False
    then have "topbit ?h (n - 32)"
      using assms by (auto simp: topbit_def bh)
    moreover from this have "?h \<noteq> 0" by (auto simp: topbit_def)
    ultimately show ?thesis using False by (simp add: fls64_def fls_topbit)
  qed
qed

lemma fls64_0 [simp]: "fls64 0 = 0"
  by (simp add: fls64_def)

lemma topbit_floorlog: "topbit x n \<Longrightarrow> floorlog 2 (unat x) = Suc n"
  using topbit_range [of x n] floorlog_ge_SucI [of 2 n "unat x"] floorlog_leI [of "unat x" 2 "Suc n"]
  by simp

lemma fls_floorlog: "fls x = floorlog 2 (unat x)"
proof (cases "x = 0")
  case True
  then show ?thesis by (simp add: floorlog_def)
next
  case False
  then obtain n where "topbit x n" using topbit_exists by blast
  then show ?thesis by (simp add: fls_topbit topbit_floorlog)
qed

text \<open>The binary search of \<open>fls64\<close> (and of \<open>fls\<close>, which it calls on one half) returns, for
  every 64-bit word, the number of binary digits of its value: 0 for 0, otherwise the 1-based
  position of the most significant set bit.
\<close>

theorem fls64_floorlog: "fls64 x = floorlog 2 (unat x)"
proof (cases "x = 0")
  case True
  then show ?thesis by (simp add: floorlog_def)
next
  case False
  then obtain n where "topbit x n" using topbit_exists by blast
  then show ?thesis by (simp add: fls64_topbit topbit_floorlog)
qed

end
