(* ===== verification/Gf2_Poly.thy ===== *)
theory Gf2_Poly
  imports P2P_Prelude
begin

text \<open>
  Polynomials over the field with two elements, a natural number standing for the polynomial
  whose coefficients are its binary digits: addition is \<open>XOR\<close>, multiplication by \<open>x ^ n\<close> is
  \<open>push_bit n\<close>. The carry-less product and congruence modulo a polynomial are the reference
  notions the fingerprint code is measured against.
\<close>

fun clmul :: "nat \<Rightarrow> nat \<Rightarrow> nat" where
  "clmul a b = (if a = 0 then 0 else (if odd a then b else 0) XOR 2 * clmul (a div 2) b)"

declare clmul.simps [simp del]

definition pcong :: "nat \<Rightarrow> nat \<Rightarrow> nat \<Rightarrow> bool" where
  "pcong d a b \<longleftrightarrow> (\<exists>q. a XOR b = clmul q d)"

section \<open>Exclusive or on naturals\<close>

lemma double_xor: "2 * ((a :: nat) XOR b) = 2 * a XOR 2 * b"
  using push_bit_xor [of 1 a b] by (simp add: push_bit_eq_mult mult.commute)

lemma xor_less_exp: "(a :: nat) < 2 ^ n \<Longrightarrow> b < 2 ^ n \<Longrightarrow> a XOR b < 2 ^ n"
  by (metis take_bit_nat_eq_self take_bit_nat_less_exp take_bit_xor)

lemma xor_ge_exp:
  assumes "(a :: nat) < 2 ^ n" and "2 ^ n \<le> b" and "b < 2 ^ Suc n"
  shows "2 ^ n \<le> a XOR b"
proof -
  have "drop_bit n b = 1"
    using assms(2,3) by (simp add: drop_bit_eq_div div_nat_eqI)
  moreover have "drop_bit n a = 0"
    using assms(1) by (simp add: drop_bit_eq_div)
  ultimately have "drop_bit n (a XOR b) = 1"
    by (simp add: drop_bit_xor)
  then show ?thesis
    by (metis div_less drop_bit_eq_div not_le zero_neq_one)
qed

lemma xor_cancel_left [simp]: "(a :: nat) XOR (a XOR b) = b"
  by (simp flip: xor.assoc)

lemma xor_split: "take_bit n a XOR push_bit n (drop_bit n a) = (a :: nat)"
  by (rule bit_eqI) (auto simp: bit_simps)

section \<open>The carry-less product\<close>

lemma clmul_0 [simp]: "clmul 0 b = 0"
  by (simp add: clmul.simps)

lemma clmul_double [simp]: "clmul (2 * a) b = 2 * clmul a b"
  by (subst clmul.simps) simp

lemma clmul_odd [simp]: "clmul (Suc (2 * a)) b = b XOR 2 * clmul a b"
  by (subst clmul.simps) simp

lemma clmul_1 [simp]: "clmul 1 b = b" "clmul (Suc 0) b = b"
  using clmul_odd [of 0 b] by simp_all

lemma clmul_rec: "clmul a b = (if odd a then b else 0) XOR 2 * clmul (a div 2) b"
  by (subst clmul.simps) simp

lemma clmul_0_right [simp]: "clmul a 0 = 0"
  by (induction a "0 :: nat" rule: clmul.induct) (metis clmul_rec mult_0_right xor.right_neutral clmul_0)

lemma xor_div_2: "((a :: nat) XOR b) div 2 = (a div 2) XOR (b div 2)"
  using drop_bit_xor [of 1 a b] by (simp add: drop_bit_eq_div)

lemma clmul_xor_left: "clmul (a XOR c) b = clmul a b XOR clmul c b"
proof (induction a b arbitrary: c rule: clmul.induct)
  case (1 a b)
  show ?case
  proof (cases "a = 0")
    case False
    have "clmul ((a XOR c) div 2) b = clmul (a div 2) b XOR clmul (c div 2) b"
      using "1.IH" [OF False, of "c div 2"] by (simp add: xor_div_2)
    then show ?thesis
      by (simp add: clmul_rec [of "a XOR c"] clmul_rec [of a] clmul_rec [of c] double_xor
          even_xor_iff xor.left_commute xor.commute xor.assoc)
  qed simp
qed

lemma clmul_xor_right: "clmul a (b XOR c) = clmul a b XOR clmul a c"
proof (induction a "b XOR c" rule: clmul.induct)
  case (1 a)
  show ?case
  proof (cases "a = 0")
    case False
    then have "clmul (a div 2) (b XOR c) = clmul (a div 2) b XOR clmul (a div 2) c"
      using 1 by blast
    then show ?thesis
      by (simp add: clmul_rec [of a] double_xor xor.left_commute xor.commute xor.assoc)
  qed simp
qed

lemma clmul_double_right: "clmul a (2 * b) = 2 * clmul a b"
proof (induction a "2 * b" rule: clmul.induct)
  case (1 a)
  show ?case
  proof (cases "a = 0")
    case False
    then have "clmul (a div 2) (2 * b) = 2 * clmul (a div 2) b" using 1 by blast
    then show ?thesis by (simp add: clmul_rec [of a] double_xor)
  qed simp
qed

lemma clmul_push_bit: "clmul (push_bit n a) b = push_bit n (clmul a b)"
  by (induction n arbitrary: a) (simp_all add: push_bit_Suc mult.commute [of _ 2])

lemma clmul_push_bit_right: "clmul a (push_bit n b) = push_bit n (clmul a b)"
  by (induction n arbitrary: b) (simp_all add: clmul_double_right push_bit_Suc mult.commute [of _ 2])

lemma clmul_assoc: "clmul (clmul a b) c = clmul a (clmul b c)"
proof (induction a b rule: clmul.induct)
  case (1 a b)
  show ?case
  proof (cases "a = 0")
    case False
    then have "clmul (clmul (a div 2) b) c = clmul (a div 2) (clmul b c)" using 1 by blast
    then show ?thesis
      by (simp add: clmul_rec [of a] clmul_xor_left if_distrib [of "\<lambda>t. clmul t c"])
  qed simp
qed

lemma clmul_1_right [simp]: "clmul a 1 = a"
proof (induction a "1 :: nat" rule: clmul.induct)
  case (1 a)
  show ?case
  proof (cases "a = 0")
    case False
    then have "clmul (a div 2) 1 = a div 2" using 1 by blast
    then have "clmul a 1 = (a mod 2) XOR 2 * (a div 2)"
      by (simp add: clmul_rec [of a] odd_iff_mod_2_eq_one)
    also have "\<dots> = take_bit 1 a XOR push_bit 1 (drop_bit 1 a)"
      by (simp add: take_bit_eq_mod push_bit_eq_mult drop_bit_eq_div mult.commute)
    also have "\<dots> = a"
      by (rule xor_split)
    finally show ?thesis .
  qed simp
qed

lemma clmul_power_right [simp]: "clmul a (2 ^ n) = push_bit n a"
  using clmul_push_bit_right [of a n 1] clmul_1_right [of a] by (simp add: push_bit_eq_mult)

lemma clmul_power_left [simp]: "clmul (2 ^ n) b = push_bit n b"
  using clmul_push_bit [of n 1 b] by (simp add: push_bit_eq_mult)

lemma clmul_range:
  assumes "2 ^ k \<le> b" and "b < 2 ^ Suc k"
  shows "2 ^ m \<le> a \<Longrightarrow> a < 2 ^ Suc m \<Longrightarrow>
    2 ^ (m + k) \<le> clmul a b \<and> clmul a b < 2 ^ Suc (m + k)"
proof (induction m arbitrary: a)
  case 0
  then have "a = 1" by simp
  with assms show ?case by simp
next
  case (Suc m)
  then have "2 ^ m \<le> a div 2" and "a div 2 < 2 ^ Suc m" by auto
  then have r: "2 ^ (m + k) \<le> clmul (a div 2) b" "clmul (a div 2) b < 2 ^ Suc (m + k)"
    using Suc.IH by auto
  let ?l = "if odd a then b else 0"
  have "b < 2 ^ (Suc m + k)"
    using assms(2) by (rule less_le_trans) (simp add: power_add)
  then have l: "?l < 2 ^ (Suc m + k)" by simp
  have "2 ^ (Suc m + k) \<le> ?l XOR 2 * clmul (a div 2) b"
    using l r by (intro xor_ge_exp) auto
  moreover have "?l XOR 2 * clmul (a div 2) b < 2 ^ Suc (Suc m + k)"
    using l r by (intro xor_less_exp) auto
  ultimately show ?case by (simp only: clmul_rec [of a])
qed

section \<open>Congruence modulo a polynomial\<close>

lemma pcong_refl [simp, intro]: "pcong d a a"
  by (auto simp: pcong_def intro: exI [of _ 0])

lemma pcong_sym: "pcong d a b \<Longrightarrow> pcong d b a"
  by (simp add: pcong_def xor.commute)

lemma pcong_xor: "pcong d a b \<Longrightarrow> pcong d a' b' \<Longrightarrow> pcong d (a XOR a') (b XOR b')"
  unfolding pcong_def
  by (metis clmul_xor_left xor.assoc xor.commute)

lemma pcong_trans [trans]: "pcong d a b \<Longrightarrow> pcong d b c \<Longrightarrow> pcong d a c"
  unfolding pcong_def by (metis clmul_xor_left xor.assoc xor_cancel_left)

lemma pcong_clmul: "pcong d a b \<Longrightarrow> pcong d (clmul c a) (clmul c b)"
  unfolding pcong_def by (metis clmul_assoc clmul_xor_right)

lemma pcong_push_bit: "pcong d a b \<Longrightarrow> pcong d (push_bit n a) (push_bit n b)"
  unfolding pcong_def by (metis clmul_push_bit push_bit_xor)

lemma pcong_multiple: "pcong d (a XOR push_bit n d) a"
proof -
  have "(a XOR push_bit n d) XOR a = clmul (push_bit n 1) d"
    using clmul_push_bit [of n 1 d] by (simp add: xor.commute [of _ a])
  then show ?thesis unfolding pcong_def by blast
qed

lemma pcong_push_modulus:
  assumes "pcong (push_bit n d) a b"
  shows "pcong d a b"
proof -
  obtain q where "a XOR b = clmul q (push_bit n d)"
    using assms by (auto simp: pcong_def)
  then have "a XOR b = clmul (push_bit n q) d"
    by (simp add: clmul_push_bit clmul_push_bit_right)
  then show ?thesis by (auto simp: pcong_def)
qed

text \<open>
  The interface of a modulus of degree \<open>k\<close>: every residue class has at most one representative
  below \<open>2 ^ k\<close>, so a function that reduces into that range is determined by congruence.
\<close>

locale modulus =
  fixes d :: nat and k :: nat
  assumes deg_lo: "2 ^ k \<le> d" and deg_hi: "d < 2 ^ Suc k"
begin

lemma multiple_large:
  assumes "clmul q d \<noteq> 0"
  shows "2 ^ k \<le> clmul q d"
proof -
  have q: "0 < q" using assms by (cases "q = 0") auto
  obtain m where "2 ^ m \<le> q" "q < 2 ^ Suc m"
    using ex_power_ivl1 [of 2 q] q by auto
  then have "2 ^ (m + k) \<le> clmul q d"
    using clmul_range [OF deg_lo deg_hi] by blast
  moreover have "2 ^ k \<le> (2 :: nat) ^ (m + k)" by (simp add: power_add)
  ultimately show ?thesis by (rule order_trans [rotated])
qed

lemma residue_unique:
  assumes "pcong d a b" and "a < 2 ^ k" and "b < 2 ^ k"
  shows "a = b"
proof -
  obtain q where q: "a XOR b = clmul q d" using assms(1) by (auto simp: pcong_def)
  have "a XOR b < 2 ^ k" using assms(2,3) by (rule xor_less_exp)
  then have "a XOR b = 0" using multiple_large [of q] q by fastforce
  then show ?thesis by (metis xor.right_neutral xor_cancel_left)
qed

end

end
