(* ===== verification/Rabin.thy ===== *)
theory Rabin
  imports Bitops Gf2_Poly
begin

text \<open>
  The Rabin fingerprint of \<open>daemon/utils/rabin_checksum.cc\<close>: the reduction \<open>polymod\<close> of a
  128-bit value, the product \<open>polymmult\<close>, the tables \<open>calcT\<close> and \<open>calcU\<close>, and the two
  exported functions \<open>rolling_checksum\<close> and \<open>checksum\<close>. \<open>std::array::at\<close> checks its index, so
  \<open>append8\<close> may fail with \<open>OutOfRange\<close>; the theorems show when it does not. \<open>polymod\<close> is
  modelled for a nonzero divisor: for 0 the source shifts a 64-bit word by 64, which C++ leaves
  undefined, and every call in the source passes \<open>poly\<close>.
\<close>

section \<open>The code\<close>

definition poly :: u64 where
  "poly = 0xbfe6b8a5bf378d83"

definition append8 :: "u64 \<Rightarrow> u8 \<Rightarrow> u64 list \<Rightarrow> u64 result" where
  "append8 p m T =
     (let i = unat (drop_bit (fls64 poly - 9) p) in
      if i < length T then Inr ((push_bit 8 p OR ucast m) XOR T ! i) else Inl OutOfRange)"

text \<open>The loop \<open>for (i = 62; i >= 0; i--)\<close>: \<open>n\<close> iterations are left, the next one at \<open>i = n - 1\<close>.\<close>

fun polymod_hi :: "nat \<Rightarrow> u64 \<Rightarrow> u64 \<Rightarrow> u64 \<Rightarrow> u64 \<times> u64" where
  "polymod_hi 0 d nh nl = (nh, nl)"
| "polymod_hi (Suc i) d nh nl =
     (if nh AND push_bit i 1 \<noteq> 0
      then polymod_hi i d (nh XOR drop_bit (63 - i) d) (nl XOR push_bit (i + 1) d)
      else polymod_hi i d nh nl)"

text \<open>The loop \<open>for (i = 63; i >= k; i--)\<close>, counted the same way.\<close>

fun polymod_lo :: "nat \<Rightarrow> nat \<Rightarrow> u64 \<Rightarrow> u64 \<Rightarrow> u64" where
  "polymod_lo 0 k d nl = nl"
| "polymod_lo (Suc i) k d nl =
     (if i < k then nl
      else if nl AND push_bit i 1 \<noteq> 0 then polymod_lo i k d (nl XOR drop_bit (63 - i) d)
      else polymod_lo i k d nl)"

definition polymod :: "u64 \<Rightarrow> u64 \<Rightarrow> u64 \<Rightarrow> u64" where
  "polymod nh nl d =
     (let k = fls64 d - 1;
          d = push_bit (63 - k) d;
          (nh, nl) =
            (if nh \<noteq> 0
             then (let nh = (if nh AND 0x8000000000000000 \<noteq> 0 then nh XOR d else nh)
                   in polymod_hi 63 d nh nl)
             else (nh, nl))
      in polymod_lo 64 k d nl)"

definition mult_step :: "u64 \<Rightarrow> u64 \<Rightarrow> nat \<Rightarrow> u64 \<times> u64 \<Rightarrow> u64 \<times> u64" where
  "mult_step x y i =
     (\<lambda>(ph, pl). if x AND push_bit i 1 \<noteq> 0
                  then (ph XOR drop_bit (64 - i) y, pl XOR push_bit i y)
                  else (ph, pl))"

definition polymmult :: "u64 \<Rightarrow> u64 \<Rightarrow> u64 \<Rightarrow> u64" where
  "polymmult x y d =
     (let pl = (if x AND 1 \<noteq> 0 then y else 0);
          (ph, pl) = fold (mult_step x y) [1..<64] (0, pl)
      in polymod ph pl d)"

definition calcT :: "u64 list" where
  "calcT =
     (let xshift = fls64 poly - 1;
          T1 = polymod 0 (push_bit xshift 1) poly
      in map (\<lambda>j. polymmult (of_nat j) T1 poly OR push_bit xshift (of_nat j)) [0..<256])"

fun shift_loop :: "nat \<Rightarrow> u64 \<Rightarrow> u64 list \<Rightarrow> u64 result" where
  "shift_loop 0 s T = Inr s"
| "shift_loop (Suc n) s T = bind_result (append8 s 0 T) (\<lambda>s'. shift_loop n s' T)"

definition calcU :: "u64 list \<Rightarrow> u64 list result" where
  "calcU T =
     bind_result (shift_loop 255 1 T)
       (\<lambda>shift_size. Inr (map (\<lambda>i. polymmult (of_nat i) shift_size poly) [0..<256]))"

definition rolling_checksum :: "u64 \<Rightarrow> u8 \<Rightarrow> u8 \<Rightarrow> u64 result" where
  "rolling_checksum csum c1 c2 =
     bind_result (calcU calcT) (\<lambda>U. append8 (csum XOR U ! unat c1) c2 calcT)"

fun checksum_loop :: "u64 \<Rightarrow> u8 list \<Rightarrow> u64 result" where
  "checksum_loop s [] = Inr s"
| "checksum_loop s (c # cs) =
     bind_result (rolling_checksum s 0 c) (\<lambda>s'. checksum_loop s' cs)"

definition checksum :: "u8 list \<Rightarrow> u64 result" where
  "checksum buf = checksum_loop 0 buf"

section \<open>The reduction\<close>

abbreviation wide :: "u64 \<Rightarrow> u64 \<Rightarrow> nat" where
  "wide h l \<equiv> push_bit 64 (unat h) XOR unat l"

lemma push_bit_wide:
  fixes d :: u64
  assumes "m \<le> 64"
  shows "push_bit m (unat d) = wide (drop_bit (64 - m) d) (push_bit m d)"
proof -
  have "drop_bit 64 (push_bit m (unat d)) = drop_bit (64 - m) (unat d)"
    using assms by (intro bit_eqI) (auto simp: bit_simps)
  then show ?thesis
    using xor_split [of 64 "push_bit m (unat d)"]
    by (simp add: word_simps xor.commute)
qed

lemma wide_xor: "wide (h XOR h') (l XOR l') = wide h l XOR wide h' l'"
  by (simp add: word_simps push_bit_xor xor.assoc xor.left_commute)

lemma clear_top:
  fixes w d :: "'a::len word"
  assumes "unat w < 2 ^ Suc i" and "bit w i" and "bit e i" and "unat e < 2 ^ Suc i"
  shows "unat (w XOR e) < 2 ^ i"
  using assms unfolding unat_lt_iff_bits
  by (metis Suc_leI bit_xor_iff le_neq_implies_less)

lemma polymod_hi_correct:
  assumes "unat nh < 2 ^ n" and "n \<le> 63" and "bit d 63"
  shows "\<exists>nl'. polymod_hi n d nh nl = (0, nl') \<and> pcong (unat d) (wide nh nl) (unat nl')"
  using assms(1,2)
proof (induction n arbitrary: nh nl)
  case 0
  then show ?case by (simp add: unat_eq_zero)
next
  case (Suc i)
  show ?case
  proof (cases "bit nh i")
    case True
    let ?e = "drop_bit (63 - i) d"
    let ?nh = "nh XOR ?e" and ?nl = "nl XOR push_bit (i + 1) d"
    have e: "bit ?e i" "unat ?e < 2 ^ Suc i"
      using Suc.prems(2) assms(3) unfolding unat_lt_iff_bits
      by (auto simp: bit_simps dest: bit_imp_le_length)
    have "unat ?nh < 2 ^ i"
      using Suc.prems(1) True e by (rule clear_top)
    with Suc.IH Suc.prems(2) obtain nl' where
      nl': "polymod_hi i d ?nh ?nl = (0, nl')" "pcong (unat d) (wide ?nh ?nl) (unat nl')"
      by (metis Suc_leD)
    have "wide ?nh ?nl = wide nh nl XOR push_bit (i + 1) (unat d)"
      using push_bit_wide [of "i + 1" d] Suc.prems(2) by (simp only: wide_xor) simp
    then have "pcong (unat d) (wide ?nh ?nl) (wide nh nl)"
      by (simp only: pcong_multiple)
    then have "pcong (unat d) (wide nh nl) (unat nl')"
      by (rule pcong_trans [OF pcong_sym nl'(2)])
    then show ?thesis
      using nl'(1) True by (simp add: bit_iff_and_push_bit_not_eq_0)
  next
    case False
    then have "unat nh < 2 ^ i"
      using Suc.prems(1) unfolding unat_lt_iff_bits by (metis Suc_leI le_neq_implies_less)
    with Suc False show ?thesis by (simp add: bit_iff_and_push_bit_not_eq_0)
  qed
qed

lemma polymod_lo_correct:
  assumes "unat nl < 2 ^ n" and "n \<le> 64" and "k \<le> 63"
    and "unat d = push_bit (63 - k) (unat d0)" and "topbit d0 k"
  shows "unat (polymod_lo n k d nl) < 2 ^ k \<and>
    pcong (unat d0) (unat nl) (unat (polymod_lo n k d nl))"
  using assms(1,2)
proof (induction n arbitrary: nl)
  case 0
  then show ?case by (simp add: unat_eq_zero)
next
  case (Suc i)
  show ?case
  proof (cases "i < k")
    case True
    then have "(2 :: nat) ^ Suc i \<le> 2 ^ k" by (intro power_increasing) auto
    with Suc.prems True show ?thesis by simp
  next
    case ik: False
    show ?thesis
    proof (cases "bit nl i")
      case True
      let ?e = "drop_bit (63 - i) d"
      have ue: "unat ?e = push_bit (i - k) (unat d0)"
        using assms(4) Suc.prems(2) ik
        by (simp add: word_simps) (intro bit_eqI, auto simp: bit_simps)
      have be: "bit ?e m \<longleftrightarrow> i - k \<le> m \<and> bit d0 (m - (i - k))" for m
        unfolding bit_unat [of ?e, symmetric] ue
        by (simp only: bit_push_bit_iff_nat bit_unat)
      have "bit ?e i"
        using assms(5) ik by (simp add: be topbit_def)
      moreover have "unat ?e < 2 ^ Suc i"
        using assms(5) ik unfolding unat_lt_iff_bits by (auto simp: be topbit_def)
      ultimately have "unat (nl XOR ?e) < 2 ^ i"
        using Suc.prems(1) True by (blast intro: clear_top)
      then have IH: "unat (polymod_lo i k d (nl XOR ?e)) < 2 ^ k"
        "pcong (unat d0) (unat (nl XOR ?e)) (unat (polymod_lo i k d (nl XOR ?e)))"
        using Suc.IH Suc.prems(2) by auto
      have "pcong (unat d0) (unat (nl XOR ?e)) (unat nl)"
        by (simp only: unat_xor ue pcong_multiple)
      then have "pcong (unat d0) (unat nl) (unat (polymod_lo i k d (nl XOR ?e)))"
        by (rule pcong_trans [OF pcong_sym IH(2)])
      with IH(1) show ?thesis
        using ik True by (simp add: bit_iff_and_push_bit_not_eq_0)
    next
      case False
      then have "unat nl < 2 ^ i"
        using Suc.prems(1) unfolding unat_lt_iff_bits by (metis Suc_leI le_neq_implies_less)
      with Suc False ik show ?thesis by (simp add: bit_iff_and_push_bit_not_eq_0)
    qed
  qed
qed

lemma wide_0 [simp]: "wide 0 l = unat l"
  by simp

lemma topbit_fls64: "d \<noteq> 0 \<Longrightarrow> topbit d (fls64 d - 1)"
  using topbit_exists [of d] fls64_topbit [of d] by auto

lemma polymod_high:
  fixes e nh nl :: u64
  assumes e63: "bit e 63"
  shows "\<exists>nl'. (if nh \<noteq> 0 then
        (let nh = (if nh AND 0x8000000000000000 \<noteq> 0 then nh XOR e else nh) in polymod_hi 63 e nh nl)
      else (nh, nl)) = (0, nl') \<and> pcong (unat e) (wide nh nl) (unat nl')"
proof (cases "nh = 0")
  case True
  then show ?thesis by simp
next
  case False
  have msb: "nh AND 0x8000000000000000 \<noteq> 0 \<longleftrightarrow> bit nh 63"
    by (simp add: bit_iff_and_push_bit_not_eq_0 push_bit_eq_mult)
  let ?nh = "if nh AND 0x8000000000000000 \<noteq> 0 then nh XOR e else nh"
  have bound: "unat v < 2 ^ Suc 63" for v :: u64
    using unsigned_less [of v, where ?'a = nat] by simp
  have "unat ?nh < 2 ^ 63"
  proof (cases "bit nh 63")
    case True
    then show ?thesis using clear_top [OF bound True e63 bound] msb by simp
  next
    case False
    have "\<forall>n \<ge> 63. \<not> bit nh n"
      using False by (auto simp: le_less Suc_le_eq dest!: bit_imp_le_length)
    then have "unat nh < 2 ^ 63" by (simp only: unat_lt_iff_bits)
    then show ?thesis using msb False by simp
  qed
  then obtain nl' where nl': "polymod_hi 63 e ?nh nl = (0, nl')"
    "pcong (unat e) (wide ?nh nl) (unat nl')"
    using polymod_hi_correct [of ?nh 63 e nl] e63 by auto
  have "pcong (unat e) (wide nh nl) (wide ?nh nl)"
    using pcong_multiple [of "unat e" "wide nh nl" 64]
    by (auto simp: word_simps push_bit_xor xor.assoc xor.left_commute xor.commute intro: pcong_sym)
  then have "pcong (unat e) (wide nh nl) (unat nl')"
    using nl'(2) by (rule pcong_trans)
  then show ?thesis using nl'(1) False by (auto simp: Let_def)
qed

lemma polymod_correct:
  assumes "d \<noteq> 0"
  shows "unat (polymod nh nl d) < 2 ^ (fls64 d - 1) \<and>
    pcong (unat d) (wide nh nl) (unat (polymod nh nl d))"
proof -
  define k where "k = fls64 d - 1"
  define e where "e = push_bit (63 - k) d"
  have top: "topbit d k" unfolding k_def using assms by (rule topbit_fls64)
  have k: "k \<le> 63" using topbit_lt [OF top] by simp
  have "unat d < 2 ^ Suc k" using topbit_range [OF top] by simp
  then have "push_bit (63 - k) (unat d) < 2 ^ (63 - k) * 2 ^ Suc k"
    by (simp add: push_bit_eq_mult)
  also have "\<dots> = 2 ^ 64" using k by (simp flip: power_add power_Suc)
  finally have ue: "unat e = push_bit (63 - k) (unat d)"
    by (simp add: e_def word_simps take_bit_nat_eq_self)
  have "bit e 63" using top k by (simp add: e_def bit_simps topbit_def)
  then obtain nl' where hi: "(if nh \<noteq> 0 then
        (let nh = (if nh AND 0x8000000000000000 \<noteq> 0 then nh XOR e else nh) in polymod_hi 63 e nh nl)
      else (nh, nl)) = (0, nl')" and c1: "pcong (unat e) (wide nh nl) (unat nl')"
    using polymod_high by blast
  have red: "polymod nh nl d = polymod_lo 64 k e nl'"
    unfolding polymod_def Let_def unfolding k_def [symmetric] unfolding e_def [symmetric]
    by (simp only: hi [unfolded Let_def] prod.case)
  have "unat nl' < 2 ^ 64" using unsigned_less [of nl', where ?'a = nat] by simp
  then have lo: "unat (polymod nh nl d) < 2 ^ k" "pcong (unat d) (unat nl') (unat (polymod nh nl d))"
    using polymod_lo_correct [of nl' 64 k e d] k ue top by (simp_all add: red)
  have "pcong (unat d) (wide nh nl) (unat nl')"
    using c1 unfolding ue by (rule pcong_push_modulus)
  then show ?thesis using lo unfolding k_def by (blast intro: pcong_trans)
qed

section \<open>The product\<close>

lemma mult_loop_correct:
  fixes x y :: u64
  assumes "1 \<le> n" and "n \<le> 64"
    and "fold (mult_step x y) [1..<n] (0, if x AND 1 \<noteq> 0 then y else 0) = (ph, pl)"
  shows "wide ph pl = clmul (take_bit n (unat x)) (unat y)"
  using assms
proof (induction n arbitrary: ph pl rule: nat_induct_at_least)
  case base
  have "x AND 1 \<noteq> 0 \<longleftrightarrow> odd (unat x)"
    by (simp add: bit_iff_and_push_bit_not_eq_0 [of x 0, simplified, symmetric] bit_0 flip: bit_unat)
  with base show ?case by (auto simp: take_bit_Suc mod_2_eq_odd)
next
  case (Suc n)
  obtain ph0 pl0 where f0: "fold (mult_step x y) [1..<n] (0, if x AND 1 \<noteq> 0 then y else 0) = (ph0, pl0)"
    by (rule prod.exhaust)
  then have IH: "wide ph0 pl0 = clmul (take_bit n (unat x)) (unat y)"
    using Suc by simp
  have tb: "take_bit (Suc n) (unat x) = take_bit n (unat x) XOR (if bit x n then push_bit n 1 else 0)"
    by (rule bit_eqI) (auto simp: bit_simps less_Suc_eq)
  have "(ph, pl) = (if bit x n then (ph0 XOR drop_bit (64 - n) y, pl0 XOR push_bit n y) else (ph0, pl0))"
    using Suc.prems(2) Suc.hyps f0 mult_step_def [of x y n]
    by (simp add: bit_iff_and_push_bit_not_eq_0)
  then have "wide ph pl = wide ph0 pl0 XOR (if bit x n then push_bit n (unat y) else 0)"
    using push_bit_wide [of n y] Suc.prems(1) by (auto simp only: wide_xor split: if_splits) simp
  then show ?case
    by (simp add: IH tb clmul_xor_left clmul_push_bit)
qed

lemma polymmult_correct:
  assumes "d \<noteq> 0"
  shows "unat (polymmult x y d) < 2 ^ (fls64 d - 1) \<and>
    pcong (unat d) (clmul (unat x) (unat y)) (unat (polymmult x y d))"
proof -
  obtain ph pl where f: "fold (mult_step x y) [1..<64] (0, if x AND 1 \<noteq> 0 then y else 0) = (ph, pl)"
    by (rule prod.exhaust)
  have "take_bit 64 (unat x) = unat x"
    using unsigned_less [of x, where ?'a = nat] by (simp add: take_bit_nat_eq_self)
  then have "wide ph pl = clmul (unat x) (unat y)"
    using mult_loop_correct [of 64, OF _ _ f] by simp
  moreover have "polymmult x y d = polymod ph pl d"
    by (simp only: polymmult_def Let_def f prod.case)
  ultimately show ?thesis using polymod_correct [OF assms, of ph pl] by simp
qed

section \<open>The tables and the byte step\<close>

lemma fls64_poly [simp]: "fls64 poly = 64"
  by (simp add: fls64_floorlog poly_def compute_floorlog)

lemma poly_nonzero [simp]: "poly \<noteq> 0"
  by (simp add: poly_def)

interpretation rabin: modulus "unat poly" 63
  by unfold_locales (simp_all add: poly_def)

lemma length_calcT [simp]: "length calcT = 256"
  by (simp add: calcT_def Let_def del: upt_rec_numeral)

definition reduced :: "u64 \<Rightarrow> nat \<Rightarrow> bool" where
  "reduced r a \<longleftrightarrow> unat r < 2 ^ 63 \<and> pcong (unat poly) a (unat r)"

lemma reduced_unique:
  assumes "reduced r a" and "reduced s a"
  shows "r = s"
proof -
  have "pcong (unat poly) (unat r) (unat s)"
    using assms unfolding reduced_def by (auto intro: pcong_trans [OF pcong_sym])
  then have "unat r = unat s"
    using assms unfolding reduced_def by (blast intro: rabin.residue_unique)
  then show ?thesis by (simp add: word_unat_eq_iff)
qed

lemma reduced_xor: "reduced r a \<Longrightarrow> reduced s b \<Longrightarrow> reduced (r XOR s) (a XOR b)"
  unfolding reduced_def unat_xor by (blast intro: xor_less_exp pcong_xor)

lemma reduced_polymmult: "reduced y a \<Longrightarrow> reduced (polymmult x y poly) (clmul (unat x) a)"
  using polymmult_correct [of poly x y] pcong_clmul [of "unat poly" a "unat y" "unat x"]
  unfolding reduced_def by (auto intro: pcong_trans)

lemma reduced_small: "unat r < 2 ^ 63 \<Longrightarrow> reduced r (unat r)"
  by (simp add: reduced_def)

lemma table_index_bound: "(n :: nat) < 2 ^ 63 \<longleftrightarrow> drop_bit 55 n < 2 ^ 8"
  by (simp add: drop_bit_eq_div div_less_iff_less_mult)

lemma calcT_entry:
  assumes "unat p < 2 ^ 63"
  shows "\<exists>t. calcT ! unat (drop_bit 55 p) = t OR push_bit 63 (drop_bit 55 p) \<and>
    unat (drop_bit 55 p) < 256 \<and> reduced t (push_bit 63 (drop_bit 55 (unat p)))"
proof -
  define T1 where "T1 = polymod 0 (push_bit 63 1) poly"
  have "wide 0 (push_bit 63 1) = 2 ^ 63" by (simp add: push_bit_eq_mult)
  then have "reduced T1 (2 ^ 63)"
    using polymod_correct [of poly 0 "push_bit 63 1"] by (simp add: reduced_def T1_def)
  then have red: "reduced (polymmult (drop_bit 55 p) T1 poly) (push_bit 63 (drop_bit 55 (unat p)))"
    using reduced_polymmult [of T1 "2 ^ 63" "drop_bit 55 p"]
    by (simp only: clmul_power_right unat_drop_bit)
  have "unat (drop_bit 55 p) < 2 ^ 8"
    using assms by (simp only: unat_drop_bit table_index_bound)
  then have lt: "unat (drop_bit 55 p) < 256" by simp
  have entry: "calcT ! i = polymmult (of_nat i) T1 poly OR push_bit 63 (of_nat i)" if "i < 256" for i
    using that unfolding calcT_def Let_def fls64_poly T1_def
    by (subst nth_map) (simp_all del: upt_rec_numeral)
  have "calcT ! unat (drop_bit 55 p)
      = polymmult (drop_bit 55 p) T1 poly OR push_bit 63 (drop_bit 55 p)"
    using entry [OF lt] by (simp only: of_nat_unat ucast_id)
  then show ?thesis using lt red by blast
qed

lemma append8_correct:
  assumes "unat p < 2 ^ 63"
  shows "\<exists>r. append8 p m calcT = Inr r \<and> reduced r (push_bit 8 (unat p) XOR unat m)"
proof -
  obtain t where t: "calcT ! unat (drop_bit 55 p) = t OR push_bit 63 (drop_bit 55 p)"
    "unat (drop_bit 55 p) < 256" "reduced t (push_bit 63 (drop_bit 55 (unat p)))"
    using calcT_entry [OF assms] by blast
  let ?lo = "push_bit 8 (take_bit 55 p) XOR ucast m :: u64"
  let ?r = "(push_bit 8 p OR ucast m) XOR (t OR push_bit 63 (drop_bit 55 p))"
  have nt: "\<not> bit t n" if "63 \<le> n" for n
    using t(3) that unfolding reduced_def unat_lt_iff_bits by blast
  have "bit ?r n = bit (?lo XOR t) n" if "n < 64" for n
    using that nt [of n] by (cases "n = 63") (auto simp: bit_simps dest: bit_imp_le_length)
  then have r: "?r = ?lo XOR t" by (intro bit_eqI) (auto dest: bit_imp_le_length)
  have "unat ?lo < 2 ^ 63"
    unfolding unat_lt_iff_bits by (auto simp: bit_simps dest: bit_imp_le_length)
  moreover have "unat ?lo = push_bit 8 (take_bit 55 (unat p)) XOR unat m"
    by (rule bit_eqI) (auto simp: word_simps bit_simps dest: bit_imp_le_length)
  ultimately have "reduced ?lo (push_bit 8 (take_bit 55 (unat p)) XOR unat m)"
    using reduced_small by metis
  then have "reduced (?lo XOR t)
      ((push_bit 8 (take_bit 55 (unat p)) XOR unat m) XOR push_bit 63 (drop_bit 55 (unat p)))"
    using t(3) by (rule reduced_xor)
  moreover have "push_bit 8 (take_bit 55 (unat p)) XOR push_bit 63 (drop_bit 55 (unat p))
      = push_bit 8 (unat p)"
    using arg_cong [OF xor_split [of 55 "unat p"], of "push_bit 8"] by (simp add: push_bit_xor)
  ultimately have "reduced (?lo XOR t) (push_bit 8 (unat p) XOR unat m)"
    by (simp add: xor.assoc xor.commute xor.left_commute)
  moreover have "append8 p m calcT = Inr ?r"
    using t(1,2) by (simp add: append8_def Let_def)
  ultimately show ?thesis unfolding r by blast
qed

section \<open>The exported functions\<close>

text \<open>The polynomial whose coefficients are the bits of the buffer, first byte most significant.\<close>

definition bytes_poly :: "u8 list \<Rightarrow> nat" where
  "bytes_poly bs = foldl (\<lambda>a b. push_bit 8 a XOR unat b) 0 bs"

lemma bytes_poly_Nil [simp]: "bytes_poly [] = 0"
  by (simp add: bytes_poly_def)

lemma bytes_poly_snoc [simp]: "bytes_poly (bs @ [b]) = push_bit 8 (bytes_poly bs) XOR unat b"
  by (simp add: bytes_poly_def)

lemma bytes_poly_Cons:
  "bytes_poly (b # bs) = push_bit (8 * length bs) (unat b) XOR bytes_poly bs"
proof (induction bs rule: rev_induct)
  case Nil
  then show ?case by (simp add: bytes_poly_def)
next
  case (snoc c bs)
  then show ?case
    using bytes_poly_snoc [of "b # bs" c]
    by (simp add: push_bit_xor xor.assoc)
qed

lemma shift_loop_correct:
  "reduced s a \<Longrightarrow> \<exists>r. shift_loop n s calcT = Inr r \<and> reduced r (push_bit (8 * n) a)"
proof (induction n arbitrary: s a)
  case 0
  then show ?case by simp
next
  case (Suc n)
  then obtain r where r: "append8 s 0 calcT = Inr r" "reduced r (push_bit 8 (unat s))"
    using append8_correct [of s 0] by (auto simp: reduced_def)
  have "pcong (unat poly) (push_bit 8 a) (push_bit 8 (unat s))"
    using Suc.prems by (simp add: reduced_def pcong_push_bit)
  then have "reduced r (push_bit 8 a)"
    using r(2) by (auto simp: reduced_def intro: pcong_trans)
  then have "\<exists>q. shift_loop n r calcT = Inr q \<and> reduced q (push_bit (8 * n) (push_bit 8 a))"
    by (rule Suc.IH)
  then show ?case using r(1) by (simp add: add.commute)
qed

lemma calcU_correct:
  "\<exists>U. calcU calcT = Inr U \<and> length U = 256 \<and>
     (\<forall>b :: u8. reduced (U ! unat b) (push_bit 2040 (unat b)))"
proof -
  have "reduced 1 1" using reduced_small [of 1] by simp
  then obtain s where s: "shift_loop 255 1 calcT = Inr s" "reduced s (push_bit (8 * 255) 1)"
    using shift_loop_correct by blast
  let ?U = "map (\<lambda>i. polymmult (of_nat i) s poly) [0..<256]"
  have "reduced (?U ! unat b) (push_bit 2040 (unat b))" for b :: u8
  proof -
    have lt: "unat b < 256" using unsigned_less [of b, where ?'a = nat] by simp
    have "unat (of_nat (unat b) :: u64) = unat b"
      using lt by (simp add: unsigned_ucast_eq take_bit_nat_eq_self)
    moreover have "reduced s (2 ^ 2040)" using s(2) by (simp add: push_bit_eq_mult)
    ultimately have "reduced (polymmult (of_nat (unat b)) s poly) (push_bit 2040 (unat b))"
      using reduced_polymmult [of s "2 ^ 2040" "of_nat (unat b)"] by (simp only: clmul_power_right)
    then show ?thesis using lt by (simp del: upt_rec_numeral)
  qed
  then show ?thesis using s(1) by (auto simp: calcU_def simp del: upt_rec_numeral)
qed

lemma rolling_checksum_correct:
  assumes "reduced s (push_bit 2040 (unat out) XOR a)"
  shows "\<exists>r. rolling_checksum s out inb = Inr r \<and> reduced r (push_bit 8 a XOR unat inb)"
proof -
  obtain U where U: "calcU calcT = Inr U" "reduced (U ! unat out) (push_bit 2040 (unat out))"
    using calcU_correct by blast
  have s': "reduced (s XOR U ! unat out) a"
    using reduced_xor [OF assms U(2)] by (simp add: xor.commute xor.left_commute xor.assoc)
  then obtain r where r: "append8 (s XOR U ! unat out) inb calcT = Inr r"
    "reduced r (push_bit 8 (unat (s XOR U ! unat out)) XOR unat inb)"
    using append8_correct [of "s XOR U ! unat out" inb] by (auto simp: reduced_def)
  have "pcong (unat poly) (push_bit 8 a XOR unat inb)
      (push_bit 8 (unat (s XOR U ! unat out)) XOR unat inb)"
    using s' by (simp add: reduced_def pcong_push_bit pcong_xor)
  then have "reduced r (push_bit 8 a XOR unat inb)"
    using r(2) by (auto simp: reduced_def intro: pcong_trans)
  then show ?thesis using U(1) r(1) by (simp add: rolling_checksum_def)
qed

lemma checksum_loop_append:
  "checksum_loop s (xs @ ys) = bind_result (checksum_loop s xs) (\<lambda>s'. checksum_loop s' ys)"
  by (induction xs arbitrary: s) (auto simp: bind_result_def split: sum.splits)

lemma checksum_reduced: "\<exists>r. checksum buf = Inr r \<and> reduced r (bytes_poly buf)"
proof (induction buf rule: rev_induct)
  case Nil
  show ?case by (simp add: checksum_def reduced_def)
next
  case (snoc c buf)
  then obtain s where s: "checksum buf = Inr s" "reduced s (bytes_poly buf)" by blast
  then obtain r where "rolling_checksum s 0 c = Inr r" "reduced r (push_bit 8 (bytes_poly buf) XOR unat c)"
    using rolling_checksum_correct [of s 0 "bytes_poly buf" c] by auto
  then show ?case using s(1) by (simp add: checksum_def checksum_loop_append)
qed

text \<open>
  C16. Fingerprinting never fails and computes the Rabin fingerprint: for every buffer
  \<open>checksum\<close> returns (the checked table access \<open>T.at\<close> is never out of range), the result is
  below \<open>2 ^ 63\<close>, and it is the remainder of the buffer, read as a polynomial over the field with
  two elements, modulo \<open>poly\<close>.
\<close>

theorem checksum_is_remainder:
  "\<exists>r. checksum buf = Inr r \<and> unat r < 2 ^ 63 \<and> pcong (unat poly) (bytes_poly buf) (unat r)"
  using checksum_reduced [of buf] by (auto simp: reduced_def)

text \<open>
  C15. The rolling update agrees with recomputation on the window size the tables are built for,
  256 bytes: from the fingerprint of a window, \<open>rolling_checksum\<close> with the window's first byte
  as the outgoing and any byte as the incoming one gives the fingerprint of the window moved
  on by one byte.
\<close>

theorem rolling_checksum_slides:
  assumes "length w = 255"
  shows "bind_result (checksum (b # w)) (\<lambda>s. rolling_checksum s b c) = checksum (w @ [c])"
proof -
  obtain s where s: "checksum (b # w) = Inr s" "reduced s (bytes_poly (b # w))"
    using checksum_reduced by blast
  then have "reduced s (push_bit 2040 (unat b) XOR bytes_poly w)"
    using assms by (simp add: bytes_poly_Cons)
  then obtain r where r: "rolling_checksum s b c = Inr r" "reduced r (push_bit 8 (bytes_poly w) XOR unat c)"
    using rolling_checksum_correct by blast
  obtain q where q: "checksum (w @ [c]) = Inr q" "reduced q (bytes_poly (w @ [c]))"
    using checksum_reduced by blast
  have "r = q" using r(2) q(2) by (simp add: reduced_unique)
  with s(1) r(1) q(1) show ?thesis by simp
qed

theorem rolling_checksum_slides_witness:
  "length (map of_nat [0..<255] :: u8 list) = 255 \<and>
   bind_result (checksum (200 # map of_nat [0..<255])) (\<lambda>s. rolling_checksum s 200 7)
     = checksum (map of_nat [0..<255] @ [7])"
proof -
  have "length (map of_nat [0..<255] :: u8 list) = 255" by (simp del: upt_rec_numeral)
  then show ?thesis using rolling_checksum_slides by blast
qed

text \<open>
  C27. The checked table access is what bounds the fingerprints \<open>rolling_checksum\<close> accepts: it
  returns exactly for those below \<open>2 ^ 63\<close> (every value \<open>checksum\<close> can return) and throws
  \<open>std::out_of_range\<close> for every other 64-bit argument.
\<close>

theorem rolling_checksum_returns_iff:
  "(\<exists>r. rolling_checksum csum c1 c2 = Inr r) = (unat csum < 2 ^ 63)"
proof -
  obtain U where U: "calcU calcT = Inr U" "reduced (U ! unat c1) (push_bit 2040 (unat c1))"
    using calcU_correct by blast
  let ?x = "csum XOR U ! unat c1"
  have u: "\<not> bit (U ! unat c1) n" if "63 \<le> n" for n
    using U(2) that unfolding reduced_def unat_lt_iff_bits by blast
  have "unat csum < 2 ^ 63 \<longleftrightarrow> unat ?x < 2 ^ 63"
    unfolding unat_lt_iff_bits by (auto simp: bit_xor_iff u)
  also have "\<dots> \<longleftrightarrow> (\<exists>r. append8 ?x c2 calcT = Inr r)"
  proof
    assume "unat ?x < 2 ^ 63"
    then show "\<exists>r. append8 ?x c2 calcT = Inr r" using append8_correct by blast
  next
    assume "\<exists>r. append8 ?x c2 calcT = Inr r"
    then have "unat (drop_bit 55 ?x) < 2 ^ 8" by (auto simp: append8_def Let_def split: if_splits)
    then show "unat ?x < 2 ^ 63"
      by (simp only: unat_drop_bit table_index_bound)
  qed
  finally show ?thesis using U(1) by (simp add: rolling_checksum_def)
qed

end
