(* ===== verification/Base64.thy ===== *)
theory Base64
  imports P2P_Prelude
begin

text \<open>
  Base64 encoding and decoding, \<open>daemon/management_api/utils/base64_utils.cc\<close>. A
  \<open>std::string\<close> is a list of bytes; on the supported platforms \<open>char\<close> is signed, so \<open>encode\<close>
  computes its indices in 32-bit \<open>int\<close> from sign-extended bytes. Reading \<open>alphabet_map\<close> outside
  its 64 entries is \<open>OutOfBounds\<close>. \<open>decode\<close> casts to \<open>uint8_t\<close> first.
\<close>

section \<open>The code\<close>

definition alphabet_map :: "u8 list" where
  "alphabet_map =
     map of_char ''ABCDEFGHIJKLMNOPQRSTUVWXYZabcdefghijklmnopqrstuvwxyz0123456789+/''"

definition kDecodingTable :: "u8 list" where
  "kDecodingTable =
     replicate 43 64 @ [62, 64, 64, 64, 63] @ map of_nat [52..<62] @ replicate 7 64 @
     map of_nat [0..<26] @ replicate 6 64 @ map of_nat [26..<52] @ replicate 133 64"

definition alphabet_at :: "32 word \<Rightarrow> u8 result" where
  "alphabet_at i =
     (if 0 \<le> sint i \<and> sint i < 64 then Inr (alphabet_map ! nat (sint i)) else Inl OutOfBounds)"

text \<open>The four, three or two characters written for a group of three, two or one byte.\<close>

definition promote :: "u8 \<Rightarrow> 32 word" where
  "promote c = scast c"

definition put_chars :: "32 word list \<Rightarrow> u8 list \<Rightarrow> u8 list result \<Rightarrow> u8 list result" where
  "put_chars is suffix rest =
     foldr (\<lambda>i acc. bind_result (alphabet_at i) (\<lambda>c. bind_result acc (\<lambda>cs. Inr (c # cs))))
       is (bind_result rest (\<lambda>cs. Inr (suffix @ cs)))"

fun encode :: "u8 list \<Rightarrow> u8 list result" where
  "encode (a # b # c # text) =
     put_chars
       [signed_drop_bit 2 (promote a),
        (push_bit 4 (promote a) AND 0x30) OR signed_drop_bit 4 (promote b),
        (push_bit 2 (promote b) AND 0x3c) OR signed_drop_bit 6 (promote c),
        promote c AND 0x3f] [] (encode text)"
| "encode [a] =
     put_chars [signed_drop_bit 2 (promote a), push_bit 4 (promote a) AND 0x30]
       (map of_char ''=='') (Inr [])"
| "encode [a, b] =
     put_chars
       [signed_drop_bit 2 (promote a),
        (push_bit 4 (promote a) AND 0x30) OR signed_drop_bit 4 (promote b),
        push_bit 2 (promote b) AND 0x3c]
       (map of_char ''='') (Inr [])"
| "encode [] = Inr []"

definition decoding_at :: "u8 \<Rightarrow> u32" where
  "decoding_at c = ucast (kDecodingTable ! unat c)"

fun decode :: "u8 list \<Rightarrow> u8 list" where
  "decode (i0 # i1 # i2 # i3 # input) =
     (let c0 = decoding_at i0; c1 = decoding_at i1; c2 = decoding_at i2; c3 = decoding_at i3
      in [ucast (push_bit 2 c0 OR drop_bit 4 c1)]
         @ (if c2 \<noteq> 64 then [ucast (push_bit 4 (c1 AND 0x0f) OR drop_bit 2 c2)] else [])
         @ (if c3 \<noteq> 64 then [ucast (push_bit 6 (c2 AND 0x03) OR c3)] else [])
         @ decode input)"
| "decode _ = []"

section \<open>The alphabet and its inverse\<close>

lemma length_alphabet_map [simp]: "length alphabet_map = 64"
  by (simp add: alphabet_map_def)

lemma decoding_alphabet:
  assumes "s < (64 :: u8)"
  shows "decoding_at (alphabet_map ! unat s) = ucast s"
proof -
  have "list_all (\<lambda>i. decoding_at (alphabet_map ! i) = of_nat i) [0..<64]"
    by code_simp
  moreover have "unat s < 64" using assms by (simp add: word_less_nat_alt)
  ultimately have "decoding_at (alphabet_map ! unat s) = of_nat (unat s)"
    by (auto simp: list_all_iff simp del: upt_rec_numeral)
  then show ?thesis by simp
qed

lemma decoding_pad [simp]: "decoding_at 61 = 64"
  by code_simp

lemma sint_ucast_sextet: "s < 64 \<Longrightarrow> sint (ucast (s :: u8) :: 32 word) = uint s"
proof -
  assume "s < 64"
  then have *: "uint s < 64" "0 \<le> uint s" by (simp_all add: word_less_def)
  have "- (2 ^ 31) \<le> uint s" by (rule order_trans [OF _ *(2)]) simp
  moreover have "uint s < 2 ^ 31" using *(1) by simp
  moreover have "sint (ucast s :: 32 word) = signed_take_bit 31 (uint s)"
    by (simp add: signed_ucast_eq)
  ultimately show ?thesis by (simp add: signed_take_bit_int_eq_self)
qed

lemma alphabet_at_sextet: "s < 64 \<Longrightarrow> alphabet_at (ucast (s :: u8)) = Inr (alphabet_map ! unat s)"
proof -
  assume s: "s < 64"
  then have "uint s < 64" by (simp add: word_less_def)
  with s show ?thesis by (simp add: alphabet_at_def sint_ucast_sextet)
qed

lemma alphabet_at_negative: "bit (i :: 32 word) 31 \<Longrightarrow> alphabet_at i = Inl OutOfBounds"
  using bit_last_iff [of i] by (simp add: alphabet_at_def)

section \<open>Bytes below 128\<close>

definition ascii :: "u8 \<Rightarrow> bool" where
  "ascii b \<longleftrightarrow> \<not> bit b 7"

lemma sextet_lt: "(\<And>n. 6 \<le> n \<Longrightarrow> \<not> bit s n) \<Longrightarrow> s < (64 :: u8)"
  using unat_lt_iff_bits [of s 6] by (simp add: word_less_nat_alt)

lemma bit_promote: "bit (promote c) n \<longleftrightarrow> n < 32 \<and> bit c (min n 7)"
  by (auto simp: promote_def bit_signed_iff min.commute)

text \<open>The six-bit groups of three bytes.\<close>

definition sextet0 :: "u8 \<Rightarrow> u8" where "sextet0 a = drop_bit 2 a"
definition sextet1 :: "u8 \<Rightarrow> u8 \<Rightarrow> u8" where "sextet1 a b = push_bit 4 (take_bit 2 a) OR drop_bit 4 b"
definition sextet2 :: "u8 \<Rightarrow> u8 \<Rightarrow> u8" where "sextet2 b c = push_bit 2 (take_bit 4 b) OR drop_bit 6 c"
definition sextet3 :: "u8 \<Rightarrow> u8" where "sextet3 c = take_bit 6 c"

lemmas sextet_defs = sextet0_def sextet1_def sextet2_def sextet3_def

lemma sextet_range [simp]:
  "sextet0 a < 64" "sextet1 a b < 64" "sextet2 b c < 64" "sextet3 c < 64"
  by (rule sextet_lt, auto simp: sextet_defs bit_simps dest: bit_imp_le_length)+

lemma mask_words:
  "(0x30 :: 32 word) = push_bit 4 (mask 2)" "(0x3c :: 32 word) = push_bit 2 (mask 4)"
  "(0x3f :: 32 word) = mask 6" "(0x0f :: 32 word) = mask 4" "(0x03 :: 32 word) = mask 2"
  by (simp_all add: push_bit_eq_mult mask_eq_exp_minus_1)

lemma promote_ascii: "ascii c \<Longrightarrow> promote c = ucast c"
  by (rule bit_word_eqI)
    (auto simp: ascii_def bit_promote bit_simps min_def not_le dest: bit_imp_le_length)

lemma signed_drop_bit_byte: "signed_drop_bit m (ucast c :: 32 word) = ucast (drop_bit m (c :: u8))"
proof (rule bit_word_eqI)
  fix n assume "n < LENGTH(32)"
  moreover have "bit c (m + n) \<Longrightarrow> m + n < 8" by (drule bit_imp_le_length) simp
  moreover have "\<not> bit c 31" using bit_imp_le_length [of c 31] by auto
  ultimately show "bit (signed_drop_bit m (ucast c :: 32 word)) n = bit (ucast (drop_bit m c) :: 32 word) n"
    by (auto simp: bit_signed_drop_bit_iff bit_simps not_le)
qed

lemma masked_indices:
  "push_bit 4 (promote a) AND 0x30 = ucast (push_bit 4 (take_bit 2 a))"
  "push_bit 2 (promote b) AND 0x3c = ucast (push_bit 2 (take_bit 4 b))"
  "promote c AND 0x3f = ucast (take_bit 6 c)"
  unfolding mask_words
  by (rule bit_word_eqI, auto simp: bit_promote bit_simps min_def)+

lemma encode_indices:
  "ascii a \<Longrightarrow> signed_drop_bit 2 (promote a) = ucast (sextet0 a)"
  "ascii b \<Longrightarrow>
     (push_bit 4 (promote a) AND 0x30) OR signed_drop_bit 4 (promote b) = ucast (sextet1 a b)"
  "ascii c \<Longrightarrow>
     (push_bit 2 (promote b) AND 0x3c) OR signed_drop_bit 6 (promote c) = ucast (sextet2 b c)"
  "promote c AND 0x3f = ucast (sextet3 c)"
  "push_bit 4 (promote a) AND 0x30 = ucast (sextet1 a 0)"
  "push_bit 2 (promote b) AND 0x3c = ucast (sextet2 b 0)"
  by (simp_all add: masked_indices promote_ascii signed_drop_bit_byte sextet_defs
      flip: unsigned_or_eq)

lemma encode_negative:
  "\<not> ascii a \<Longrightarrow> alphabet_at (signed_drop_bit 2 (promote a)) = Inl OutOfBounds"
  "\<not> ascii b \<Longrightarrow>
     alphabet_at ((push_bit 4 (promote a) AND 0x30) OR signed_drop_bit 4 (promote b)) = Inl OutOfBounds"
  "\<not> ascii c \<Longrightarrow>
     alphabet_at ((push_bit 2 (promote b) AND 0x3c) OR signed_drop_bit 6 (promote c)) = Inl OutOfBounds"
  by (auto intro!: alphabet_at_negative simp: ascii_def bit_simps bit_promote)

section \<open>Round trip\<close>

lemma put_chars_sextets:
  "list_all (\<lambda>s. s < 64) ss \<Longrightarrow>
     put_chars (map ucast ss) suffix rest =
       bind_result rest (\<lambda>cs. Inr (map (\<lambda>s. alphabet_map ! unat s) (ss :: u8 list) @ suffix @ cs))"
  by (cases rest; induction ss) (auto simp: put_chars_def alphabet_at_sextet)


lemma byte_eqI:
  fixes a b :: u8
  assumes "bit a 0 = bit b 0" "bit a 1 = bit b 1" "bit a 2 = bit b 2" "bit a 3 = bit b 3"
    "bit a 4 = bit b 4" "bit a 5 = bit b 5" "bit a 6 = bit b 6" "bit a 7 = bit b 7"
  shows "a = b"
proof (rule bit_word_eqI)
  fix n assume "n < LENGTH(8)"
  then consider "n = 0" | "n = 1" | "n = 2" | "n = 3" | "n = 4" | "n = 5" | "n = 6" | "n = 7"
    by fastforce
  then show "bit a n = bit b n" by cases (use assms in auto)
qed

lemma byte_high: "8 \<le> n \<Longrightarrow> \<not> bit (a :: u8) n"
  by (auto dest: bit_imp_le_length)

lemma reassemble:
  "ucast (push_bit 2 (ucast (sextet0 a)) OR drop_bit 4 (ucast (sextet1 a b)) :: u32) = a"
  "ucast (push_bit 4 (ucast (sextet1 a b) AND 0x0f) OR drop_bit 2 (ucast (sextet2 b c)) :: u32) = b"
  "ucast (push_bit 6 (ucast (sextet2 b c) AND 0x03) OR ucast (sextet3 c) :: u32) = c"
  unfolding mask_words sextet_defs
  by (rule byte_eqI; simp add: bit_simps byte_high)+

lemma sextet_not_pad: "s < 64 \<Longrightarrow> (ucast (s :: u8) :: u32) \<noteq> 64"
proof
  assume "s < 64" and "(ucast s :: u32) = 64"
  then have "unat s < 64" and "unat (ucast s :: u32) = 64" by (simp_all add: word_less_nat_alt)
  then show False by (simp add: unsigned_ucast_eq take_bit_nat_eq_self)
qed

abbreviation letter :: "u8 \<Rightarrow> u8" where
  "letter s \<equiv> alphabet_map ! unat s"

lemma encode_ascii:
  "ascii a \<Longrightarrow> ascii b \<Longrightarrow> ascii c \<Longrightarrow> encode (a # b # c # rest) =
     bind_result (encode rest) (\<lambda>cs. Inr
       ([letter (sextet0 a), letter (sextet1 a b), letter (sextet2 b c), letter (sextet3 c)] @ cs))"
  "ascii a \<Longrightarrow> encode [a] = Inr [letter (sextet0 a), letter (sextet1 a 0), 61, 61]"
  "ascii a \<Longrightarrow> ascii b \<Longrightarrow>
     encode [a, b] = Inr [letter (sextet0 a), letter (sextet1 a b), letter (sextet2 b 0), 61]"
  using put_chars_sextets [of "[sextet0 a, sextet1 a b, sextet2 b c, sextet3 c]"]
    put_chars_sextets [of "[sextet0 a, sextet1 a b, sextet2 b 0]"]
    put_chars_sextets [of "[sextet0 a, sextet1 a 0]"]
  by (simp_all add: encode_indices(1-4) encode_indices(5,6) [symmetric])

lemma groups_Suc: "(5 + n) div 3 = Suc (Suc (Suc n) div (3 :: nat))"
  by linarith

lemmas decoding_step = decoding_alphabet sextet_not_pad reassemble [simplified] groups_Suc

text \<open>
  \<open>encode\<close> succeeds exactly on text of bytes below 128, and then decoding gives the text back;
  on any other text its first table access out of range is reported.
\<close>

definition encode_correct :: "u8 list \<Rightarrow> u8 list result \<Rightarrow> bool" where
  "encode_correct text r =
     (case r of
        Inr s \<Rightarrow> list_all ascii text \<and> decode s = text \<and> length s = 4 * ((length text + 2) div 3)
      | Inl e \<Rightarrow> e = OutOfBounds \<and> \<not> list_all ascii text)"

lemma put_chars_Inl:
  "alphabet_at i = Inl OutOfBounds \<Longrightarrow> list_all (\<lambda>s. s < 64) ss \<Longrightarrow>
     put_chars (map ucast (ss :: u8 list) @ i # js) suffix rest = Inl OutOfBounds"
  by (induction ss) (auto simp: put_chars_def alphabet_at_sextet)

lemma encode_not_ascii:
  "\<not> ascii a \<or> \<not> ascii b \<or> \<not> ascii c \<Longrightarrow> encode (a # b # c # rest) = Inl OutOfBounds"
  "\<not> ascii a \<Longrightarrow> encode [a] = Inl OutOfBounds"
  "\<not> ascii a \<or> \<not> ascii b \<Longrightarrow> encode [a, b] = Inl OutOfBounds"
  using put_chars_Inl [of _ "[]"] put_chars_Inl [of _ "[sextet0 a]"]
    put_chars_Inl [of _ "[sextet0 a, sextet1 a b]"]
  by (cases "ascii a"; cases "ascii b"; simp add: encode_negative encode_indices(1-3))+

lemma encode_correct_holds: "encode_correct t (encode t)"
proof (induction t rule: encode.induct)
  case (1 a b c t)
  show ?case
  proof (cases "ascii a \<and> ascii b \<and> ascii c")
    case True
    with 1 show ?thesis
      by (cases "encode t") (auto simp: encode_correct_def encode_ascii decoding_step Let_def
          simp del: encode.simps)
  next
    case False
    then show ?thesis by (auto simp: encode_correct_def encode_not_ascii simp del: encode.simps)
  qed
next
  case (2 a)
  show ?case
    by (cases "ascii a")
      (simp_all add: encode_correct_def encode_not_ascii encode_ascii decoding_step Let_def
        del: encode.simps)
next
  case (3 a b)
  show ?case
    by (cases "ascii a"; cases "ascii b")
      (simp_all add: encode_correct_def encode_not_ascii encode_ascii decoding_step Let_def
        del: encode.simps)
qed (simp add: encode_correct_def)

text \<open>
  C20. Base64 round trip: \<open>encode\<close> succeeds exactly on text whose bytes are all
  below 128; then \<open>decode\<close> gives the text back and the length is four characters
  for every three bytes begun. On any other text a sign-extended byte indexes
  \<open>alphabet_map\<close> outside its 64 entries.
\<close>

theorem base64_round_trip:
  "case encode text of
     Inr s \<Rightarrow> list_all ascii text \<and> decode s = text \<and> length s = 4 * ((length text + 2) div 3)
   | Inl e \<Rightarrow> e = OutOfBounds \<and> \<not> list_all ascii text"
  using encode_correct_holds [of "text"] by (simp add: encode_correct_def)

end
