(* ===== verification/Command_Parser.thy ===== *)
theory Command_Parser
  imports P2P_Prelude
begin

text \<open>
  The command line parser of the management interface: \<open>daemon/utils/status.h\<close> and
  \<open>daemon/interface/utils/command_parser.cc\<close>. The argument loop of \<open>parse_command\<close> need not
  end, so it is a partial function whose value \<open>None\<close> means that the call does not return.
  Reference definitions (\<open>split_words\<close>, \<open>join_words\<close>, \<open>args_spec\<close>) describe what it computes.
\<close>

section \<open>The code\<close>

subsection \<open>Status values\<close>

type_synonym StatusCode = u8

definition OK :: StatusCode where "OK = 1"
definition NOT_FOUND :: StatusCode where "NOT_FOUND = 2"
definition INTERNAL :: StatusCode where "INTERNAL = 2"
definition UNAVAILABLE :: StatusCode where "UNAVAILABLE = 3"
definition INVALID_ARGUMENT :: StatusCode where "INVALID_ARGUMENT = 4"

lemmas status_codes = OK_def NOT_FOUND_def INTERNAL_def UNAVAILABLE_def INVALID_ARGUMENT_def

record Status =
  status_msg :: string
  status_code :: StatusCode

definition mk_Status :: "StatusCode \<Rightarrow> string \<Rightarrow> Status" where
  "mk_Status code msg = \<lparr>status_msg = msg, status_code = code\<rparr>"

definition Status_code_only :: "StatusCode \<Rightarrow> Status" where
  "Status_code_only code = mk_Status code ''No message Provided''"

definition Status_Code :: "Status \<Rightarrow> StatusCode" where
  "Status_Code s = status_code s"

definition Status_message :: "Status \<Rightarrow> string" where
  "Status_message s = status_msg s"

definition Status_ok :: "Status \<Rightarrow> bool" where
  "Status_ok s \<longleftrightarrow> status_code s = OK"

definition Status_OK :: Status where
  "Status_OK = mk_Status OK ''Return Ok without error!''"

subsection \<open>Parsing\<close>

type_synonym ParsedCommand = "string \<times> string list"

definition quote :: char where "quote = CHR 0x22"
definition newline :: char where "newline = CHR 0x0A"

text \<open>\<open>std::string(n, c)\<close>, which throws beyond \<open>max_size()\<close>.\<close>

definition string_fill :: "u64 \<Rightarrow> char \<Rightarrow> string result" where
  "string_fill n c = (if unat n \<le> 2 ^ 63 - 1 then Inr (replicate (unat n) c) else Inl LengthError)"

definition generate_nice_error_msg :: "string \<Rightarrow> u64 \<Rightarrow> string \<Rightarrow> string result" where
  "generate_nice_error_msg error_msg error_loc command =
     (let len = of_nat (length command) :: u64;
          (final_error_loc, final_command) =
            (if len \<ge> 80 then
               (if error_loc < 77 then (error_loc, take 77 command @ ''...'')
                else if len - error_loc < 77
                then (error_loc - len - 77, drop (length command - 77) command)
                else (0, []))
             else (error_loc, command))
      in bind_result (string_fill (final_error_loc - 1) (CHR '' '')) (\<lambda>pad. Inr
           (CHR 0x1B # ''[47;31mError:'' @ error_msg @ CHR 0x1B # ''[0m'' @ [newline] @
            final_command @ [newline] @ pad @ ''^'' @ [newline])))"

definition trim_input :: "string \<Rightarrow> string" where
  "trim_input input_command =
     (let input = (case find_first_not_of (CHR '' '') input_command of
                     None \<Rightarrow> [] | Some i \<Rightarrow> drop i input_command);
          input = take (case find_last_not_of (CHR '' '') input of None \<Rightarrow> 0 | Some i \<Rightarrow> Suc i) input
      in take (case find_last_not_of newline input of None \<Rightarrow> 0 | Some i \<Rightarrow> Suc i) input)"

text \<open>The loop over the arguments: an error status, or the arguments.\<close>

partial_function (option) args_loop ::
    "string \<Rightarrow> string list \<Rightarrow> (Status + string list) result option" where
  "args_loop input result =
     (case find_char (CHR '' '') input of
        None \<Rightarrow> Some (Inr (Inr (result @ [input])))
      | Some current \<Rightarrow>
          (if input ! 0 = quote
           then (case find_char_from quote (current + 1) input of
                   None \<Rightarrow> Some (bind_result
                     (generate_nice_error_msg ''could not found pair of double quotes''
                        (of_nat current) input)
                     (\<lambda>m. Inr (Inl (mk_Status INVALID_ARGUMENT m))))
                 | Some closing \<Rightarrow> args_loop input (result @ [take closing (drop current input)]))
           else args_loop (drop (current + 1) input) (result @ [take current input])))"

definition parse_command :: "string \<Rightarrow> ParsedCommand \<Rightarrow> (Status \<times> ParsedCommand) result option" where
  "parse_command input_command parsed_command =
     (let input = trim_input input_command
      in if length input = 0
         then Some (Inr (mk_Status INVALID_ARGUMENT ''command must be not empty'', parsed_command))
         else case find_char (CHR '' '') input of
                None \<Rightarrow> Some (Inr (Status_OK, (input, [])))
              | Some current \<Rightarrow>
                  map_option (\<lambda>r. bind_result r (\<lambda>outcome. Inr (case outcome of
                      Inl status \<Rightarrow> (status, parsed_command)
                    | Inr result \<Rightarrow> (Status_OK, (take current input, result)))))
                    (args_loop (drop (current + 1) input) []))"

section \<open>Reference definitions\<close>

fun split_words :: "string \<Rightarrow> string list" where
  "split_words [] = [[]]"
| "split_words (c # cs) =
     (if c = CHR '' '' then [] # split_words cs
      else (c # hd (split_words cs)) # tl (split_words cs))"

fun join_words :: "string list \<Rightarrow> string" where
  "join_words [] = []"
| "join_words [w] = w"
| "join_words (w # ws) = w @ CHR '' '' # join_words ws"

definition is_word :: "string \<Rightarrow> bool" where
  "is_word w \<longleftrightarrow> CHR '' '' \<notin> set w"

definition opens_quote :: "string \<Rightarrow> bool" where
  "opens_quote w \<longleftrightarrow> w \<noteq> [] \<and> hd w = quote"

text \<open>
  What the argument loop does with its words: it returns them all, or it stops at the first word,
  not the last one, that opens a quote. There it reports an error when no quote follows in the
  later words and never returns when one does.
\<close>

datatype args_outcome = Arguments "string list" | Unpaired "string list" | Diverges

fun prepend_arg :: "string \<Rightarrow> args_outcome \<Rightarrow> args_outcome" where
  "prepend_arg w (Arguments ws) = Arguments (w # ws)"
| "prepend_arg w other = other"

fun args_spec :: "string list \<Rightarrow> args_outcome" where
  "args_spec [] = Arguments []"
| "args_spec [w] = Arguments [w]"
| "args_spec (w # ws) =
     (if opens_quote w
      then (if list_ex (\<lambda>v. quote \<in> set v) ws then Diverges else Unpaired (w # ws))
      else prepend_arg w (args_spec ws))"

section \<open>Lemmas\<close>

lemma split_words_Cons [simp]: "split_words s \<noteq> []"
  by (cases s) auto

lemma join_split [simp]: "join_words (split_words s) = s"
proof (induction s)
  case (Cons c s)
  then show ?case by (cases "split_words s" rule: join_words.cases) auto
qed simp

lemma split_words_are_words: "list_all is_word (split_words s)"
proof (induction s)
  case (Cons c s)
  then show ?case by (cases "split_words s") (auto simp: is_word_def)
qed (simp add: is_word_def)

lemma split_join: "list_all is_word ws \<Longrightarrow> ws \<noteq> [] \<Longrightarrow> split_words (join_words ws) = ws"
proof (induction ws rule: join_words.induct)
  case (2 w)
  then show ?case by (induction w) (auto simp: is_word_def)
next
  case (3 w v ws)
  then have "split_words (join_words (v # ws)) = v # ws" by simp
  moreover have "is_word w" using 3 by simp
  ultimately show ?case by (induction w) (auto simp: is_word_def)
qed simp

lemma find_space_word: "is_word w \<Longrightarrow> find_char (CHR '' '') w = None"
  by (simp add: is_word_def find_char_None)

lemma find_space_join:
  "is_word w \<Longrightarrow> find_char (CHR '' '') (w @ CHR '' '' # s) = Some (length w)"
  by (simp add: is_word_def find_char_append)

lemma set_join_words: "c \<noteq> CHR '' '' \<Longrightarrow> c \<in> set (join_words ws) \<longleftrightarrow> list_ex (\<lambda>v. c \<in> set v) ws"
  by (induction ws rule: join_words.induct) auto

lemma quote_not_space [simp]: "quote \<noteq> CHR '' ''" "CHR '' '' \<noteq> quote"
  by (simp_all add: quote_def)

lemma trim_input_strip:
  "trim_input s =
     rev (dropWhile ((=) newline) (rev (rev (dropWhile ((=) (CHR '' ''))
       (rev (dropWhile ((=) (CHR '' '')) s))))))"
proof -
  have lead: "(case find_first_not_of (CHR '' '') s of None \<Rightarrow> [] | Some i \<Rightarrow> drop i s) =
      dropWhile (\<lambda>x. x = CHR '' '') s"
    using find_first_not_of_dropWhile [where c = "CHR '' ''" and s = s] by (auto split: option.splits)
  have eq: "(\<lambda>x. x = c) = (=) c" for c :: char by auto
  show ?thesis unfolding trim_input_def lead Let_def find_last_not_of_trim eq ..
qed

text \<open>A quoted word whose closing quote is found leaves the loop where it was.\<close>

definition quote_pending :: "string \<Rightarrow> bool" where
  "quote_pending input \<longleftrightarrow>
     (\<exists>current closing. find_char (CHR '' '') input = Some current \<and> input ! 0 = quote \<and>
        find_char_from quote (current + 1) input = Some closing)"

lemma args_loop_stuck: "quote_pending input \<Longrightarrow> args_loop input result = None"
proof (rule ccontr)
  assume pending: "quote_pending input" and "args_loop input result \<noteq> None"
  then obtain r where "args_loop input result = Some r" by blast
  then have "\<not> quote_pending input"
    by (rule args_loop.raw_induct [rotated]) (auto simp: quote_pending_def split: option.splits if_splits)
  with pending show False by contradiction
qed

definition loop_result :: "string list \<Rightarrow> args_outcome \<Rightarrow> (Status + string list) result option" where
  "loop_result result outcome =
     (case outcome of
        Arguments args \<Rightarrow> Some (Inr (Inr (result @ args)))
      | Unpaired ws \<Rightarrow> Some (bind_result
          (generate_nice_error_msg ''could not found pair of double quotes''
             (of_nat (length (hd ws))) (join_words ws))
          (\<lambda>m. Inr (Inl (mk_Status INVALID_ARGUMENT m))))
      | Diverges \<Rightarrow> None)"

lemma loop_result_prepend:
  "loop_result result (prepend_arg w outcome) = loop_result (result @ [w]) outcome"
  by (cases outcome) (simp_all add: loop_result_def)

lemma opens_quote_nth: "is_word w \<Longrightarrow> (w @ CHR '' '' # s) ! 0 = quote \<longleftrightarrow> opens_quote w"
  by (cases w) (auto simp: opens_quote_def)

lemma find_quote_after:
  "find_char_from quote (Suc (length w)) (w @ CHR '' '' # s) =
     map_option (\<lambda>i. Suc (length w) + i) (find_char quote s)"
  by (simp add: find_char_from_def)

lemma args_loop_spec:
  "list_all is_word ws \<Longrightarrow> ws \<noteq> [] \<Longrightarrow>
     args_loop (join_words ws) result = loop_result result (args_spec ws)"
proof (induction ws arbitrary: result rule: args_spec.induct)
  case (2 w)
  then show ?case by (simp add: args_loop.simps find_space_word loop_result_def)
next
  case (3 w v ws)
  let ?s = "join_words (v # ws)"
  have w: "is_word w" and vs: "list_all is_word (v # ws)" using 3 by auto
  note space = find_space_join [OF w, of ?s]
  show ?case
  proof (cases "opens_quote w")
    case False
    with 3 vs w show ?thesis
      by (subst args_loop.simps) (simp add: space opens_quote_nth loop_result_prepend)
  next
    case True
    show ?thesis
    proof (cases "find_char quote ?s")
      case None
      moreover from None have "\<not> list_ex (\<lambda>x. quote \<in> set x) (v # ws)"
        using find_char_None [of quote ?s] set_join_words [of quote "v # ws"] by auto
      ultimately show ?thesis using True w
        by (subst args_loop.simps)
          (simp add: space opens_quote_nth find_quote_after loop_result_def)
    next
      case (Some i)
      then have "quote_pending (w @ CHR '' '' # ?s)"
        using True w by (simp add: quote_pending_def space opens_quote_nth find_quote_after)
      moreover have "list_ex (\<lambda>x. quote \<in> set x) (v # ws)"
        using Some find_char_None [of quote ?s] set_join_words [of quote "v # ws"] by auto
      ultimately show ?thesis using True
        by (simp add: args_loop_stuck loop_result_def)
    qed
  qed
qed simp


section \<open>The error message\<close>

definition caret_fits :: "string list \<Rightarrow> bool" where
  "caret_fits ws \<longleftrightarrow> length (join_words ws) < 80 \<or> length (hd ws) < 77"

text \<open>
  The position of the first space of a quoted word is at least one and below the length, so the
  caret line exists unless the command has eighty characters and the space is not among its
  first 77; in that case the padding length wraps around and \<open>std::string\<close> throws.
\<close>

definition caret_message :: "string \<Rightarrow> nat \<Rightarrow> string \<Rightarrow> string" where
  "caret_message e loc command =
     CHR 0x1B # ''[47;31mError:'' @ e @ CHR 0x1B # ''[0m'' @ [newline] @
     (if length command < 80 then command else take 77 command @ ''...'') @ [newline] @
     replicate (loc - 1) (CHR '' '') @ ''^'' @ [newline]"

lemma nice_error_msg_caret:
  assumes len: "length command < 2 ^ 63" and loc: "0 < loc" "loc < length command"
  shows "generate_nice_error_msg e (of_nat loc) command =
     (if length command < 80 \<or> loc < 77
      then Inr (caret_message e loc command)
      else Inl LengthError)"
proof -
  let ?n = "length command"
  have unat: "unat (of_nat ?n :: u64) = ?n" "unat (of_nat loc :: u64) = loc"
    using assms by (simp_all add: unat_of_nat take_bit_nat_eq_self)
  have big: "80 \<le> (of_nat ?n :: u64) \<longleftrightarrow> 80 \<le> ?n" and near: "(of_nat loc :: u64) < 77 \<longleftrightarrow> loc < 77"
    by (simp_all add: word_le_nat_alt word_less_nat_alt unat)
  have pred: "unat (of_nat loc - 1 :: u64) = loc - 1"
    using loc(1) unat(2) by (simp add: unat_sub_if')
  have dist: "unat (of_nat ?n - of_nat loc :: u64) = ?n - loc"
    using loc(2) unat by (simp add: unat_sub_if')
  have wrap: "2 ^ 63 \<le> unat (of_nat loc - of_nat ?n - 77 - 1 :: u64)" if "?n - loc < 77"
    using that loc unat by (simp add: unat_sub_if') linarith
  have zero: "unat (0 - 1 :: u64) = 2 ^ 64 - 1"
    by (simp add: unsigned_minus_1_eq_mask mask_eq_exp_minus_1)
  consider "?n < 80" | "80 \<le> ?n" "loc < 77" | "80 \<le> ?n" "\<not> loc < 77" "?n - loc < 77"
    | "80 \<le> ?n" "\<not> loc < 77" "\<not> ?n - loc < 77" by linarith
  then show ?thesis
  proof cases
    case 3
    then have "(of_nat ?n - of_nat loc :: u64) < 77" using dist by (simp add: word_less_nat_alt)
    moreover have "\<not> unat (of_nat loc - of_nat ?n - 77 - 1 :: u64) \<le> 2 ^ 63 - 1"
      using wrap [OF 3(3)] by simp
    ultimately show ?thesis using 3
      by (simp add: generate_nice_error_msg_def big near string_fill_def Let_def)
  next
    case 4
    then have "\<not> (of_nat ?n - of_nat loc :: u64) < 77" using dist by (simp add: word_less_nat_alt)
    with 4 show ?thesis using zero
      by (simp add: generate_nice_error_msg_def big near string_fill_def Let_def)
  qed (use len loc in \<open>simp_all add: generate_nice_error_msg_def caret_message_def big near pred
      string_fill_def Let_def\<close>)
qed

section \<open>What \<open>parse_command\<close> computes\<close>

lemma split_words_space:
  "find_char (CHR '' '') s = Some i \<Longrightarrow>
     split_words s = take i s # split_words (drop (Suc i) s)"
proof (induction s arbitrary: i)
  case (Cons c s)
  then show ?case by (cases i) (auto split: if_splits)
qed simp

lemma split_words_no_space: "find_char (CHR '' '') s = None \<Longrightarrow> split_words s = [s]"
  by (induction s) (auto split: if_splits)

definition parse_spec :: "string \<Rightarrow> ParsedCommand \<Rightarrow> (Status \<times> ParsedCommand) result option" where
  "parse_spec input_command out =
     (case split_words (trim_input input_command) of
        command # args \<Rightarrow>
          (if trim_input input_command = []
           then Some (Inr (mk_Status INVALID_ARGUMENT ''command must be not empty'', out))
           else case args_spec args of
                  Arguments as \<Rightarrow> Some (Inr (Status_OK, (command, as)))
                | Unpaired ws \<Rightarrow> Some (bind_result
                    (generate_nice_error_msg ''could not found pair of double quotes''
                       (of_nat (length (hd ws))) (join_words ws))
                    (\<lambda>m. Inr (mk_Status INVALID_ARGUMENT m, out)))
                | Diverges \<Rightarrow> None)
      | [] \<Rightarrow> None)"

lemma args_spec_plain:
  "list_all (\<lambda>w. \<not> opens_quote w) (butlast ws) \<Longrightarrow> args_spec ws = Arguments ws"
  by (induction ws rule: args_spec.induct) auto

lemma dropWhile_hd_id: "s = [] \<or> hd s \<noteq> c \<Longrightarrow> dropWhile ((=) c) s = s"
  by (cases s) auto

lemma trim_input_id:
  "s \<noteq> [] \<Longrightarrow> hd s \<noteq> CHR '' '' \<Longrightarrow> last s \<noteq> CHR '' '' \<Longrightarrow> last s \<noteq> newline \<Longrightarrow>
     trim_input s = s"
  by (simp add: trim_input_strip dropWhile_hd_id hd_rev)

text \<open>A command line that survives trimming: words separated by single spaces.\<close>

definition command_line :: "string list \<Rightarrow> bool" where
  "command_line ws \<longleftrightarrow>
     ws \<noteq> [] \<and> list_all is_word ws \<and> hd ws \<noteq> [] \<and> last ws \<noteq> [] \<and> last (last ws) \<noteq> newline"

lemma last_join_words: "ws \<noteq> [] \<Longrightarrow> last ws \<noteq> [] \<Longrightarrow>
    join_words ws \<noteq> [] \<and> last (join_words ws) = last (last ws)"
  by (induction ws rule: join_words.induct) auto

lemma hd_join_words: "ws \<noteq> [] \<Longrightarrow> hd ws \<noteq> [] \<Longrightarrow> hd (join_words ws) = hd (hd ws)"
  by (cases ws rule: join_words.cases) auto

lemma word_ends: "is_word w \<Longrightarrow> w \<noteq> [] \<Longrightarrow> hd w \<noteq> CHR '' '' \<and> last w \<noteq> CHR '' ''"
  unfolding is_word_def by (metis hd_in_set last_in_set)

lemma trim_command_line: "command_line ws \<Longrightarrow> trim_input (join_words ws) = join_words ws"
  by (rule trim_input_id)
    (auto simp: command_line_def last_join_words hd_join_words list_all_iff word_ends)

lemma parse_spec_command_line:
  "command_line (command # args) \<Longrightarrow>
     parse_spec (join_words (command # args)) out =
       (case args_spec args of
          Arguments as \<Rightarrow> Some (Inr (Status_OK, (command, as)))
        | Unpaired ws \<Rightarrow> Some (bind_result
            (generate_nice_error_msg ''could not found pair of double quotes''
               (of_nat (length (hd ws))) (join_words ws))
            (\<lambda>m. Inr (mk_Status INVALID_ARGUMENT m, out)))
        | Diverges \<Rightarrow> None)"
  using last_join_words [of "command # args"] split_join [of "command # args"]
  by (simp add: parse_spec_def trim_command_line command_line_def)

lemma parse_command_is_spec: "parse_command s out = parse_spec s out"
proof (cases "find_char (CHR '' '') (trim_input s)")
  case None
  then show ?thesis
    by (auto simp: parse_command_def parse_spec_def split_words_no_space Let_def)
next
  case (Some i)
  let ?rest = "drop (Suc i) (trim_input s)"
  have "args_loop ?rest [] = loop_result [] (args_spec (split_words ?rest))"
    using args_loop_spec [OF split_words_are_words split_words_Cons, of ?rest "[]"] by simp
  moreover have "trim_input s \<noteq> []" using Some by auto
  ultimately show ?thesis using Some
    by (cases "args_spec (split_words ?rest)")
      (simp_all add: parse_command_def parse_spec_def split_words_space loop_result_def
        bind_result_assoc)
qed

text \<open>
  C17. \<open>parse_command\<close> computes its reference definition on every input: it splits
  the trimmed line at single spaces into the command and its arguments, reports an empty line,
  and stops at the first argument, other than the last, that opens a double quote, with an error
  when no later quote exists and without ever returning when one does.
\<close>

theorem parse_command_spec: "parse_command s out = parse_spec s out"
  by (rule parse_command_is_spec)

text \<open>Parsing inverts joining: a command and arguments without spaces, joined by single spaces,
  none but perhaps the last opening a quote, parse back to exactly that command and those
  arguments with status OK.
\<close>

theorem parse_command_round_trip:
  assumes "command_line (command # args)"
    and "list_all (\<lambda>w. \<not> opens_quote w) (butlast args)"
  shows "parse_command (join_words (command # args)) out = Some (Inr (Status_OK, (command, args)))"
  using assms by (simp add: parse_command_is_spec parse_spec_command_line args_spec_plain
      del: join_words.simps)

theorem parse_command_round_trip_witness:
  "parse_command ''USER LOGIN admin@example.com admin'' ([], []) =
     Some (Inr (Status_OK, (''USER'', [''LOGIN'', ''admin@example.com'', ''admin''])))"
  using parse_command_round_trip [of "''USER''" "[''LOGIN'', ''admin@example.com'', ''admin'']" "([], [])"]
  by (simp add: command_line_def is_word_def opens_quote_def newline_def quote_def)

lemma args_spec_quote:
  "list_all (\<lambda>w. \<not> opens_quote w) before \<Longrightarrow> opens_quote w \<Longrightarrow> rest \<noteq> [] \<Longrightarrow>
     args_spec (before @ w # rest) =
       (if list_ex (\<lambda>v. quote \<in> set v) rest then Diverges else Unpaired (w # rest))"
proof (induction before)
  case Nil
  then show ?case by (cases rest) auto
next
  case (Cons b before)
  then show ?case by (cases "before @ w # rest") auto
qed

text \<open>A quoted argument that is not the last word is never parsed: if a quote occurs in a later
  word the call does not return, otherwise the caller gets INVALID_ARGUMENT with the caret
  message and an unchanged output argument, or, when the rest of the line has 80 characters or
  more and the quoted word 77 or more, \<open>std::length_error\<close> from the wrapped-around
  padding length.
\<close>

theorem parse_command_quoted_argument:
  assumes line: "command_line (command # before @ w # rest)"
    and quoted: "list_all (\<lambda>v. \<not> opens_quote v) before" "opens_quote w" "rest \<noteq> []"
    and size: "length (join_words (w # rest)) < 2 ^ 63"
  shows "parse_command (join_words (command # before @ w # rest)) out =
     (if list_ex (\<lambda>v. quote \<in> set v) rest then None
      else if caret_fits (w # rest)
      then Some (Inr (mk_Status INVALID_ARGUMENT
        (caret_message ''could not found pair of double quotes'' (length w) (join_words (w # rest))),
        out))
      else Some (Inl LengthError))"
proof -
  have loc: "0 < length w" "length w < length (join_words (w # rest))"
    using quoted by (cases rest; auto simp: opens_quote_def)+
  show ?thesis
    using nice_error_msg_caret [OF size loc] quoted
    by (auto simp: parse_command_is_spec parse_spec_command_line [OF line] args_spec_quote
        caret_fits_def simp del: join_words.simps)
qed

theorem parse_command_quoted_argument_witness:
  "parse_command (join_words [''command'', quote # ''quoted'', ''argument'' @ [quote]]) ([], []) = None"
  using parse_command_quoted_argument
    [of "''command''" "[]" "quote # ''quoted''" "[''argument'' @ [quote]]" "([], [])"]
  by (simp add: command_line_def is_word_def newline_def quote_def opens_quote_def)

end
