(* ===== verification/Decimal.thy ===== *)
theory Decimal
  imports P2P_Prelude
begin

text \<open>
  Decimal numerals as the C++ library reads and prints them: \<open>std::stoi\<close>, and \<open>operator<<\<close> for
  unsigned integers; and the regular expressions of \<open>std::regex_match\<close>, as a matcher by
  derivatives together with the language it decides.
\<close>

section \<open>Digits\<close>

definition digit_value :: "char \<Rightarrow> nat" where
  "digit_value c = of_char c - 48"

definition is_digit :: "char \<Rightarrow> bool" where
  "is_digit c \<longleftrightarrow> 48 \<le> (of_char c :: nat) \<and> (of_char c :: nat) \<le> 57"

definition digit :: "nat \<Rightarrow> char" where
  "digit n = char_of (48 + n)"

definition decimal_value :: "string \<Rightarrow> nat" where
  "decimal_value s = foldl (\<lambda>acc c. acc * 10 + digit_value c) 0 s"

fun show_nat :: "nat \<Rightarrow> string" where
  "show_nat n = (if n < 10 then [digit n] else show_nat (n div 10) @ [digit (n mod 10)])"

declare show_nat.simps [simp del]

lemma of_char_digit: "n < 10 \<Longrightarrow> (of_char (digit n) :: nat) = 48 + n"
  by (simp add: digit_def)

lemma digit_simps [simp]:
  "n < 10 \<Longrightarrow> is_digit (digit n)" "n < 10 \<Longrightarrow> digit_value (digit n) = n"
  by (simp_all add: is_digit_def digit_value_def of_char_digit)

lemma digit_zero: "digit 0 = CHR ''0''"
  by code_simp

lemma digit_of_value: "is_digit c \<Longrightarrow> digit (digit_value c) = c"
  by (simp add: digit_def digit_value_def is_digit_def)

lemma digit_value_bound: "is_digit c \<Longrightarrow> digit_value c < 10"
  unfolding is_digit_def digit_value_def by linarith

lemma decimal_value_Nil [simp]: "decimal_value [] = 0"
  by (simp add: decimal_value_def)

lemma decimal_value_snoc [simp]: "decimal_value (s @ [c]) = decimal_value s * 10 + digit_value c"
  by (simp add: decimal_value_def)

lemma show_nat_digits: "list_all is_digit (show_nat n) \<and> show_nat n \<noteq> []"
  by (induction n rule: show_nat.induct) (subst show_nat.simps, subst (2) show_nat.simps, auto)

lemma decimal_value_show [simp]: "decimal_value (show_nat n) = n"
proof (induction n rule: show_nat.induct)
  case (1 n)
  show ?case
  proof (cases "n < 10")
    case True
    then show ?thesis using decimal_value_snoc [of "[]"] by (simp add: show_nat.simps)
  next
    case False
    with 1 show ?thesis by (subst show_nat.simps) simp
  qed
qed

text \<open>A numeral without a leading zero is the one that is printed for its value.\<close>

definition canonical :: "string \<Rightarrow> bool" where
  "canonical s \<longleftrightarrow> s \<noteq> [] \<and> list_all is_digit s \<and> (length s > 1 \<longrightarrow> hd s \<noteq> digit 0)"

lemma decimal_value_pos: "list_all is_digit s \<Longrightarrow> s \<noteq> [] \<Longrightarrow> hd s \<noteq> digit 0 \<Longrightarrow> 0 < decimal_value s"
proof (induction s rule: rev_induct)
  case (snoc c s)
  show ?case
  proof (cases s)
    case Nil
    with snoc.prems digit_of_value [of c] decimal_value_snoc [of "[]" c] show ?thesis
      by (cases "digit_value c") auto
  next
    case (Cons d t)
    with snoc have "0 < decimal_value s" by simp
    then show ?thesis by simp
  qed
qed simp

lemma show_decimal_value: "canonical s \<Longrightarrow> show_nat (decimal_value s) = s"
proof (induction s rule: rev_induct)
  case (snoc c s)
  then have c: "is_digit c" by (simp add: canonical_def)
  show ?case
  proof (cases "s = []")
    case True
    then show ?thesis using c decimal_value_snoc [of "[]" c]
      by (simp add: show_nat.simps digit_value_bound digit_of_value)
  next
    case False
    with snoc.prems have s: "canonical s" and "0 < decimal_value s"
      by (auto simp: canonical_def intro!: decimal_value_pos)
    then show ?thesis using snoc.IH [OF s] c digit_value_bound [OF c]
      by (subst show_nat.simps) (simp add: digit_of_value)
  qed
qed (simp add: canonical_def)

section \<open>\<open>std::stoi\<close>\<close>

definition is_space :: "char \<Rightarrow> bool" where
  "is_space c \<longleftrightarrow> (of_char c :: nat) = 32 \<or> 9 \<le> (of_char c :: nat) \<and> (of_char c :: nat) \<le> 13"

text \<open>White space, an optional sign and the longest run of digits; nothing read is an exception.\<close>

definition stoi :: "string \<Rightarrow> int result" where
  "stoi s =
     (let body = dropWhile is_space s;
          negative = (body \<noteq> [] \<and> hd body = CHR ''-'');
          unsigned = (if body \<noteq> [] \<and> (hd body = CHR ''-'' \<or> hd body = CHR ''+'') then tl body else body);
          digits = takeWhile is_digit unsigned;
          v = (if negative then - int (decimal_value digits) else int (decimal_value digits))
      in if digits = [] then Inl InvalidArgument
         else if v < - (2 ^ 31) \<or> 2 ^ 31 \<le> v then Inl OutOfRange
         else Inr v)"

lemma digit_not_special: "is_digit c \<Longrightarrow> \<not> is_space c \<and> c \<noteq> CHR ''-'' \<and> c \<noteq> CHR ''+''"
  by (auto simp: is_digit_def is_space_def)

lemma takeWhile_all: "list_all P xs \<Longrightarrow> takeWhile P xs = xs"
  by (induction xs) auto

lemma stoi_digits:
  assumes "list_all is_digit s" and "s \<noteq> []"
  shows "stoi s = (if decimal_value s < 2 ^ 31 then Inr (int (decimal_value s)) else Inl OutOfRange)"
proof -
  obtain c t where s: "s = c # t" using assms by (cases s) auto
  then have c: "is_digit c" using assms by simp
  have "dropWhile is_space s = s" using digit_not_special [OF c] s by simp
  moreover have "hd s \<noteq> CHR ''-''" "hd s \<noteq> CHR ''+''" using digit_not_special [OF c] s by auto
  moreover have "int (decimal_value s) < 2 ^ 31 \<longleftrightarrow> decimal_value s < 2 ^ 31"
    by (metis of_nat_less_iff of_nat_numeral of_nat_power)
  ultimately show ?thesis using assms
    by (auto simp: stoi_def takeWhile_all Let_def)
qed

section \<open>Regular expressions\<close>

datatype regex = Zero | One | Chars "char \<Rightarrow> bool" | Alt regex regex | Seq regex regex | Star regex

inductive_set star :: "string set \<Rightarrow> string set" for L where
  star_Nil: "[] \<in> star L"
| star_app: "u \<in> L \<Longrightarrow> v \<in> star L \<Longrightarrow> u @ v \<in> star L"

fun lang :: "regex \<Rightarrow> string set" where
  "lang Zero = {}"
| "lang One = {[]}"
| "lang (Chars P) = {[c] |c. P c}"
| "lang (Alt r s) = lang r \<union> lang s"
| "lang (Seq r s) = {u @ v |u v. u \<in> lang r \<and> v \<in> lang s}"
| "lang (Star r) = star (lang r)"

fun nullable :: "regex \<Rightarrow> bool" where
  "nullable Zero = False"
| "nullable One = True"
| "nullable (Chars P) = False"
| "nullable (Alt r s) = (nullable r \<or> nullable s)"
| "nullable (Seq r s) = (nullable r \<and> nullable s)"
| "nullable (Star r) = True"

text \<open>Alternatives and sequences that drop what cannot match.\<close>

fun alt :: "regex \<Rightarrow> regex \<Rightarrow> regex" where
  "alt Zero s = s"
| "alt r Zero = r"
| "alt r s = Alt r s"

fun seq :: "regex \<Rightarrow> regex \<Rightarrow> regex" where
  "seq Zero s = Zero"
| "seq One s = s"
| "seq r s = Seq r s"

fun deriv :: "char \<Rightarrow> regex \<Rightarrow> regex" where
  "deriv c Zero = Zero"
| "deriv c One = Zero"
| "deriv c (Chars P) = (if P c then One else Zero)"
| "deriv c (Alt r s) = alt (deriv c r) (deriv c s)"
| "deriv c (Seq r s) =
     (if nullable r then alt (seq (deriv c r) s) (deriv c s) else seq (deriv c r) s)"
| "deriv c (Star r) = seq (deriv c r) (Star r)"

fun regex_match :: "string \<Rightarrow> regex \<Rightarrow> bool" where
  "regex_match [] r = nullable r"
| "regex_match (c # s) r = regex_match s (deriv c r)"

lemma lang_alt [simp]: "lang (alt r s) = lang r \<union> lang s"
  by (induction r s rule: alt.induct) auto

lemma lang_seq [simp]: "lang (seq r s) = lang (Seq r s)"
  by (induction r s rule: seq.induct) auto

lemma nullable_lang: "nullable r \<longleftrightarrow> [] \<in> lang r"
  by (induction r) (auto intro: star_Nil)

lemma star_Cons: "c # s \<in> star L \<longleftrightarrow> (\<exists>u v. s = u @ v \<and> c # u \<in> L \<and> v \<in> star L)"
proof
  assume "c # s \<in> star L"
  then show "\<exists>u v. s = u @ v \<and> c # u \<in> L \<and> v \<in> star L"
    by (induction "c # s" arbitrary: s) (auto simp: append_eq_Cons_conv)
next
  assume "\<exists>u v. s = u @ v \<and> c # u \<in> L \<and> v \<in> star L"
  then show "c # s \<in> star L" using star_app [of "c # _" L] by auto
qed

lemma lang_deriv: "s \<in> lang (deriv c r) \<longleftrightarrow> c # s \<in> lang r"
proof (induction r arbitrary: s)
  case (Seq r1 r2)
  then show ?case by (auto simp: nullable_lang Cons_eq_append_conv)
next
  case (Star r)
  then show ?case by (auto simp: star_Cons)
qed auto

lemma regex_match_lang: "regex_match s r \<longleftrightarrow> s \<in> lang r"
  by (induction s arbitrary: r) (simp_all add: nullable_lang lang_deriv)

text \<open>The constructs of the patterns.\<close>

definition Lit :: "char \<Rightarrow> regex" where "Lit c = Chars (\<lambda>x. x = c)"
definition Opt :: "regex \<Rightarrow> regex" where "Opt r = Alt One r"
definition Plus :: "regex \<Rightarrow> regex" where "Plus r = Seq r (Star r)"

fun Seqs :: "regex list \<Rightarrow> regex" where
  "Seqs [] = One"
| "Seqs [r] = r"
| "Seqs (r # rs) = Seq r (Seqs rs)"

fun Alts :: "regex list \<Rightarrow> regex" where
  "Alts [] = Zero"
| "Alts [r] = r"
| "Alts (r # rs) = Alt r (Alts rs)"

definition Text :: "string \<Rightarrow> regex" where "Text s = Seqs (map Lit s)"

text \<open>\<open>r{m,n}\<close>\<close>

definition Between :: "nat \<Rightarrow> nat \<Rightarrow> regex \<Rightarrow> regex" where
  "Between m n r = Seqs (replicate m r @ replicate (n - m) (Opt r))"

definition Range :: "char \<Rightarrow> char \<Rightarrow> regex" where
  "Range lo hi = Chars (\<lambda>c. (of_char lo :: nat) \<le> of_char c \<and> (of_char c :: nat) \<le> of_char hi)"

definition Digit :: regex where "Digit = Chars is_digit"

lemma lang_Seq: "s \<in> lang (Seq r1 r2) \<longleftrightarrow> (\<exists>u v. s = u @ v \<and> u \<in> lang r1 \<and> v \<in> lang r2)"
  by simp

lemma lang_step:
  "s \<in> lang (Chars P) \<longleftrightarrow> (\<exists>c. s = [c] \<and> P c)"
  "s \<in> lang (Seq (Chars P) r) \<longleftrightarrow> (\<exists>c t. s = c # t \<and> P c \<and> t \<in> lang r)"
  "s \<in> lang (Seq One r) \<longleftrightarrow> s \<in> lang r"
  "s \<in> lang (Seq (Alt r1 r2) r) \<longleftrightarrow> s \<in> lang (Seq r1 r) \<or> s \<in> lang (Seq r2 r)"
  "s \<in> lang (Alt r1 r2) \<longleftrightarrow> s \<in> lang r1 \<or> s \<in> lang r2"
  "s \<in> lang (Seq (Seq r1 r2) r) \<longleftrightarrow> s \<in> lang (Seq r1 (Seq r2 r))"
proof -
  show "s \<in> lang (Seq (Chars P) r) \<longleftrightarrow> (\<exists>c t. s = c # t \<and> P c \<and> t \<in> lang r)"
    unfolding lang_Seq by (fastforce intro: exI [of _ "[_]"])
  show "s \<in> lang (Seq (Seq r1 r2) r) \<longleftrightarrow> s \<in> lang (Seq r1 (Seq r2 r))"
  proof
    assume "s \<in> lang (Seq (Seq r1 r2) r)"
    then obtain u v w where "s = (u @ v) @ w" "u \<in> lang r1" "v \<in> lang r2" "w \<in> lang r" by auto
    then show "s \<in> lang (Seq r1 (Seq r2 r))" unfolding lang_Seq by (metis append_assoc)
  next
    assume "s \<in> lang (Seq r1 (Seq r2 r))"
    then obtain u v w where "s = u @ (v @ w)" "u \<in> lang r1" "v \<in> lang r2" "w \<in> lang r" by auto
    then show "s \<in> lang (Seq (Seq r1 r2) r)" unfolding lang_Seq by (metis append_assoc)
  qed
qed auto

lemma lang_One: "s \<in> lang One \<longleftrightarrow> s = []"
  by simp

lemma Between_1_2: "Between (Suc 0) 2 r = Seq r (Opt r)"
  by (simp add: Between_def numeral_2_eq_2)

lemma lang_Star_Chars: "s \<in> lang (Star (Chars P)) \<longleftrightarrow> list_all P s"
proof (induction s)
  case Nil
  then show ?case by (simp add: star_Nil)
next
  case (Cons c s)
  then show ?case by (auto simp: star_Cons)
qed

lemma lang_Plus_Digit: "s \<in> lang (Plus Digit) \<longleftrightarrow> s \<noteq> [] \<and> list_all is_digit s"
  unfolding Plus_def Digit_def lang_step by (cases s) (auto simp: lang_Star_Chars simp del: lang.simps)

end
