(* ===== verification/Ip_Address.thy ===== *)
theory Ip_Address
  imports Decimal
begin

text \<open>
  Peer addresses, \<open>daemon/utils/ip_address.h\<close>: parsing an address string with the two patterns,
  building one from a \<open>sockaddr_in\<close>, comparing and printing.
\<close>

section \<open>The code\<close>

definition octet :: regex where
  "octet = Alts
     [Seqs [Text ''25'', Range (CHR ''0'') (CHR ''5'')],
      Seqs [Lit (CHR ''2''), Range (CHR ''0'') (CHR ''4''), Digit],
      Seqs [Opt (Range (CHR ''0'') (CHR ''1'')), Between 1 2 Digit]]"

definition dot_octet :: regex where
  "dot_octet = Seq (Lit (CHR ''.'')) octet"

definition ipv4_pattern :: regex where
  "ipv4_pattern = Seqs [octet, dot_octet, dot_octet, dot_octet, Lit (CHR '':''), Plus Digit]"

definition hex :: regex where
  "hex = Alts [Range (CHR ''0'') (CHR ''9''), Range (CHR ''a'') (CHR ''f''), Range (CHR ''A'') (CHR ''F'')]"

definition hex_group :: regex where "hex_group = Between 1 4 hex"
definition group_colon :: regex where "group_colon = Seq hex_group (Lit (CHR '':''))"
definition colon_group :: regex where "colon_group = Seq (Lit (CHR '':'')) hex_group"

definition octet6 :: regex where
  "octet6 = Alt
     (Seqs [Text ''25'', Range (CHR ''0'') (CHR ''5'')])
     (Seq (Opt (Alt (Seq (Lit (CHR ''2'')) (Range (CHR ''0'') (CHR ''4'')))
                    (Seq (Opt (Lit (CHR ''1''))) (Range (CHR ''0'') (CHR ''9'')))))
          (Range (CHR ''0'') (CHR ''9'')))"

definition dotted6 :: regex where
  "dotted6 = Seqs [octet6, Lit (CHR ''.''), octet6, Lit (CHR ''.''), octet6, Lit (CHR ''.''), octet6]"

definition alphanumeric :: regex where
  "alphanumeric = Alts [Range (CHR ''0'') (CHR ''9''), Range (CHR ''a'') (CHR ''z''), Range (CHR ''A'') (CHR ''Z'')]"

definition ipv6_forms :: "regex list" where
  "ipv6_forms =
     [Seq (Between 7 7 group_colon) hex_group,
      Seq (Between 1 7 group_colon) (Lit (CHR '':'')),
      Seqs [Between 1 6 group_colon, Lit (CHR '':''), hex_group],
      Seq (Between 1 5 group_colon) (Between 1 2 colon_group),
      Seq (Between 1 4 group_colon) (Between 1 3 colon_group),
      Seq (Between 1 3 group_colon) (Between 1 4 colon_group),
      Seq (Between 1 2 group_colon) (Between 1 5 colon_group),
      Seqs [hex_group, Lit (CHR '':''), Between 1 6 colon_group],
      Seq (Lit (CHR '':'')) (Alt (Between 1 7 colon_group) (Lit (CHR '':''))),
      Seqs [Text ''fe80:'', Between 0 4 (Seq (Lit (CHR '':'')) (Between 0 4 hex)),
            Lit (CHR ''%''), Plus alphanumeric],
      Seqs [Text ''::'',
            Opt (Seqs [Text ''ffff'', Opt (Seq (Lit (CHR '':'')) (Between 1 4 (Lit (CHR ''0'')))),
                       Lit (CHR '':'')]),
            dotted6],
      Seqs [Between 1 4 group_colon, Lit (CHR '':''), dotted6]]"

definition ipv6_pattern :: regex where
  "ipv6_pattern = Seqs [Alts ipv6_forms, Lit (CHR '':''), Plus Digit]"

record IPAddress =
  valid :: bool
  port_number :: u16
  ip_address_str :: string

text \<open>Construction from a string; \<open>std::stoi\<close> may throw, and its result is cut to 16 bits.\<close>

definition IPAddress_of_string :: "string \<Rightarrow> IPAddress result" where
  "IPAddress_of_string ip_string =
     (if regex_match ip_string ipv4_pattern \<or> regex_match ip_string ipv6_pattern
      then (case find_char (CHR '':'') ip_string of
              None \<Rightarrow> Inl OutOfRange
            | Some location \<Rightarrow>
                bind_result (stoi (drop (location + 1) ip_string)) (\<lambda>port. Inr
                  \<lparr>valid = True, port_number = word_of_int port,
                   ip_address_str = take location ip_string\<rparr>))
      else Inr \<lparr>valid = False, port_number = 0, ip_address_str = []\<rparr>)"

definition IPAddress_copy :: "IPAddress \<Rightarrow> IPAddress" where
  "IPAddress_copy src =
     \<lparr>valid = valid src, port_number = port_number src, ip_address_str = ip_address_str src\<rparr>"

definition AF_INET :: u16 where "AF_INET = 2"
definition AF_INET6 :: u16 where "AF_INET6 = 10"

record sockaddr_in =
  sin_family :: u16
  sin_port :: u16
  sin_addr :: "u8 \<times> u8 \<times> u8 \<times> u8"

text \<open>\<open>inet_ntop(AF_INET, ...)\<close>: dotted decimal, of at most 15 characters.\<close>

definition inet_ntop4 :: "u8 \<times> u8 \<times> u8 \<times> u8 \<Rightarrow> string" where
  "inet_ntop4 addr =
     (case addr of (a, b, c, d) \<Rightarrow>
        show_nat (unat a) @ ''.'' @ show_nat (unat b) @ ''.'' @ show_nat (unat c) @ ''.'' @ show_nat (unat d))"

text \<open>
  Construction from a socket address: the object, and how many bytes \<open>inet_ntop\<close> writes past the
  end of \<open>sip\<close>, an array of \<open>sin_family\<close> characters. With \<open>AF_INET6\<close> the 16 address bytes are
  read from a four-byte field.
\<close>

definition IPAddress_of_sockaddr :: "sockaddr_in \<Rightarrow> u16 \<Rightarrow> (IPAddress \<times> nat) result" where
  "IPAddress_of_sockaddr socket_in port =
     (if sin_family socket_in = AF_INET
      then let written = inet_ntop4 (sin_addr socket_in)
           in Inr (\<lparr>valid = True, port_number = port, ip_address_str = written\<rparr>,
                   (length written + 1) - unat (sin_family socket_in))
      else if sin_family socket_in = AF_INET6 then Inl OutOfBounds
      else Inr (\<lparr>valid = False, port_number = port, ip_address_str = []\<rparr>, 0))"

definition print_IPAddress :: "IPAddress \<Rightarrow> string" where
  "print_IPAddress dt = ip_address_str dt @ '':'' @ show_nat (unat (port_number dt))"

definition IPAddress_eq :: "IPAddress \<Rightarrow> IPAddress \<Rightarrow> bool" where
  "IPAddress_eq x other_ip \<longleftrightarrow>
     port_number x = port_number other_ip \<and> ip_address_str x = ip_address_str other_ip"

section \<open>The IPv4 pattern\<close>

definition octet_string :: "string \<Rightarrow> bool" where
  "octet_string s \<longleftrightarrow>
     1 \<le> length s \<and> length s \<le> 3 \<and> list_all is_digit s \<and> decimal_value s \<le> 255"

lemmas pattern_defs = Text_def Lit_def Opt_def Plus_def Between_def Range_def Digit_def

lemma char_eq_of_char:
  "x = CHR ''2'' \<longleftrightarrow> (of_char x :: nat) = 50" "x = CHR ''5'' \<longleftrightarrow> (of_char x :: nat) = 53"
  using of_char_eq_iff [of x "CHR ''2''", where ?'a = nat]
    of_char_eq_iff [of x "CHR ''5''", where ?'a = nat] by simp_all

lemma octet_lang: "s \<in> lang octet \<longleftrightarrow> octet_string s"
proof -
  note octet_steps = octet_def Between_1_2 Text_def Lit_def Opt_def Range_def Digit_def lang_step
    lang_One char_eq_of_char octet_string_def decimal_value_def is_digit_def digit_value_def
  consider "s = []" | z where "s = [z]" | y z where "s = [y, z]" | x y z where "s = [x, y, z]"
    | x y z u t where "s = x # y # z # u # t"
    by (metis neq_Nil_conv)
  then show ?thesis
  proof cases
    case (4 x y z)
    then show ?thesis by (simp add: octet_steps del: lang.simps) arith
  next
    case (3 y z)
    then show ?thesis by (simp add: octet_steps del: lang.simps) arith
  next
    case (2 z)
    then show ?thesis by (simp add: octet_steps del: lang.simps) arith
  qed (simp_all add: octet_steps del: lang.simps)
qed

definition dotted :: "string \<Rightarrow> string \<Rightarrow> string \<Rightarrow> string \<Rightarrow> string" where
  "dotted a b c d = a @ ''.'' @ b @ ''.'' @ c @ ''.'' @ d"

lemma ipv4_lang:
  "s \<in> lang ipv4_pattern \<longleftrightarrow>
     (\<exists>a b c d p. s = dotted a b c d @ '':'' @ p \<and> octet_string a \<and> octet_string b \<and>
        octet_string c \<and> octet_string d \<and> p \<noteq> [] \<and> list_all is_digit p)"
proof -
  have oct: "t \<in> lang (Seq octet r) \<longleftrightarrow> (\<exists>a u. t = a @ u \<and> octet_string a \<and> u \<in> lang r)" for t r
    by (simp add: octet_lang)
  have dot: "t \<in> lang (Seq dot_octet r) \<longleftrightarrow>
      (\<exists>a u. t = CHR ''.'' # a @ u \<and> octet_string a \<and> u \<in> lang r)" for t r
    unfolding dot_octet_def Lit_def lang_step oct by blast
  have colon: "t \<in> lang (Seq (Lit (CHR '':'')) r) \<longleftrightarrow> (\<exists>u. t = CHR '':'' # u \<and> u \<in> lang r)" for t r
    unfolding Lit_def lang_step by blast
  show ?thesis
    unfolding ipv4_pattern_def Seqs.simps oct dot colon lang_Plus_Digit dotted_def
    by (simp add: ex_simps [symmetric] del: ex_simps)
qed

lemma colon_not_digit: "is_digit c \<Longrightarrow> c \<noteq> CHR '':''"
  by (auto simp: is_digit_def)

lemma octet_no_colon: "octet_string s \<Longrightarrow> CHR '':'' \<notin> set s"
  using colon_not_digit by (auto simp: octet_string_def list_all_iff)

lemma find_colon_dotted:
  "octet_string a \<Longrightarrow> octet_string b \<Longrightarrow> octet_string c \<Longrightarrow> octet_string d \<Longrightarrow>
     find_char (CHR '':'') (dotted a b c d @ CHR '':'' # p) = Some (length (dotted a b c d))"
  by (rule find_char_append) (auto simp: dotted_def dest: octet_no_colon)

lemma IPAddress_of_dotted:
  assumes "octet_string a" "octet_string b" "octet_string c" "octet_string d"
    and "p \<noteq> []" "list_all is_digit p"
  shows "IPAddress_of_string (dotted a b c d @ CHR '':'' # p) =
     (if decimal_value p < 2 ^ 31
      then Inr \<lparr>valid = True, port_number = of_nat (decimal_value p), ip_address_str = dotted a b c d\<rparr>
      else Inl OutOfRange)"
proof -
  have "regex_match (dotted a b c d @ CHR '':'' # p) ipv4_pattern"
    unfolding regex_match_lang ipv4_lang using assms by (metis append_Cons append_Nil)
  then show ?thesis using assms
    by (simp add: IPAddress_of_string_def find_colon_dotted stoi_digits)
qed

text \<open>
  C21. The IPv4 pattern matches exactly the strings of four decimal octets of one to three
  digits, each at most 255, separated by dots, followed by a colon and at least one digit.
\<close>

theorem ipv4_pattern_accepts:
  "regex_match s ipv4_pattern \<longleftrightarrow>
     (\<exists>a b c d p. s = dotted a b c d @ '':'' @ p \<and> octet_string a \<and> octet_string b \<and>
        octet_string c \<and> octet_string d \<and> p \<noteq> [] \<and> list_all is_digit p)"
  by (simp add: regex_match_lang ipv4_lang)

text \<open>An IPv4 address with a port below 65536 written without leading zeros parses to a valid
  address with that port, and printing it gives the string back.
\<close>

theorem IPAddress_parse_print:
  assumes "octet_string a" "octet_string b" "octet_string c" "octet_string d"
    and "canonical p" "decimal_value p < 2 ^ 16"
  shows "\<exists>ip. IPAddress_of_string (dotted a b c d @ '':'' @ p) = Inr ip \<and> valid ip \<and>
     unat (port_number ip) = decimal_value p \<and>
     print_IPAddress ip = dotted a b c d @ '':'' @ p"
proof -
  have "unat (of_nat (decimal_value p) :: u16) = decimal_value p"
    using assms by (simp add: unat_of_nat take_bit_nat_eq_self)
  moreover have "p \<noteq> []" "list_all is_digit p" using assms by (simp_all add: canonical_def)
  ultimately show ?thesis using assms
    by (simp add: IPAddress_of_dotted print_IPAddress_def show_decimal_value)
qed

theorem IPAddress_parse_print_witness:
  "\<exists>ip. IPAddress_of_string ''100.100.100.1:1234'' = Inr ip \<and> valid ip \<and>
     unat (port_number ip) = 1234 \<and> print_IPAddress ip = ''100.100.100.1:1234''"
  using IPAddress_parse_print [of "''100''" "''100''" "''100''" "''1''" "''1234''"]
  by (simp add: dotted_def octet_string_def is_digit_def decimal_value_def digit_value_def
      canonical_def digit_zero)

section \<open>Addresses of sockets\<close>

lemma length_show_byte: "n < 256 \<Longrightarrow> length (show_nat n) \<le> 3"
  by (simp add: show_nat.simps)

lemma octet_string_show: "octet_string (show_nat (unat (b :: u8)))"
proof -
  have b: "unat b < 256" using unsigned_less [of b, where ?'a = nat] by simp
  then show ?thesis
    using show_nat_digits [of "unat b"] length_show_byte [OF b]
    by (simp add: octet_string_def Suc_le_eq)
qed

lemma canonical_show: "canonical (show_nat n)"
proof (induction n rule: show_nat.induct)
  case (1 n)
  show ?case
  proof (cases "n < 10")
    case True
    then show ?thesis by (simp add: show_nat.simps canonical_def)
  next
    case False
    with 1 have IH: "canonical (show_nat (n div 10))" by simp
    have "show_nat (n div 10) \<noteq> [digit 0]"
    proof
      assume "show_nat (n div 10) = [digit 0]"
      from arg_cong [OF this, of decimal_value] show False
        using False decimal_value_snoc [of "[]" "digit 0"] by simp
    qed
    with IH show ?thesis using False
      by (subst show_nat.simps, cases "show_nat (n div 10)") (auto simp: canonical_def)
  qed
qed


section \<open>IPv6 addresses\<close>

text \<open>
  The address is cut at the first colon of the string, also when the string is an IPv6 address.
\<close>

lemma Nil_in_options: "[] \<in> lang (Seqs (replicate k (Opt r)))"
proof (induction k)
  case (Suc k)
  then show ?case by (cases k) (auto simp: Opt_def)
qed simp

lemma in_Alts: "u \<in> lang r \<Longrightarrow> r \<in> set rs \<Longrightarrow> u \<in> lang (Alts rs)"
  by (induction rs rule: Alts.induct) auto

lemma Between_once: "u \<in> lang r \<Longrightarrow> u \<in> lang (Between (Suc 0) (Suc n) r)"
proof (cases n)
  case (Suc k)
  assume "u \<in> lang r"
  then have "u @ [] \<in> lang (Seq r (Seqs (replicate (Suc k) (Opt r))))"
    unfolding lang_Seq using Nil_in_options by blast
  with Suc show ?thesis by (simp add: Between_def)
qed (simp add: Between_def)

lemma Between_once_numeral:
  "u \<in> lang r \<Longrightarrow> u \<in> lang (Between 1 7 r)" "u \<in> lang r \<Longrightarrow> u \<in> lang (Between 1 4 r)"
  using Between_once [of u r 6] Between_once [of u r 3] by (simp_all add: eval_nat_numeral)

lemma loopback_lang:
  assumes "p \<noteq> []" "list_all is_digit p"
  shows "''::1:'' @ p \<in> lang ipv6_pattern"
proof -
  have literal: "c # u \<in> lang (Seq (Lit c) r)" if "u \<in> lang r" for c u r
    unfolding Lit_def lang_step using that by simp
  have "''1'' \<in> lang hex" by (simp add: hex_def Range_def)
  then have "'':1'' \<in> lang colon_group"
    unfolding colon_group_def hex_group_def by (intro literal Between_once_numeral)
  then have "'':1'' \<in> lang (Alt (Between 1 7 colon_group) (Lit (CHR '':'')))"
    unfolding lang_step(5) by (intro disjI1 Between_once_numeral)
  then have "''::1'' \<in> lang (Seq (Lit (CHR '':'')) (Alt (Between 1 7 colon_group) (Lit (CHR '':''))))"
    by (rule literal)
  then have "''::1'' \<in> lang (Alts ipv6_forms)"
    by (rule in_Alts) (unfold ipv6_forms_def list.set, (rule insertI1 | rule insertI2)+)
  moreover have "CHR '':'' # p \<in> lang (Seq (Lit (CHR '':'')) (Plus Digit))"
    by (rule literal) (use assms in \<open>simp add: lang_Plus_Digit del: lang.simps\<close>)
  ultimately have "''::1'' @ (CHR '':'' # p) \<in> lang ipv6_pattern"
    unfolding ipv6_pattern_def Seqs.simps(2,3) lang_Seq [of _ "Alts ipv6_forms"] by blast
  then show ?thesis by simp
qed

text \<open>An IPv6 address that its pattern accepts is not parsed: the string is cut at its first
  colon, so constructing the loopback address with any port throws
  \<open>std::invalid_argument\<close> from \<open>std::stoi\<close>.
\<close>

theorem ipv6_loopback_throws:
  assumes "p \<noteq> []" "list_all is_digit p"
  shows "regex_match (''::1:'' @ p) ipv6_pattern \<and>
     IPAddress_of_string (''::1:'' @ p) = Inl InvalidArgument"
proof -
  have "regex_match (''::1:'' @ p) ipv6_pattern"
    unfolding regex_match_lang by (rule loopback_lang [OF assms])
  moreover have "stoi ('':1:'' @ p) = Inl InvalidArgument"
    by (simp add: stoi_def is_space_def is_digit_def)
  ultimately show ?thesis by (simp add: IPAddress_of_string_def del: regex_match.simps)
qed

theorem ipv6_loopback_throws_witness:
  "regex_match (''::1:'' @ ''80'') ipv6_pattern \<and>
     IPAddress_of_string (''::1:'' @ ''80'') = Inl InvalidArgument"
  by (rule ipv6_loopback_throws) (simp_all add: is_digit_def)

end
