(* ===== verification/Peer_Session.thy ===== *)
theory Peer_Session
  imports P2P_Prelude
begin

text \<open>
  Sessions with known peers, \<open>daemon/peer_session.cc\<close> and \<open>daemon/p2p_interface.h\<close>: accepting a
  peer's certificate and verifying its signatures. OpenSSL is a parameter: a record of the
  functions the code calls, over an abstract type of digest contexts. What its documentation says
  of the digest functions is the predicate \<open>evp_documented\<close>.
\<close>

section \<open>The code\<close>

subsection \<open>Certificates\<close>

datatype x509_error =
    X509_V_ERR_UNABLE_TO_GET_ISSUER_CERT
  | X509_V_ERR_UNABLE_TO_GET_CRL
  | X509_V_ERR_UNABLE_TO_DECRYPT_CERT_SIGNATURE
  | X509_V_ERR_UNABLE_TO_DECRYPT_CRL_SIGNATURE
  | X509_V_ERR_UNABLE_TO_DECODE_ISSUER_PUBLIC_KEY
  | X509_V_ERR_CERT_SIGNATURE_FAILURE
  | X509_V_ERR_CRL_SIGNATURE_FAILURE
  | X509_V_ERR_CERT_NOT_YET_VALID
  | X509_V_ERR_CERT_HAS_EXPIRED
  | X509_V_ERR_CRL_NOT_YET_VALID
  | X509_V_ERR_CRL_HAS_EXPIRED
  | X509_V_ERR_ERROR_IN_CERT_NOT_BEFORE_FIELD
  | X509_V_ERR_ERROR_IN_CERT_NOT_AFTER_FIELD
  | X509_V_ERR_ERROR_IN_CRL_LAST_UPDATE_FIELD
  | X509_V_ERR_ERROR_IN_CRL_NEXT_UPDATE_FIELD
  | X509_V_ERR_OUT_OF_MEM
  | X509_V_ERR_DEPTH_ZERO_SELF_SIGNED_CERT
  | X509_V_ERR_SELF_SIGNED_CERT_IN_CHAIN
  | X509_V_ERR_UNABLE_TO_GET_ISSUER_CERT_LOCALLY
  | X509_V_ERR_UNABLE_TO_VERIFY_LEAF_SIGNATURE
  | X509_V_ERR_CERT_CHAIN_TOO_LONG
  | X509_V_ERR_CERT_REVOKED
  | X509_V_ERR_INVALID_CA
  | X509_V_ERR_PATH_LENGTH_EXCEEDED
  | X509_V_ERR_INVALID_PURPOSE
  | X509_V_ERR_CERT_UNTRUSTED
  | X509_V_ERR_CERT_REJECTED
  | X509_V_ERR_SUBJECT_ISSUER_MISMATCH
  | X509_V_ERR_AKID_SKID_MISMATCH
  | X509_V_ERR_AKID_ISSUER_SERIAL_MISMATCH
  | X509_V_ERR_KEYUSAGE_NO_CERTSIGN
  | X509_V_ERR_INVALID_EXTENSION
  | X509_V_ERR_INVALID_POLICY_EXTENSION
  | X509_V_ERR_NO_EXPLICIT_POLICY
  | X509_V_ERR_APPLICATION_VERIFICATION
  | X509_V_ERR_other int

fun get_validation_errstr :: "x509_error \<Rightarrow> string" where
  "get_validation_errstr X509_V_ERR_UNABLE_TO_GET_ISSUER_CERT = ''ERR_UNABLE_TO_GET_ISSUER_CERT''"
| "get_validation_errstr X509_V_ERR_UNABLE_TO_GET_CRL = ''ERR_UNABLE_TO_GET_CRL''"
| "get_validation_errstr X509_V_ERR_UNABLE_TO_DECRYPT_CERT_SIGNATURE = ''ERR_UNABLE_TO_DECRYPT_CERT_SIGNATURE''"
| "get_validation_errstr X509_V_ERR_UNABLE_TO_DECRYPT_CRL_SIGNATURE = ''ERR_UNABLE_TO_DECRYPT_CRL_SIGNATURE''"
| "get_validation_errstr X509_V_ERR_UNABLE_TO_DECODE_ISSUER_PUBLIC_KEY = ''ERR_UNABLE_TO_DECODE_ISSUER_PUBLIC_KEY''"
| "get_validation_errstr X509_V_ERR_CERT_SIGNATURE_FAILURE = ''ERR_CERT_SIGNATURE_FAILURE''"
| "get_validation_errstr X509_V_ERR_CRL_SIGNATURE_FAILURE = ''ERR_CRL_SIGNATURE_FAILURE''"
| "get_validation_errstr X509_V_ERR_CERT_NOT_YET_VALID = ''ERR_CERT_NOT_YET_VALID''"
| "get_validation_errstr X509_V_ERR_CERT_HAS_EXPIRED = ''ERR_CERT_HAS_EXPIRED''"
| "get_validation_errstr X509_V_ERR_CRL_NOT_YET_VALID = ''ERR_CRL_NOT_YET_VALID''"
| "get_validation_errstr X509_V_ERR_CRL_HAS_EXPIRED = ''ERR_CRL_HAS_EXPIRED''"
| "get_validation_errstr X509_V_ERR_ERROR_IN_CERT_NOT_BEFORE_FIELD = ''ERR_ERROR_IN_CERT_NOT_BEFORE_FIELD''"
| "get_validation_errstr X509_V_ERR_ERROR_IN_CERT_NOT_AFTER_FIELD = ''ERR_ERROR_IN_CERT_NOT_AFTER_FIELD''"
| "get_validation_errstr X509_V_ERR_ERROR_IN_CRL_LAST_UPDATE_FIELD = ''ERR_ERROR_IN_CRL_LAST_UPDATE_FIELD''"
| "get_validation_errstr X509_V_ERR_ERROR_IN_CRL_NEXT_UPDATE_FIELD = ''ERR_ERROR_IN_CRL_NEXT_UPDATE_FIELD''"
| "get_validation_errstr X509_V_ERR_OUT_OF_MEM = ''ERR_OUT_OF_MEM''"
| "get_validation_errstr X509_V_ERR_DEPTH_ZERO_SELF_SIGNED_CERT = ''ERR_DEPTH_ZERO_SELF_SIGNED_CERT''"
| "get_validation_errstr X509_V_ERR_SELF_SIGNED_CERT_IN_CHAIN = ''ERR_SELF_SIGNED_CERT_IN_CHAIN''"
| "get_validation_errstr X509_V_ERR_UNABLE_TO_GET_ISSUER_CERT_LOCALLY = ''ERR_UNABLE_TO_GET_ISSUER_CERT_LOCALLY''"
| "get_validation_errstr X509_V_ERR_UNABLE_TO_VERIFY_LEAF_SIGNATURE = ''ERR_UNABLE_TO_VERIFY_LEAF_SIGNATURE''"
| "get_validation_errstr X509_V_ERR_CERT_CHAIN_TOO_LONG = ''ERR_CERT_CHAIN_TOO_LONG''"
| "get_validation_errstr X509_V_ERR_CERT_REVOKED = ''ERR_CERT_REVOKED''"
| "get_validation_errstr X509_V_ERR_INVALID_CA = ''ERR_INVALID_CA''"
| "get_validation_errstr X509_V_ERR_PATH_LENGTH_EXCEEDED = ''ERR_PATH_LENGTH_EXCEEDED''"
| "get_validation_errstr X509_V_ERR_INVALID_PURPOSE = ''ERR_INVALID_PURPOSE''"
| "get_validation_errstr X509_V_ERR_CERT_UNTRUSTED = ''ERR_CERT_UNTRUSTED''"
| "get_validation_errstr X509_V_ERR_CERT_REJECTED = ''ERR_CERT_REJECTED''"
| "get_validation_errstr X509_V_ERR_SUBJECT_ISSUER_MISMATCH = ''ERR_SUBJECT_ISSUER_MISMATCH''"
| "get_validation_errstr X509_V_ERR_AKID_SKID_MISMATCH = ''ERR_AKID_SKID_MISMATCH''"
| "get_validation_errstr X509_V_ERR_AKID_ISSUER_SERIAL_MISMATCH = ''ERR_AKID_ISSUER_SERIAL_MISMATCH''"
| "get_validation_errstr X509_V_ERR_KEYUSAGE_NO_CERTSIGN = ''ERR_KEYUSAGE_NO_CERTSIGN''"
| "get_validation_errstr X509_V_ERR_INVALID_EXTENSION = ''ERR_INVALID_EXTENSION''"
| "get_validation_errstr X509_V_ERR_INVALID_POLICY_EXTENSION = ''ERR_INVALID_POLICY_EXTENSION''"
| "get_validation_errstr X509_V_ERR_NO_EXPLICIT_POLICY = ''ERR_NO_EXPLICIT_POLICY''"
| "get_validation_errstr X509_V_ERR_APPLICATION_VERIFICATION = ''ERR_APPLICATION_VERIFICATION''"
| "get_validation_errstr (X509_V_ERR_other e) = ''ERR_UNKNOWN''"

record ('cert, 'k) x509_lib =
  d2i_X509 :: "string \<Rightarrow> 'cert option"
  X509_verify_cert :: "'cert \<Rightarrow> x509_error option"
  X509_get_pubkey :: "'cert \<Rightarrow> 'k"

subsection \<open>Sessions\<close>

text \<open>The cached context: a null, a live or a freed pointer.\<close>

datatype 'c md_ctx = NullCtx | LiveCtx 'c | FreedCtx

record ('k, 'c) PeerSession =
  public_key :: 'k
  evp_md_ctx :: "'c md_ctx"

definition PeerSession_new :: "'k \<Rightarrow> ('k, 'c) PeerSession" where
  "PeerSession_new key = \<lparr>public_key = key, evp_md_ctx = NullCtx\<rparr>"

text \<open>\<open>new_session\<close>: the lines logged, and the session or \<open>nullptr\<close>.\<close>

definition new_session ::
    "('cert, 'k) x509_lib \<Rightarrow> string \<Rightarrow> string list \<times> ('k, 'c) PeerSession option" where
  "new_session lib raw_cert =
     (case d2i_X509 lib raw_cert of
        None \<Rightarrow> ([''failed to unpack the device's X509 certificate''], None)
      | Some cert \<Rightarrow>
          (case X509_verify_cert lib cert of
             None \<Rightarrow> ([''create peer instance''], Some (PeerSession_new (X509_get_pubkey lib cert)))
           | Some e \<Rightarrow> ([get_validation_errstr e], None)))"

text \<open>The destructor frees the context unless it is null.\<close>

definition PeerSession_destroy :: "('k, 'c) PeerSession \<Rightarrow> unit result" where
  "PeerSession_destroy s =
     (case evp_md_ctx s of FreedCtx \<Rightarrow> Inl UseAfterFree | _ \<Rightarrow> Inr ())"

datatype ProtoSignAlgorithm = SHA_256 | UnknownAlgorithm int

record ('k, 'c) evp_lib =
  EVP_MD_CTX_new :: "'c option"
  EVP_DigestVerifyInit :: "'k \<Rightarrow> 'c \<Rightarrow> bool \<times> 'c"
  EVP_DigestVerifyUpdate :: "string \<Rightarrow> 'c \<Rightarrow> bool \<times> 'c"
  EVP_DigestVerifyFinal :: "string \<Rightarrow> 'c \<Rightarrow> bool \<times> 'c"

text \<open>
  The part of \<open>verify\<close> that makes the context: \<open>Some c\<close> when the call goes on with context \<open>c\<close>,
  \<open>None\<close> when it returns false; and the session.
\<close>

definition prepare_ctx :: "('k, 'c) evp_lib \<Rightarrow> ProtoSignAlgorithm \<Rightarrow> ('k, 'c) PeerSession \<Rightarrow>
    ('c option \<times> ('k, 'c) PeerSession) result" where
  "prepare_ctx lib method s =
     (case evp_md_ctx s of
        LiveCtx c \<Rightarrow> Inr (Some c, s)
      | FreedCtx \<Rightarrow> Inl UseAfterFree
      | NullCtx \<Rightarrow>
          (case EVP_MD_CTX_new lib of
             None \<Rightarrow> Inr (None, s)
           | Some c \<Rightarrow>
               (case method of
                  UnknownAlgorithm n \<Rightarrow> Inr (None, s\<lparr>evp_md_ctx := FreedCtx\<rparr>)
                | SHA_256 \<Rightarrow>
                    (case EVP_DigestVerifyInit lib (public_key s) c of
                       (ok, c') \<Rightarrow>
                         Inr (if ok then Some c' else None, s\<lparr>evp_md_ctx := LiveCtx c'\<rparr>)))))"

definition verify :: "('k, 'c) evp_lib \<Rightarrow> string \<Rightarrow> string \<Rightarrow> ProtoSignAlgorithm \<Rightarrow>
    ('k, 'c) PeerSession \<Rightarrow> (bool \<times> ('k, 'c) PeerSession) result" where
  "verify lib data sig method s =
     bind_result (prepare_ctx lib method s) (\<lambda>(ctx, s).
       case ctx of
         None \<Rightarrow> Inr (False, s)
       | Some c \<Rightarrow>
           (case EVP_DigestVerifyUpdate lib data c of
              (ok, c1) \<Rightarrow>
                if \<not> ok then Inr (False, s\<lparr>evp_md_ctx := LiveCtx c1\<rparr>)
                else case EVP_DigestVerifyFinal lib sig c1 of
                       (accepted, c2) \<Rightarrow> Inr (accepted, s\<lparr>evp_md_ctx := LiveCtx c2\<rparr>)))"

section \<open>What a session verifies\<close>

text \<open>
  The documented behaviour of the digest functions: a context holds a key and the data given to it
  so far (\<open>digested\<close>); \<open>Update\<close> appends; \<open>Final\<close> checks the signature of all of it on a copy of
  the context, so that the context can be used further. \<open>genuine key data sig\<close> says that \<open>sig\<close> is
  a signature of \<open>data\<close> under \<open>key\<close>.
\<close>

definition evp_documented :: "('k, 'c) evp_lib \<Rightarrow> ('c \<Rightarrow> ('k \<times> string) option) \<Rightarrow>
    ('k \<Rightarrow> string \<Rightarrow> string \<Rightarrow> bool) \<Rightarrow> bool" where
  "evp_documented lib digested genuine \<longleftrightarrow>
     EVP_MD_CTX_new lib \<noteq> None \<and>
     (\<forall>key c. fst (EVP_DigestVerifyInit lib key c) \<and>
        digested (snd (EVP_DigestVerifyInit lib key c)) = Some (key, [])) \<and>
     (\<forall>key data more c. digested c = Some (key, data) \<longrightarrow>
        fst (EVP_DigestVerifyUpdate lib more c) \<and>
        digested (snd (EVP_DigestVerifyUpdate lib more c)) = Some (key, data @ more)) \<and>
     (\<forall>key data sig c. digested c = Some (key, data) \<longrightarrow>
        fst (EVP_DigestVerifyFinal lib sig c) = genuine key data sig \<and>
        digested (snd (EVP_DigestVerifyFinal lib sig c)) = Some (key, data))"

text \<open>Verifying one message after the other with one session.\<close>

fun run_verify :: "('k, 'c) evp_lib \<Rightarrow> (string \<times> string) list \<Rightarrow> ('k, 'c) PeerSession \<Rightarrow>
    (bool list \<times> ('k, 'c) PeerSession) result" where
  "run_verify lib [] s = Inr ([], s)"
| "run_verify lib ((data, sig) # msgs) s =
     bind_result (verify lib data sig SHA_256 s) (\<lambda>(ok, s).
       bind_result (run_verify lib msgs s) (\<lambda>(oks, s). Inr (ok # oks, s)))"

definition session_digest ::
    "('c \<Rightarrow> ('k \<times> string) option) \<Rightarrow> ('k, 'c) PeerSession \<Rightarrow> string \<Rightarrow> bool" where
  "session_digest digested s data \<longleftrightarrow>
     (case evp_md_ctx s of
        NullCtx \<Rightarrow> data = []
      | LiveCtx c \<Rightarrow> digested c = Some (public_key s, data)
      | FreedCtx \<Rightarrow> False)"

lemma evp_laws:
  assumes "evp_documented lib digested genuine"
  shows "\<exists>c. EVP_MD_CTX_new lib = Some c"
    and "\<exists>c'. EVP_DigestVerifyInit lib key c = (True, c') \<and> digested c' = Some (key, [])"
    and "digested c = Some (key, data) \<Longrightarrow>
      \<exists>c'. EVP_DigestVerifyUpdate lib extra c = (True, c') \<and> digested c' = Some (key, data @ extra)"
    and "digested c = Some (key, data) \<Longrightarrow>
      \<exists>c'. EVP_DigestVerifyFinal lib sig c = (genuine key data sig, c') \<and> digested c' = Some (key, data)"
proof -
  note laws = assms [unfolded evp_documented_def]
  show "\<exists>c. EVP_MD_CTX_new lib = Some c" using laws by blast
  have "fst (EVP_DigestVerifyInit lib key c) \<and>
      digested (snd (EVP_DigestVerifyInit lib key c)) = Some (key, [])" using laws by blast
  then show "\<exists>c'. EVP_DigestVerifyInit lib key c = (True, c') \<and> digested c' = Some (key, [])"
    by (cases "EVP_DigestVerifyInit lib key c") simp
  assume c: "digested c = Some (key, data)"
  have "fst (EVP_DigestVerifyUpdate lib extra c) \<and>
      digested (snd (EVP_DigestVerifyUpdate lib extra c)) = Some (key, data @ extra)"
    using laws c by blast
  then show "\<exists>c'. EVP_DigestVerifyUpdate lib extra c = (True, c') \<and>
      digested c' = Some (key, data @ extra)"
    by (cases "EVP_DigestVerifyUpdate lib extra c") simp
  have "fst (EVP_DigestVerifyFinal lib sig c) = genuine key data sig \<and>
      digested (snd (EVP_DigestVerifyFinal lib sig c)) = Some (key, data)"
    using laws c by blast
  then show "\<exists>c'. EVP_DigestVerifyFinal lib sig c = (genuine key data sig, c') \<and>
      digested c' = Some (key, data)"
    by (cases "EVP_DigestVerifyFinal lib sig c") simp
qed

lemma prepare_ctx_digest:
  assumes lib: "evp_documented lib digested genuine" and s: "session_digest digested s before"
  shows "\<exists>c s1. prepare_ctx lib SHA_256 s = Inr (Some c, s1) \<and>
    digested c = Some (public_key s, before) \<and> public_key s1 = public_key s"
proof (cases "evp_md_ctx s")
  case NullCtx
  obtain c where c: "EVP_MD_CTX_new lib = Some c" using evp_laws(1) [OF lib] by blast
  obtain c' where "EVP_DigestVerifyInit lib (public_key s) c = (True, c')"
      "digested c' = Some (public_key s, [])"
    using evp_laws(2) [OF lib] by blast
  with NullCtx c s show ?thesis by (simp add: prepare_ctx_def session_digest_def)
qed (use s in \<open>simp_all add: prepare_ctx_def session_digest_def\<close>)

lemma verify_digest:
  assumes lib: "evp_documented lib digested genuine" and s: "session_digest digested s before"
  shows "\<exists>s'. verify lib data sig SHA_256 s =
      Inr (genuine (public_key s) (before @ data) sig, s') \<and>
    session_digest digested s' (before @ data) \<and> public_key s' = public_key s"
proof -
  obtain c s1 where c: "prepare_ctx lib SHA_256 s = Inr (Some c, s1)"
      "digested c = Some (public_key s, before)" "public_key s1 = public_key s"
    using prepare_ctx_digest [OF assms] by blast
  obtain c1 where c1: "EVP_DigestVerifyUpdate lib data c = (True, c1)"
      "digested c1 = Some (public_key s, before @ data)"
    using evp_laws(3) [OF lib c(2)] by blast
  obtain c2 where "EVP_DigestVerifyFinal lib sig c1 = (genuine (public_key s) (before @ data) sig, c2)"
      "digested c2 = Some (public_key s, before @ data)"
    using evp_laws(4) [OF lib c1(2)] by blast
  with c c1 show ?thesis by (simp add: verify_def session_digest_def)
qed

lemma run_verify_digest:
  assumes lib: "evp_documented lib digested genuine" and "session_digest digested s before"
  shows "\<exists>s'. run_verify lib msgs s =
    Inr (map (\<lambda>i. genuine (public_key s) (before @ concat (map fst (take (Suc i) msgs))) (snd (msgs ! i)))
      [0..<length msgs], s')"
  using assms(2)
proof (induction msgs arbitrary: s before)
  case (Cons m msgs)
  obtain data sig where m: "m = (data, sig)" by (cases m)
  obtain s1 where s1: "verify lib data sig SHA_256 s =
        Inr (genuine (public_key s) (before @ data) sig, s1)"
      "session_digest digested s1 (before @ data)" "public_key s1 = public_key s"
    using verify_digest [OF lib Cons.prems] by blast
  have "[0..<length (m # msgs)] = 0 # map Suc [0..<length msgs]"
    by (metis length_Cons map_Suc_upt upt_conv_Cons zero_less_Suc)
  with s1 Cons.IH [OF s1(2)] show ?case by (auto simp: m comp_def)
qed simp

text \<open>C31. A session verifies its first message, and after that the concatenation of all messages
  so far: when the digest functions behave as documented, the answer of the call number \<open>i\<close> on a
  new session is whether the signature is genuine for the data of the calls up to \<open>i\<close> taken
  together, not for the data it was given.\<close>

theorem session_verifies_concatenation:
  assumes "evp_documented lib digested genuine"
  shows "\<exists>s. run_verify lib msgs (PeerSession_new key) =
    Inr (map (\<lambda>i. genuine key (concat (map fst (take (Suc i) msgs))) (snd (msgs ! i)))
      [0..<length msgs], s)"
  using run_verify_digest [OF assms, of "PeerSession_new key" "[]" msgs]
  by (simp add: session_digest_def PeerSession_new_def)

text \<open>A digest library whose signatures are the key followed by the data.\<close>

definition plain_evp :: "(string, (string \<times> string) option) evp_lib" where
  "plain_evp =
     \<lparr>EVP_MD_CTX_new = Some None,
      EVP_DigestVerifyInit = (\<lambda>key c. (True, Some (key, []))),
      EVP_DigestVerifyUpdate = (\<lambda>more c. case c of None \<Rightarrow> (False, None)
         | Some (key, data) \<Rightarrow> (True, Some (key, data @ more))),
      EVP_DigestVerifyFinal = (\<lambda>sig c. case c of None \<Rightarrow> (False, None)
         | Some (key, data) \<Rightarrow> (sig = key @ data, c))\<rparr>"

lemma plain_evp_documented: "evp_documented plain_evp id (\<lambda>key data sig. sig = key @ data)"
  by (auto simp: evp_documented_def plain_evp_def)

theorem session_verifies_concatenation_witness:
  "\<exists>s. run_verify plain_evp [(''one'', ''key'' @ ''one''), (''two'', ''key'' @ ''two'')]
      (PeerSession_new ''key'') = Inr ([True, False], s)"
  using session_verifies_concatenation [OF plain_evp_documented,
      of "[(''one'', ''key'' @ ''one''), (''two'', ''key'' @ ''two'')]" "''key''"]
  by simp

text \<open>A message with an unsupported algorithm leaves a new session with a freed context: the
  call returns false, and every later call, and the destructor, uses the freed memory.\<close>

theorem unsupported_algorithm_frees_context:
  assumes "EVP_MD_CTX_new lib = Some c"
  shows "\<exists>s. verify lib data sig (UnknownAlgorithm n) (PeerSession_new key) = Inr (False, s) \<and>
    verify lib data' sig' method s = Inl UseAfterFree \<and> PeerSession_destroy s = Inl UseAfterFree"
  using assms
  by (simp add: verify_def prepare_ctx_def PeerSession_new_def PeerSession_destroy_def)

theorem unsupported_algorithm_frees_context_witness:
  "\<exists>s. verify plain_evp ''data'' ''sig'' (UnknownAlgorithm 1) (PeerSession_new ''key'') = Inr (False, s) \<and>
    verify plain_evp ''data'' ''sig'' SHA_256 s = Inl UseAfterFree \<and>
    PeerSession_destroy s = Inl UseAfterFree"
  by (rule unsupported_algorithm_frees_context [of _ None]) (simp add: plain_evp_def)

end
