(* ===== verification/Codec.thy ===== *)
theory Codec
  imports P2P_Prelude
begin

text \<open>
  A self-delimiting encoding of numbers, strings and lists: numbers in unary, strings and lists
  after their length. The witnesses of the development build from it concrete instances of the
  serialization libraries that the sources use.
\<close>

definition put_nat :: "nat \<Rightarrow> string" where "put_nat n = replicate n (CHR ''1'') @ ''0''"

definition get_nat :: "string \<Rightarrow> nat \<times> string" where
  "get_nat s = (length (takeWhile ((=) (CHR ''1'')) s), tl (dropWhile ((=) (CHR ''1'')) s))"

definition put_str :: "string \<Rightarrow> string" where "put_str s = put_nat (length s) @ s"

definition get_str :: "string \<Rightarrow> string \<times> string" where
  "get_str t = (let (n, r) = get_nat t in (take n r, drop n r))"

definition put_int :: "int \<Rightarrow> string" where
  "put_int i = put_nat (if i < 0 then 1 else 0) @ put_nat (nat \<bar>i\<bar>)"

definition get_int :: "string \<Rightarrow> int \<times> string" where
  "get_int s = (let (negative, r) = get_nat s; (n, r) = get_nat r
     in (if negative = 1 then - int n else int n, r))"

lemma get_put [simp]:
  "get_nat (put_nat n @ r) = (n, r)" "get_str (put_str s @ r) = (s, r)" "get_int (put_int i @ r) = (i, r)"
proof -
  show n: "get_nat (put_nat n @ r) = (n, r)" for n r
    by (induction n) (auto simp: get_nat_def put_nat_def)
  show "get_str (put_str s @ r) = (s, r)" by (simp add: get_str_def put_str_def n)
  show "get_int (put_int i @ r) = (i, r)" by (simp add: get_int_def put_int_def n)
qed

definition put_list :: "('a \<Rightarrow> string) \<Rightarrow> 'a list \<Rightarrow> string" where
  "put_list put xs = put_nat (length xs) @ concat (map put xs)"

fun get_items :: "(string \<Rightarrow> 'a \<times> string) \<Rightarrow> nat \<Rightarrow> string \<Rightarrow> 'a list \<times> string" where
  "get_items get 0 s = ([], s)"
| "get_items get (Suc n) s = (let (x, r) = get s; (xs, r) = get_items get n r in (x # xs, r))"

definition get_list :: "(string \<Rightarrow> 'a \<times> string) \<Rightarrow> string \<Rightarrow> 'a list \<times> string" where
  "get_list get s = (let (n, r) = get_nat s in get_items get n r)"

lemma get_put_list:
  assumes "\<And>x r. x \<in> set xs \<Longrightarrow> get (put x @ r) = (x, r)"
  shows "get_list get (put_list put xs @ r) = (xs, r)"
proof -
  have "get_items get (length xs) (concat (map put xs) @ r) = (xs, r)"
    using assms by (induction xs) simp_all
  then show ?thesis by (simp add: get_list_def put_list_def)
qed

end
