(* ===== verification/Packet.thy ===== *)
theory Packet
  imports Ip_Address Peer_Session Codec
begin

text \<open>
  Packets on the wire: the messages of \<open>daemon/packet/protocol.proto\<close> that the code handles and
  \<open>Task::send_packet_tcp\<close> of \<open>daemon/packet/packet_tasks.cc\<close>. A frame is the length of the
  serialized message as the four bytes of a \<open>uint32_t\<close> in memory (little endian) and then the
  message. The protobuf runtime and the network are parameters: records of the functions the code
  calls.
\<close>

section \<open>The code\<close>

subsection \<open>Messages\<close>

type_synonym ProtoPayloadType = int

definition HELLO :: ProtoPayloadType where "HELLO = 0"

text \<open>The message type for a payload type, and whether there is one: \<open>ToPayloadType\<close> with its one specialisation.\<close>

datatype payload_class = VoidPayload | HelloPayload

definition ToPayloadType :: "ProtoPayloadType \<Rightarrow> payload_class \<times> bool" where
  "ToPayloadType t = (if t = HELLO then (HelloPayload, True) else (VoidPayload, False))"

record SignedProtoMessage =
  sender :: string
  receiver :: string
  last_forward_port :: u32
  ttl :: u32
  signature :: string
  signed_payload :: string
  sign_algorithm :: ProtoSignAlgorithm

definition SignedProtoMessage_new :: SignedProtoMessage where
  "SignedProtoMessage_new =
     \<lparr>sender = [], receiver = [], last_forward_port = 0, ttl = 0, signature = [],
      signed_payload = [], sign_algorithm = SHA_256\<rparr>"

record ProtoMessage =
  pm_sender :: string
  pm_receiver :: string
  pm_packet_type :: ProtoPayloadType
  pm_payload :: string

record ProtoHelloMessage =
  sender_id :: string
  verified_msg :: string
  x509_certificate :: string

text \<open>
  The generated protobuf code: \<open>ParseFromArray\<close> answers whether it succeeded and fills in the
  message either way.
\<close>

record protobuf =
  parse_signed :: "string \<Rightarrow> bool \<times> SignedProtoMessage"
  serialize_signed :: "SignedProtoMessage \<Rightarrow> string"
  parse_proto :: "string \<Rightarrow> ProtoMessage"
  serialize_proto :: "ProtoMessage \<Rightarrow> string"
  unpack_hello :: "string \<Rightarrow> ProtoHelloMessage"

definition codec_documented :: "protobuf \<Rightarrow> bool" where
  "codec_documented pb \<longleftrightarrow>
     (\<forall>m. parse_signed pb (serialize_signed pb m) = (True, m)) \<and>
     (\<forall>m. parse_proto pb (serialize_proto pb m) = m)"

subsection \<open>Framing\<close>

definition le32_bytes :: "u32 \<Rightarrow> string" where
  "le32_bytes w = (let n = unat w in map char_of [n, n div 256, n div 65536, n div 16777216])"

definition le32_value :: "string \<Rightarrow> u32" where
  "le32_value bs = of_nat (foldr (\<lambda>b acc. of_char b + 256 * acc) bs 0)"

subsection \<open>Sending\<close>

record network =
  socket_opens :: bool
  inet_pton :: "string \<Rightarrow> bool"
  connects :: "string \<Rightarrow> u16 \<Rightarrow> bool"

text \<open>
  The answer, and what is written to the connection when one is made. A serialized message of
  \<open>2 ^ 32\<close> bytes or more does not fit the buffer that is allocated for it.
\<close>

definition send_packet_tcp :: "protobuf \<Rightarrow> network \<Rightarrow> u16 \<Rightarrow> SignedProtoMessage \<Rightarrow> IPAddress option \<Rightarrow>
    (bool \<times> string option) result" where
  "send_packet_tcp pb net machine_port msg ip_addr =
     (if \<not> socket_opens net then Inr (False, None)
      else case ip_addr of
        None \<Rightarrow> Inl NullDeref
      | Some ip \<Rightarrow>
          if \<not> inet_pton net (ip_address_str ip) then Inr (False, None)
          else if \<not> connects net (ip_address_str ip) (port_number ip) then Inr (False, None)
          else let msg = msg\<lparr>ttl := ttl msg - 1\<rparr>;
                   msg = msg\<lparr>last_forward_port := ucast machine_port\<rparr>;
                   raw_proto = serialize_signed pb msg;
                   proto_size = of_nat (length raw_proto) :: u32
               in if unat proto_size = length raw_proto
                  then Inr (True, Some (le32_bytes proto_size @ raw_proto))
                  else Inl OutOfBounds)"

section \<open>Frames\<close>

definition frame :: "protobuf \<Rightarrow> SignedProtoMessage \<Rightarrow> string" where
  "frame pb msg = le32_bytes (of_nat (length (serialize_signed pb msg))) @ serialize_signed pb msg"

definition forwarded :: "u16 \<Rightarrow> SignedProtoMessage \<Rightarrow> SignedProtoMessage" where
  "forwarded machine_port msg = msg\<lparr>ttl := ttl msg - 1, last_forward_port := ucast machine_port\<rparr>"

lemma length_le32_bytes [simp]: "length (le32_bytes w) = 4"
  by (simp add: le32_bytes_def Let_def)

lemma base256:
  "n < 256 ^ 4 \<Longrightarrow>
     n mod 256 + 256 * (n div 256 mod 256 + 256 * (n div 65536 mod 256 + 256 * (n div 16777216 mod 256))) = (n :: nat)"
proof -
  assume n: "n < 256 ^ 4"
  then have d: "n div 16777216 mod 256 = n div 16777216" by (simp add: less_mult_imp_div_less)
  have c: "n div 65536 mod 256 + 256 * (n div 16777216) = n div 65536"
    using mod_mult_div_eq [of "n div 65536" 256] by (simp add: div_mult2_eq [symmetric])
  have b: "n div 256 mod 256 + 256 * (n div 65536) = n div 256"
    using mod_mult_div_eq [of "n div 256" 256] by (simp add: div_mult2_eq [symmetric])
  show ?thesis unfolding d c b by (rule mod_mult_div_eq)
qed

lemma le32_round_trip [simp]: "le32_value (le32_bytes w) = w"
proof -
  have w: "unat w < 256 ^ 4" using unsigned_less [of w, where ?'a = nat] by simp
  then have "unat w div 16777216 mod 256 = unat w div 16777216"
    by (simp add: less_mult_imp_div_less)
  with base256 [OF w] show ?thesis
    by (simp add: le32_value_def le32_bytes_def Let_def del: of_nat_add of_nat_mult)
qed

section \<open>A codec\<close>

text \<open>
  A serialization that satisfies \<open>codec_documented\<close>: fields in order, numbers in unary, strings
  after their length.
\<close>

fun put_algorithm :: "ProtoSignAlgorithm \<Rightarrow> string" where
  "put_algorithm SHA_256 = put_nat 0"
| "put_algorithm (UnknownAlgorithm i) = put_nat 1 @ put_int i"

definition get_algorithm :: "string \<Rightarrow> ProtoSignAlgorithm" where
  "get_algorithm s = (let (n, r) = get_nat s in if n = 0 then SHA_256 else UnknownAlgorithm (fst (get_int r)))"

lemma get_put_algorithm [simp]: "get_algorithm (put_algorithm a) = a"
  using get_put(1) [of 0 "[]"] get_put(3) [where r = "[]"]
  by (cases a) (simp_all add: get_algorithm_def)

definition plain_pb :: protobuf where
  "plain_pb =
     \<lparr>parse_signed = (\<lambda>t0. let (a, t1) = get_str t0; (b, t2) = get_str t1; (p, t3) = get_nat t2;
          (l, t4) = get_nat t3; (c, t5) = get_str t4; (d, t6) = get_str t5
        in (True, \<lparr>sender = a, receiver = b, last_forward_port = of_nat p, ttl = of_nat l,
             signature = c, signed_payload = d, sign_algorithm = get_algorithm t6\<rparr>)),
      serialize_signed = (\<lambda>m. put_str (sender m) @ put_str (receiver m) @
        put_nat (unat (last_forward_port m)) @ put_nat (unat (ttl m)) @ put_str (signature m) @
        put_str (signed_payload m) @ put_algorithm (sign_algorithm m)),
      parse_proto = (\<lambda>t0. let (a, t1) = get_str t0; (b, t2) = get_str t1; (i, t3) = get_int t2;
          (c, t4) = get_str t3
        in \<lparr>pm_sender = a, pm_receiver = b, pm_packet_type = i, pm_payload = c\<rparr>),
      serialize_proto = (\<lambda>m. put_str (pm_sender m) @ put_str (pm_receiver m) @
        put_int (pm_packet_type m) @ put_str (pm_payload m)),
      unpack_hello = (\<lambda>t0. let (a, t1) = get_str t0; (b, t2) = get_str t1; (c, t3) = get_str t2
        in \<lparr>sender_id = a, verified_msg = b, x509_certificate = c\<rparr>)\<rparr>"

lemma plain_pb_documented: "codec_documented plain_pb"
proof -
  have "get_str (put_str s) = (s, [])" for s using get_put(2) [of s "[]"] by simp
  then show ?thesis by (simp add: codec_documented_def plain_pb_def)
qed

end
