(* ===== verification/Fifo_Cache.thy ===== *)
theory Fifo_Cache
  imports P2P_Prelude
begin

text \<open>
  The duplicate filter of the packet server, \<open>daemon/utils/data_struct/fifo_cache.h\<close>: a
  \<open>std::list\<close> in arrival order and a set of the same ids. The constructor fills the list with
  \<open>cache_size\<close> default-constructed values while the set starts empty. The interface that the
  packet server relies on is the locale \<open>fifo_window\<close>: a window of the ids accepted last.
\<close>

section \<open>The code\<close>

record 'a FIFOCache =
  max_cache_size :: nat
  cache :: "'a list"
  cache_map :: "'a set"

text \<open>\<open>dflt\<close> is the value \<open>T()\<close> that \<open>std::list<T>(n)\<close> stores \<open>n\<close> times.\<close>

definition FIFOCache_new :: "'a \<Rightarrow> nat \<Rightarrow> 'a FIFOCache" where
  "FIFOCache_new dflt cache_size =
     \<lparr>max_cache_size = cache_size, cache = replicate cache_size dflt, cache_map = {}\<rparr>"

text \<open>\<open>front()\<close> and \<open>pop_front()\<close> of an empty list are undefined.\<close>

definition is_cached :: "'a \<Rightarrow> 'a FIFOCache \<Rightarrow> (bool \<times> 'a FIFOCache) result" where
  "is_cached packet_id c =
     (if packet_id \<notin> cache_map c then
        bind_result
          (if length (cache c) = max_cache_size c
           then (case cache c of
                   [] \<Rightarrow> Inl OutOfBounds
                 | front # rest \<Rightarrow> Inr (c\<lparr>cache := rest, cache_map := cache_map c - {front}\<rparr>))
           else Inr c)
          (\<lambda>c. Inr (False, c\<lparr>cache_map := insert packet_id (cache_map c),
                             cache := cache c @ [packet_id]\<rparr>))
      else Inr (True, c))"

section \<open>The window interface\<close>

definition lastn :: "nat \<Rightarrow> 'a list \<Rightarrow> 'a list" where
  "lastn n xs = drop (length xs - n) xs"

text \<open>No element repeats within any \<open>n\<close> consecutive ones.\<close>

definition spaced :: "nat \<Rightarrow> 'a list \<Rightarrow> bool" where
  "spaced n xs \<longleftrightarrow> (\<forall>i. distinct (take n (drop i xs)))"

text \<open>The ids for which a filter answers \<open>false\<close>, in order: those the server goes on to handle.\<close>

fun run_filter :: "('a \<Rightarrow> 's \<Rightarrow> (bool \<times> 's) result) \<Rightarrow> 'a list \<Rightarrow> 's \<Rightarrow> ('a list \<times> 's) result" where
  "run_filter f [] s = Inr ([], s)"
| "run_filter f (x # xs) s =
     bind_result (f x s) (\<lambda>(hit, s').
       bind_result (run_filter f xs s') (\<lambda>(acc, s''). Inr ((if hit then acc else x # acc), s'')))"

lemma lastn_snoc: "0 < n \<Longrightarrow> lastn n (xs @ [x]) = lastn (n - 1) xs @ [x]"
  by (cases n) (auto simp: lastn_def Suc_diff_le)

lemma lastn_lastn_append: "lastn n (lastn n xs @ ys) = lastn n (xs @ ys)"
proof (cases "length xs \<le> n")
  case False
  then show ?thesis by (simp add: lastn_def) (metis add.commute)
qed (simp add: lastn_def)

lemma lastn_all: "length xs \<le> n \<Longrightarrow> lastn n xs = xs"
  by (simp add: lastn_def)

lemma length_lastn [simp]: "length (lastn n xs) = min n (length xs)"
  by (simp add: lastn_def)

lemma spaced_snoc:
  assumes "spaced n xs" and "x \<notin> set (lastn n xs)"
  shows "spaced n (xs @ [x])"
  unfolding spaced_def
proof
  fix i
  have *: "distinct (take n (drop i xs))" using assms by (simp add: spaced_def)
  show "distinct (take n (drop i (xs @ [x])))"
  proof (cases "i \<le> length xs \<and> length xs - i < n")
    case True
    then have "length xs - n \<le> i" by auto
    then have "set (drop i xs) \<subseteq> set (lastn n xs)"
      unfolding lastn_def by (rule set_drop_subset_set_drop)
    with True * assms(2) show ?thesis by auto
  next
    case False
    with * show ?thesis by (auto simp: not_less)
  qed
qed

lemma spaced_distinct: "distinct xs \<Longrightarrow> spaced n xs"
  by (simp add: spaced_def)

lemma spaced_drop: "spaced n (xs @ ys) \<Longrightarrow> spaced n ys"
  unfolding spaced_def
  by (metis append_Nil drop_all drop_append diff_add_inverse2 le_add2)

locale fifo_window =
  fixes step :: "'a \<Rightarrow> 's \<Rightarrow> (bool \<times> 's) result"
    and window :: "'s \<Rightarrow> 'a list"
    and valid :: "'s \<Rightarrow> bool"
    and admissible :: "'a \<Rightarrow> bool"
    and capacity :: nat
  assumes hit: "valid s \<Longrightarrow> x \<in> set (window s) \<Longrightarrow> step x s = Inr (True, s)"
    and miss: "valid s \<Longrightarrow> admissible x \<Longrightarrow> x \<notin> set (window s) \<Longrightarrow>
      \<exists>s'. step x s = Inr (False, s') \<and> valid s' \<and> window s' = lastn capacity (window s @ [x])"
    and window_distinct: "valid s \<Longrightarrow> distinct (window s)"
    and window_bounded: "valid s \<Longrightarrow> length (window s) \<le> capacity"
begin

lemma run_window:
  assumes "valid s" and "list_all admissible xs" and "spaced capacity ys"
    and "window s = lastn capacity ys"
  shows "\<exists>acc s'. run_filter step xs s = Inr (acc, s') \<and> valid s' \<and>
     window s' = lastn capacity (ys @ acc) \<and> spaced capacity (ys @ acc) \<and>
     set xs \<subseteq> set ys \<union> set acc \<and> set acc \<subseteq> set xs"
  using assms
proof (induction xs arbitrary: s ys)
  case Nil
  then show ?case by simp
next
  case (Cons x xs)
  show ?case
  proof (cases "x \<in> set (window s)")
    case True
    then have "x \<in> set ys"
      using Cons.prems(4) by (auto simp: lastn_def dest: in_set_dropD)
    with True Cons.IH [OF Cons.prems(1) _ Cons.prems(3,4)] Cons.prems show ?thesis
      by (auto simp: hit)
  next
    case False
    then obtain s' where s': "step x s = Inr (False, s')" "valid s'"
        "window s' = lastn capacity (window s @ [x])"
      using miss Cons.prems by fastforce
    have "spaced capacity (ys @ [x])"
      using False Cons.prems by (auto intro!: spaced_snoc)
    moreover have "window s' = lastn capacity (ys @ [x])"
      using s' Cons.prems by (simp add: lastn_lastn_append)
    ultimately obtain acc s'' where "run_filter step xs s' = Inr (acc, s'')" "valid s''"
        "window s'' = lastn capacity ((ys @ [x]) @ acc)" "spaced capacity ((ys @ [x]) @ acc)"
        "set xs \<subseteq> set (ys @ [x]) \<union> set acc" "set acc \<subseteq> set xs"
      using Cons.IH [of s' "ys @ [x]"] Cons.prems s' by auto
    with s' show ?thesis by auto
  qed
qed

lemma run_from_empty:
  assumes "valid s" "window s = []" "list_all admissible xs"
  shows "\<exists>acc s'. run_filter step xs s = Inr (acc, s') \<and> valid s' \<and>
     window s' = lastn capacity acc \<and> spaced capacity acc \<and> set acc = set xs"
  using run_window [of s xs "[]"] assms by (auto simp: lastn_def spaced_def)

end

section \<open>The cache is such a window\<close>

text \<open>
  The placeholders are at the front of the list, followed by the window; the set holds the window.
\<close>

definition cache_window :: "'a \<Rightarrow> 'a FIFOCache \<Rightarrow> 'a list" where
  "cache_window dflt c = dropWhile ((=) dflt) (cache c)"

definition cache_inv :: "'a \<Rightarrow> nat \<Rightarrow> 'a FIFOCache \<Rightarrow> bool" where
  "cache_inv dflt n c \<longleftrightarrow>
     max_cache_size c = n \<and> length (cache c) = n \<and> distinct (cache_window dflt c) \<and>
     dflt \<notin> set (cache_window dflt c) \<and> cache_map c = set (cache_window dflt c)"

lemma cache_inv_new: "cache_inv dflt n (FIFOCache_new dflt n)"
  and cache_window_new [simp]: "cache_window dflt (FIFOCache_new dflt n) = []"
  by (auto simp: cache_inv_def cache_window_def FIFOCache_new_def)

lemma is_cached_hit: "cache_inv dflt n c \<Longrightarrow> x \<in> set (cache_window dflt c) \<Longrightarrow>
    is_cached x c = Inr (True, c)"
  by (simp add: is_cached_def cache_inv_def)

lemma is_cached_miss:
  assumes "cache_inv dflt n c" and "0 < n" and "x \<noteq> dflt" and "x \<notin> set (cache_window dflt c)"
  shows "\<exists>c'. is_cached x c = Inr (False, c') \<and> cache_inv dflt n c' \<and>
    cache_window dflt c' = lastn n (cache_window dflt c @ [x])"
proof -
  obtain front rest where c: "cache c = front # rest"
    using assms by (cases "cache c") (auto simp: cache_inv_def)
  let ?c = "c\<lparr>cache := rest @ [x], cache_map := insert x (cache_map c - {front})\<rparr>"
  have ret: "is_cached x c = Inr (False, ?c)"
    using assms c by (simp add: is_cached_def cache_inv_def)
  have len: "length (cache_window dflt c) \<le> n"
    using assms length_dropWhile_le [of "(=) dflt" "cache c"] by (simp add: cache_window_def cache_inv_def)
  show ?thesis
  proof (cases "front = dflt")
    case True
    then have w: "cache_window dflt c = dropWhile ((=) dflt) rest" and "length rest < n"
      using c assms by (auto simp: cache_window_def cache_inv_def)
    then have "length (cache_window dflt c @ [x]) \<le> n"
      using length_dropWhile_le [of "(=) dflt" rest] by simp
    moreover have "cache_window dflt ?c = cache_window dflt c @ [x]"
      using w assms by (auto simp: cache_window_def dropWhile_append3 dropWhile_append)
    ultimately show ?thesis using ret assms c True
      by (auto simp: lastn_all cache_inv_def)
  next
    case False
    then have w: "cache_window dflt c = front # rest" using c by (simp add: cache_window_def)
    then have "dropWhile ((=) dflt) (rest @ [x]) = rest @ [x]"
      using assms by (cases rest) (auto simp: cache_inv_def)
    then have "cache_window dflt ?c = rest @ [x]" by (simp add: cache_window_def)
    then show ?thesis using ret assms c w
      by (auto simp: lastn_def cache_inv_def)
  qed
qed

text \<open>
  \<open>is_cached\<close> provides the window interface for every positive size, on ids other than the
  placeholder.
\<close>

interpretation packet_cache: fifo_window is_cached "cache_window dflt" "cache_inv dflt (Suc n)"
    "\<lambda>x. x \<noteq> dflt" "Suc n" for dflt :: 'a and n
proof unfold_locales
  fix s :: "'a FIFOCache" and x
  assume inv: "cache_inv dflt (Suc n) s"
  show "x \<in> set (cache_window dflt s) \<Longrightarrow> is_cached x s = Inr (True, s)"
    by (rule is_cached_hit [OF inv])
  show "x \<noteq> dflt \<Longrightarrow> x \<notin> set (cache_window dflt s) \<Longrightarrow>
      \<exists>s'. is_cached x s = Inr (False, s') \<and> cache_inv dflt (Suc n) s' \<and>
        cache_window dflt s' = lastn (Suc n) (cache_window dflt s @ [x])"
    by (rule is_cached_miss [OF inv]) simp_all
  show "distinct (cache_window dflt s)" "length (cache_window dflt s) \<le> Suc n"
    using inv length_dropWhile_le [of "(=) dflt" "cache s"]
    by (auto simp: cache_inv_def cache_window_def)
qed

text \<open>
  C19. A cache of positive size, run on any sequence of ids other than the placeholder, never
  fails; every id is accepted at least once, no id is accepted twice within any \<open>n\<close>
  consecutive acceptances, and the set holds exactly the \<open>n\<close> ids accepted last.
\<close>

theorem fifo_cache_filters_duplicates:
  assumes "0 < n" and "list_all (\<lambda>x. x \<noteq> dflt) xs"
  shows "\<exists>acc c. run_filter is_cached xs (FIFOCache_new dflt n) = Inr (acc, c) \<and>
     set acc = set xs \<and> spaced n acc \<and> cache_map c = set (lastn n acc)"
proof -
  obtain m where n: "n = Suc m" using assms by (cases n) auto
  from packet_cache.run_from_empty [OF cache_inv_new cache_window_new assms(2), of m]
  show ?thesis unfolding n by (auto simp: cache_inv_def)
qed

theorem fifo_cache_filters_duplicates_witness:
  "\<exists>acc c. run_filter is_cached [''a'', ''b'', ''a'', ''c'', ''a''] (FIFOCache_new [] 2) = Inr (acc, c) \<and>
     set acc = set [''a'', ''b'', ''a'', ''c'', ''a''] \<and> spaced 2 acc \<and> cache_map c = set (lastn 2 acc)"
  by (rule fifo_cache_filters_duplicates) simp_all

text \<open>The boundaries of the cache: with size 0 the first query takes the front of an empty list,
  and the placeholder id (the empty string) is forgotten as soon as another id evicts one of the
  placeholders the constructor stored, so it is accepted again although the cache is not full.
\<close>

theorem fifo_cache_boundary:
  "is_cached x (FIFOCache_new dflt 0) = Inl OutOfBounds \<and>
   map_sum id fst (run_filter is_cached [dflt, x, dflt] (FIFOCache_new dflt (Suc (Suc n)))) =
     Inr (if x = dflt then [dflt] else [dflt, x, dflt])"
  by (cases n) (simp_all add: is_cached_def FIFOCache_new_def)

end
