(* ===== verification/Instance_Pool.thy ===== *)
theory Instance_Pool
  imports P2P_Prelude
begin

text \<open>
  The pool of known peers, \<open>daemon/utils/data_struct/instance_pool.h\<close>: a map from keys to shared
  pointers (\<open>None\<close> is \<open>nullptr\<close>) in which an entry, once made, is never replaced. That contract is
  the locale \<open>insert_once\<close>; the pool and the routing table both provide it. Each operation holds
  the pool's lock from its first to its last access, so it is one atomic step.
\<close>

section \<open>The code\<close>

record ('k, 'i) InstancePool =
  instance_pool :: "'k \<rightharpoonup> 'i option"

definition empty_pool :: "('k, 'i) InstancePool" where
  "empty_pool = \<lparr>instance_pool = Map.empty\<rparr>"

definition add_instance ::
    "'k \<Rightarrow> 'i option \<Rightarrow> ('k, 'i) InstancePool \<Rightarrow> bool \<times> ('k, 'i) InstancePool" where
  "add_instance key inst pool =
     (if instance_pool pool key = None
      then (True, pool\<lparr>instance_pool := (instance_pool pool)(key \<mapsto> inst)\<rparr>)
      else (False, pool))"

definition get_instance :: "'k \<Rightarrow> ('k, 'i) InstancePool \<Rightarrow> 'i option" where
  "get_instance key pool =
     (case instance_pool pool key of None \<Rightarrow> None | Some inst \<Rightarrow> inst)"

section \<open>Insertion without replacement\<close>

fun run_adds :: "('k \<Rightarrow> 'v \<Rightarrow> 's \<Rightarrow> bool \<times> 's) \<Rightarrow> ('k \<times> 'v) list \<Rightarrow> 's \<Rightarrow> bool list \<times> 's" where
  "run_adds add [] s = ([], s)"
| "run_adds add ((k, v) # kvs) s =
     (let (added, s') = add k v s; (rest, s'') = run_adds add kvs s' in (added # rest, s''))"

locale insert_once =
  fixes add :: "'k \<Rightarrow> 'v \<Rightarrow> 's \<Rightarrow> bool \<times> 's"
    and entry :: "'s \<Rightarrow> 'k \<rightharpoonup> 'w"
    and stored :: "'v \<Rightarrow> 'w"
  assumes add_result: "fst (add k v s) \<longleftrightarrow> entry s k = None"
    and add_fresh: "entry s k = None \<Longrightarrow> entry (snd (add k v s)) = (entry s)(k \<mapsto> stored v)"
    and add_present: "entry s k \<noteq> None \<Longrightarrow> entry (snd (add k v s)) = entry s"
begin

lemma entry_add: "entry (snd (add k v s)) j =
    (if j = k then Some (case entry s k of None \<Rightarrow> stored v | Some w \<Rightarrow> w) else entry s j)"
  by (cases "entry s k") (auto simp: add_fresh add_present)

lemma entry_run_adds:
  "entry (snd (run_adds add kvs s)) =
     map_of (map (\<lambda>(k, v). (k, stored v)) kvs) ++ entry s"
proof (induction kvs arbitrary: s)
  case (Cons kv kvs)
  obtain k v where kv: "kv = (k, v)" by (cases kv)
  show ?case
    by (rule ext)
      (auto simp: kv Cons.IH map_add_def entry_add split_beta Let_def split: option.splits)
qed simp

text \<open>The answers tell exactly which additions were the first for their key.\<close>

lemma run_adds_results:
  "fst (run_adds add kvs s) =
     map (\<lambda>i. entry s (fst (kvs ! i)) = None \<and> fst (kvs ! i) \<notin> fst ` set (take i kvs))
       [0..<length kvs]"
proof (induction kvs arbitrary: s)
  case (Cons kv kvs)
  obtain k v where kv: "kv = (k, v)" by (cases kv)
  have "[0..<length (kv # kvs)] = 0 # map Suc [0..<length kvs]"
    by (metis length_Cons map_Suc_upt upt_conv_Cons zero_less_Suc)
  then show ?case
    by (auto simp: kv Cons.IH add_result entry_add split_beta Let_def split: option.splits)
qed simp

end

interpretation peer_pool: insert_once add_instance instance_pool "\<lambda>v. v"
  by unfold_locales (auto simp: add_instance_def)

text \<open>After any sequence of additions to an empty pool \<open>get_instance\<close> returns the
  instance added first for the key, or \<open>nullptr\<close> when there was none, and
  \<open>add_instance\<close> answered true exactly for the first addition of each key.
\<close>

theorem instance_pool_first_wins:
  "get_instance key (snd (run_adds add_instance kvs empty_pool)) =
     (case map_of kvs key of None \<Rightarrow> None | Some inst \<Rightarrow> inst) \<and>
   fst (run_adds add_instance kvs empty_pool) =
     map (\<lambda>i. fst (kvs ! i) \<notin> fst ` set (take i kvs)) [0..<length kvs]"
  using peer_pool.entry_run_adds [of kvs empty_pool] peer_pool.run_adds_results [of kvs empty_pool]
  by (simp add: get_instance_def empty_pool_def)

end
