(* ===== verification/Routing_Table.thy ===== *)
theory Routing_Table
  imports Instance_Pool
begin

text \<open>
  The routing table, \<open>daemon/utils/data_struct/routing_table.h\<close>: destination ids to the next
  peer's address (a shared pointer, \<open>None\<close> for \<open>nullptr\<close>) and a time to live. Time-to-live
  arguments are \<open>int\<close> but are stored in, and compared as, \<open>uint32_t\<close>. First the operations as
  sequential functions, then threads that run them under the table's shared mutex as a step
  relation: a thread is outside, inside a shared section, between the two locks of
  \<open>try_update_table\<close>, inside its exclusive section, or finished.
\<close>

section \<open>The code\<close>

type_synonym 'ip route = "'ip option \<times> u32"

record 'ip RoutingTable =
  routing_map :: "string \<rightharpoonup> 'ip route"

definition empty_table :: "'ip RoutingTable" where
  "empty_table = \<lparr>routing_map = Map.empty\<rparr>"

text \<open>\<open>find(dest)->second\<close> on an absent destination dereferences \<open>end()\<close>.\<close>

definition get_next_peer :: "string \<Rightarrow> 'ip RoutingTable \<Rightarrow> 'ip option result" where
  "get_next_peer dest tab =
     (case routing_map tab dest of None \<Rightarrow> Inl OutOfBounds | Some (ip, ttl) \<Rightarrow> Inr ip)"

definition can_delivered :: "string \<Rightarrow> 'ip RoutingTable \<Rightarrow> bool" where
  "can_delivered dest tab \<longleftrightarrow> routing_map tab dest \<noteq> None"

text \<open>
  The answer of \<open>add_new_route\<close>; \<open>verbose\<close> is \<open>VLOG_IS_ON(3)\<close>, under which the log line
  dereferences \<open>new_ip\<close> after the insertion.
\<close>

definition insert_route :: "string \<Rightarrow> 'ip route \<Rightarrow> 'ip RoutingTable \<Rightarrow> bool \<times> 'ip RoutingTable" where
  "insert_route dest route tab =
     (if routing_map tab dest = None
      then (True, tab\<lparr>routing_map := (routing_map tab)(dest \<mapsto> route)\<rparr>)
      else (False, tab))"

definition add_new_route ::
    "bool \<Rightarrow> string \<Rightarrow> 'ip option \<Rightarrow> u32 \<Rightarrow> 'ip RoutingTable \<Rightarrow> bool result \<times> 'ip RoutingTable" where
  "add_new_route verbose dest new_ip new_ttl tab =
     (case insert_route dest (new_ip, new_ttl) tab of
        (added, tab') \<Rightarrow>
          ((if added \<and> verbose \<and> new_ip = None then Inl NullDeref else Inr added), tab'))"

text \<open>
  \<open>try_update_table\<close> checks under the shared lock (\<open>None\<close>: go on and take the exclusive lock),
  then checks again under the exclusive lock and writes.
\<close>

definition update_check :: "string \<Rightarrow> u32 \<Rightarrow> 'ip RoutingTable \<Rightarrow> bool option" where
  "update_check dest new_ttl tab =
     (case routing_map tab dest of
        None \<Rightarrow> Some False
      | Some (ip, ttl) \<Rightarrow> if ttl > new_ttl then None else Some False)"

definition update_write ::
    "string \<Rightarrow> 'ip option \<Rightarrow> u32 \<Rightarrow> 'ip RoutingTable \<Rightarrow> bool \<times> 'ip RoutingTable" where
  "update_write dest new_ip new_ttl tab =
     (case routing_map tab dest of
        None \<Rightarrow> (False, tab)
      | Some (ip, ttl) \<Rightarrow>
          if ttl > new_ttl
          then (True, tab\<lparr>routing_map := (routing_map tab)(dest \<mapsto> (new_ip, new_ttl))\<rparr>)
          else (False, tab))"

definition try_update_table ::
    "string \<Rightarrow> 'ip option \<Rightarrow> u32 \<Rightarrow> 'ip RoutingTable \<Rightarrow> bool \<times> 'ip RoutingTable" where
  "try_update_table dest new_ip new_ttl tab =
     (case update_check dest new_ttl tab of
        Some answer \<Rightarrow> (answer, tab)
      | None \<Rightarrow> update_write dest new_ip new_ttl tab)"

definition get_routing_table :: "'ip RoutingTable \<Rightarrow> string \<rightharpoonup> 'ip route" where
  "get_routing_table tab = routing_map tab"

section \<open>Threads\<close>

datatype 'ip op =
    GetNextPeer string
  | CanDelivered string
  | AddNewRoute string "'ip option" u32
  | TryUpdateTable string "'ip option" u32

datatype 'ip answer = Peer "'ip option result" | Answer "bool result"

datatype 'ip pc =
    Ready "'ip op"
  | InShared "'ip op"
  | Upgrading string "'ip option" u32
  | InExclusive string "'ip option" u32
  | Finished "'ip op" "'ip answer"

fun in_shared :: "'ip pc \<Rightarrow> bool" where
  "in_shared (InShared oper) = True"
| "in_shared _ = False"

fun in_exclusive :: "'ip pc \<Rightarrow> bool" where
  "in_exclusive (InExclusive dest ip ttl) = True"
| "in_exclusive _ = False"

text \<open>The shared section of each operation: the thread's next point, and the table.\<close>

fun shared_section :: "bool \<Rightarrow> 'ip op \<Rightarrow> 'ip RoutingTable \<Rightarrow> 'ip pc \<times> 'ip RoutingTable" where
  "shared_section verbose (GetNextPeer dest) tab =
     (Finished (GetNextPeer dest) (Peer (get_next_peer dest tab)), tab)"
| "shared_section verbose (CanDelivered dest) tab =
     (Finished (CanDelivered dest) (Answer (Inr (can_delivered dest tab))), tab)"
| "shared_section verbose (AddNewRoute dest ip ttl) tab =
     (case add_new_route verbose dest ip ttl tab of
        (r, tab') \<Rightarrow> (Finished (AddNewRoute dest ip ttl) (Answer r), tab'))"
| "shared_section verbose (TryUpdateTable dest ip ttl) tab =
     (case update_check dest ttl tab of
        Some r \<Rightarrow> (Finished (TryUpdateTable dest ip ttl) (Answer (Inr r)), tab)
      | None \<Rightarrow> (Upgrading dest ip ttl, tab))"

type_synonym 'ip config = "(nat \<Rightarrow> 'ip pc) \<times> 'ip RoutingTable"

inductive table_step :: "bool \<Rightarrow> 'ip config \<Rightarrow> 'ip config \<Rightarrow> bool" for verbose where
  lock_shared:
    "pcs t = Ready oper \<Longrightarrow> (\<forall>u. \<not> in_exclusive (pcs u)) \<Longrightarrow>
     table_step verbose (pcs, tab) (pcs(t := InShared oper), tab)"
| unlock_shared:
    "pcs t = InShared oper \<Longrightarrow> shared_section verbose oper tab = (pc', tab') \<Longrightarrow>
     table_step verbose (pcs, tab) (pcs(t := pc'), tab')"
| lock_exclusive:
    "pcs t = Upgrading dest ip ttl \<Longrightarrow> (\<forall>u. \<not> in_shared (pcs u) \<and> \<not> in_exclusive (pcs u)) \<Longrightarrow>
     table_step verbose (pcs, tab) (pcs(t := InExclusive dest ip ttl), tab)"
| unlock_exclusive:
    "pcs t = InExclusive dest ip ttl \<Longrightarrow> update_write dest ip ttl tab = (r, tab') \<Longrightarrow>
     table_step verbose (pcs, tab)
       (pcs(t := Finished (TryUpdateTable dest ip ttl) (Answer (Inr r))), tab')"

inductive table_run :: "bool \<Rightarrow> 'ip config \<Rightarrow> 'ip config \<Rightarrow> bool" for verbose where
  run_refl: "table_run verbose c c"
| run_step: "table_run verbose c c' \<Longrightarrow> table_step verbose c' c'' \<Longrightarrow> table_run verbose c c''"

section \<open>One thread\<close>

interpretation routes: insert_once insert_route routing_map "\<lambda>r. r"
  by unfold_locales (auto simp: insert_route_def)

lemmas table_ops = get_next_peer_def can_delivered_def insert_route_def add_new_route_def
  update_check_def update_write_def

definition ttl_of :: "'ip RoutingTable \<Rightarrow> string \<Rightarrow> u32 option" where
  "ttl_of tab dest = map_option snd (routing_map tab dest)"

text \<open>Every entry stays, and its time to live never grows.\<close>

definition improves :: "'ip RoutingTable \<Rightarrow> 'ip RoutingTable \<Rightarrow> bool" where
  "improves tab tab' \<longleftrightarrow>
     (\<forall>dest r. routing_map tab dest = Some r \<longrightarrow>
        (\<exists>r'. routing_map tab' dest = Some r' \<and> snd r' \<le> snd r))"

lemma improves_refl [simp, intro]: "improves tab tab"
  by (simp add: improves_def)

lemma improves_trans: "improves a b \<Longrightarrow> improves b c \<Longrightarrow> improves a c"
  unfolding improves_def by (meson order_trans)

lemma improves_shared: "shared_section verbose oper tab = (pc', tab') \<Longrightarrow> improves tab tab'"
  by (cases oper) (auto simp: improves_def table_ops split: if_splits option.splits)

lemma improves_write: "update_write dest ip ttl tab = (r, tab') \<Longrightarrow> improves tab tab'"
  by (auto simp: improves_def update_write_def less_imp_le split: if_splits option.splits)

lemma update_write_bound:
  "update_write dest ip ttl tab = (r, tab') \<Longrightarrow> routing_map tab dest = Some r0 \<Longrightarrow>
     \<exists>r'. routing_map tab' dest = Some r' \<and> snd r' \<le> ttl"
  by (cases r0) (auto simp: update_write_def split: if_splits)

text \<open>Run by one thread, the check under the shared lock and the second check under the
  exclusive lock amount to one comparison: a known route is replaced, and the answer is true,
  exactly when the new time to live is smaller as an unsigned number; an unknown destination is
  left unknown.
\<close>

theorem try_update_table_sequential:
  "try_update_table dest ip ttl tab =
     (case routing_map tab dest of
        None \<Rightarrow> (False, tab)
      | Some (old_ip, old_ttl) \<Rightarrow>
          (ttl < old_ttl, if ttl < old_ttl
             then tab\<lparr>routing_map := (routing_map tab)(dest \<mapsto> (ip, ttl))\<rparr> else tab))"
  by (auto simp: try_update_table_def update_check_def update_write_def split: option.splits)

section \<open>Many threads\<close>

text \<open>An exclusive section excludes every other section.\<close>

definition exclusion :: "'ip config \<Rightarrow> bool" where
  "exclusion c \<longleftrightarrow>
     (\<forall>t u. in_exclusive (fst c t) \<longrightarrow> t \<noteq> u \<longrightarrow> \<not> in_shared (fst c u) \<and> \<not> in_exclusive (fst c u))"

lemma shared_section_pc:
  "shared_section verbose oper tab = (pc', tab') \<Longrightarrow> \<not> in_shared pc' \<and> \<not> in_exclusive pc'"
  by (cases oper) (auto split: option.splits prod.splits)

lemma exclusion_step: "table_step verbose c c' \<Longrightarrow> exclusion c \<Longrightarrow> exclusion c'"
  by (induction rule: table_step.induct) (auto simp: exclusion_def dest!: shared_section_pc)

lemma improves_step: "table_step verbose c c' \<Longrightarrow> improves (snd c) (snd c')"
  by (induction rule: table_step.induct) (auto dest: improves_shared improves_write)

lemma improves_run: "table_run verbose c c' \<Longrightarrow> improves (snd c) (snd c')"
  by (induction rule: table_run.induct) (auto intro: improves_trans dest: improves_step)

text \<open>
  Every update that has finished is a bound on the route, for the destinations the table knew at
  the start.
\<close>

definition bounded_by_finished :: "string \<Rightarrow> 'ip config \<Rightarrow> bool" where
  "bounded_by_finished dest c \<longleftrightarrow>
     (\<forall>t ip ttl a. fst c t = Finished (TryUpdateTable dest ip ttl) a \<longrightarrow>
        (\<exists>r. routing_map (snd c) dest = Some r \<and> snd r \<le> ttl))"

lemma shared_section_bound:
  "shared_section verbose oper tab = (Finished (TryUpdateTable dest ip ttl) a, tab') \<Longrightarrow>
     routing_map tab dest = Some r \<Longrightarrow> \<exists>r. routing_map tab' dest = Some r \<and> snd r \<le> ttl"
  by (cases oper) (auto simp: update_check_def split: option.splits prod.splits if_splits)

lemma bounded_step:
  assumes "table_step verbose c c'" and "routing_map (snd c) dest = Some r"
    and "bounded_by_finished dest c"
  shows "bounded_by_finished dest c'"
proof -
  have mono: "\<exists>r. routing_map (snd c') dest = Some r \<and> snd r \<le> ttl"
    if "\<exists>r. routing_map (snd c) dest = Some r \<and> snd r \<le> ttl" for ttl
    using improves_step [OF assms(1)] that unfolding improves_def by (meson order_trans)
  from assms(1) show ?thesis
  proof cases
    case (lock_shared pcs t oper tab)
    with assms(3) show ?thesis by (auto simp: bounded_by_finished_def)
  next
    case (unlock_shared pcs t oper tab pc' tab')
    then show ?thesis
      using assms mono
      by (cases r) (auto simp: bounded_by_finished_def dest: shared_section_bound)
  next
    case (lock_exclusive pcs t dest' ip ttl tab)
    with assms(3) show ?thesis by (auto simp: bounded_by_finished_def)
  next
    case (unlock_exclusive pcs t dest' ip ttl tab a tab')
    then show ?thesis
      using assms mono
      by (cases r) (auto simp: bounded_by_finished_def dest: update_write_bound)
  qed
qed

lemma bounded_run:
  "table_run verbose c c' \<Longrightarrow> routing_map (snd c) dest \<noteq> None \<Longrightarrow> bounded_by_finished dest c \<Longrightarrow>
     bounded_by_finished dest c'"
proof (induction rule: table_run.induct)
  case (run_step c c' c'')
  obtain r where "routing_map (snd c') dest = Some r"
    using improves_run [OF run_step.hyps(1)] run_step.prems unfolding improves_def by blast
  with run_step show ?case by (auto intro: bounded_step)
qed


text \<open>A thread that meets no other one runs the sequential function.\<close>

lemma thread_alone:
  assumes "pcs t = Ready (TryUpdateTable dest ip ttl)"
    and free: "\<forall>u. \<not> in_shared (pcs u) \<and> \<not> in_exclusive (pcs u)"
    and seq: "try_update_table dest ip ttl tab = (r, tab')"
  shows "table_run verbose (pcs, tab)
    (pcs(t := Finished (TryUpdateTable dest ip ttl) (Answer (Inr r))), tab')"
proof -
  let ?op = "TryUpdateTable dest ip ttl"
  have enter: "table_run verbose (pcs, tab) (pcs(t := InShared ?op), tab)"
    by (rule run_step [OF run_refl lock_shared]) (use assms(1) free in simp_all)
  show ?thesis
  proof (cases "update_check dest ttl tab")
    case (Some answer)
    with seq have "r = answer" "tab' = tab" by (simp_all add: try_update_table_def)
    with Some run_step [OF enter unlock_shared [of _ t ?op]] show ?thesis by simp
  next
    case None
    with run_step [OF enter unlock_shared [of _ t ?op]]
    have "table_run verbose (pcs, tab) (pcs(t := Upgrading dest ip ttl), tab)" by simp
    from run_step [OF this lock_exclusive [of _ t dest ip ttl]] free
    have "table_run verbose (pcs, tab) (pcs(t := InExclusive dest ip ttl), tab)" by simp
    from run_step [OF this unlock_exclusive [of _ t dest ip ttl tab r tab']] None seq
    show ?thesis by (simp add: try_update_table_def)
  qed
qed


section \<open>Data races\<close>

text \<open>Two threads inside their sections, one of them with access to write the table.\<close>

fun writes_table :: "'ip pc \<Rightarrow> bool" where
  "writes_table (InShared (AddNewRoute dest ip ttl)) = True"
| "writes_table (InExclusive dest ip ttl) = True"
| "writes_table _ = False"

definition races :: "'ip config \<Rightarrow> bool" where
  "races c \<longleftrightarrow>
     (\<exists>t u. t \<noteq> u \<and> writes_table (fst c t) \<and> (in_shared (fst c u) \<or> in_exclusive (fst c u)))"

fun adds_route :: "'ip op \<Rightarrow> bool" where
  "adds_route (AddNewRoute dest ip ttl) = True"
| "adds_route _ = False"

definition no_adders :: "'ip config \<Rightarrow> bool" where
  "no_adders c \<longleftrightarrow>
     (\<forall>t oper. fst c t = Ready oper \<or> fst c t = InShared oper \<longrightarrow> \<not> adds_route oper)"

lemma shared_section_neither:
  "shared_section verbose oper tab = (pc', tab') \<Longrightarrow> pc' \<noteq> Ready o1 \<and> pc' \<noteq> InShared o2"
  by (cases oper) (auto split: option.splits prod.splits)

lemma no_adders_step: "table_step verbose c c' \<Longrightarrow> no_adders c \<Longrightarrow> no_adders c'"
  by (induction rule: table_step.induct) (auto simp: no_adders_def dest: shared_section_neither)

lemma run_invariant:
  "table_run verbose c c' \<Longrightarrow> exclusion c \<Longrightarrow> no_adders c \<Longrightarrow> exclusion c' \<and> no_adders c'"
  by (induction rule: table_run.induct) (auto dest: exclusion_step no_adders_step)

lemma no_race: "exclusion c \<Longrightarrow> no_adders c \<Longrightarrow> \<not> races c"
  unfolding races_def exclusion_def no_adders_def
  by (metis adds_route.simps(1) in_exclusive.simps(1) writes_table.elims(2))

lemma adder_races:
  assumes "adds_route (ops t)"
  shows "\<exists>c. table_run verbose (\<lambda>t. Ready (ops t), tab) c \<and> races c"
proof -
  let ?r = "\<lambda>t. Ready (ops t)" and ?u = "Suc t"
  have "table_run verbose (?r, tab) (?r(t := InShared (ops t)), tab)"
    by (rule run_step [OF run_refl lock_shared]) simp_all
  then have "table_run verbose (?r, tab) (?r(t := InShared (ops t), ?u := InShared (ops ?u)), tab)"
    by (rule run_step [OF _ lock_shared]) simp_all
  moreover have "races (?r(t := InShared (ops t), ?u := InShared (ops ?u)), tab)"
    unfolding races_def using assms
    by (intro exI [of _ t] exI [of _ ?u]) (auto elim!: adds_route.elims)
  ultimately show ?thesis by blast
qed


section \<open>Checked delivery\<close>

lemma get_next_peer_defined: "(\<exists>p. get_next_peer dest tab = Inr p) \<longleftrightarrow> can_delivered dest tab"
  by (auto simp: get_next_peer_def can_delivered_def split: option.splits)

lemma improves_can_delivered: "improves tab tab' \<Longrightarrow> can_delivered dest tab \<Longrightarrow> can_delivered dest tab'"
  unfolding improves_def can_delivered_def by blast

text \<open>A destination that \<open>can_delivered\<close> has reported stays deliverable: at every
  later point of every interleaving \<open>get_next_peer\<close> returns and does not
  dereference \<open>end()\<close>.
\<close>

theorem checked_delivery_is_safe:
  assumes "table_run verbose (pcs, tab) (pcs', tab')" and "can_delivered dest tab"
  shows "\<exists>peer. get_next_peer dest tab' = Inr peer"
  using improves_run [OF assms(1)] assms(2)
  by (simp add: get_next_peer_defined improves_can_delivered)

theorem checked_delivery_is_safe_witness:
  "\<exists>peer. get_next_peer ''peer'' \<lparr>routing_map = [''peer'' \<mapsto> (Some (1 :: nat), 2)]\<rparr> = Inr peer"
proof -
  let ?oper = "TryUpdateTable ''peer'' (Some (1 :: nat)) 2"
  let ?tab = "\<lparr>routing_map = [''peer'' \<mapsto> (Some 9, 7)]\<rparr>"
  have "table_run False (\<lambda>t. Ready ?oper, ?tab)
      ((\<lambda>t. Ready ?oper)(0 := Finished ?oper (Answer (Inr True))),
       \<lparr>routing_map = [''peer'' \<mapsto> (Some 1, 2)]\<rparr>)"
    by (rule thread_alone) (simp_all add: try_update_table_def update_check_def update_write_def)
  from checked_delivery_is_safe [OF this] show ?thesis by (simp add: can_delivered_def)
qed

end
