(* ===== verification/P2P_Server.thy ===== *)
theory P2P_Server
  imports Packet Fifo_Cache Routing_Table "HOL-Library.Multiset"
begin

text \<open>
  The packet server: \<open>daemon/p2p_server_context.cc\<close>, \<open>daemon/packet/packet_handler.cc\<close> and the
  hello handler \<open>daemon/packet/handler/hello_message.tcc\<close>. Its state has the routing table, the
  packet id cache, the pool of peer sessions and the tasks given to the thread pool. What other
  code provides is a parameter, the record \<open>env\<close>: the protobuf runtime, OpenSSL, the iteration
  order of \<open>std::unordered_map\<close>, \<open>package_pkg\<close> (declared in \<open>p2p_interface.h\<close>, defined nowhere)
  and the verbosity of the log.
\<close>

section \<open>The code\<close>

subsection \<open>State and environment\<close>

text \<open>
  A pointer to a socket address: to an object that lives, or to the local variable of a call that
  has returned.
\<close>

datatype sock_ptr = SockAddr sockaddr_in | DeadStack

datatype packet_task =
    SendTask u16 SignedProtoMessage "IPAddress option"
  | HandleTask SignedProtoMessage sock_ptr

record ('k, 'c) P2PServerContext =
  srv_device_id :: string
  srv_port :: u16
  srv_table :: "IPAddress RoutingTable"
  srv_cache :: "string FIFOCache"
  srv_peers :: "(string, ('k, 'c) PeerSession) InstancePool"
  srv_thread :: bool
  srv_tasks :: "packet_task list"

record ('k, 'c, 'cert) env =
  pb :: protobuf
  x509 :: "('cert, 'k) x509_lib"
  evp :: "('k, 'c) evp_lib"
  sign_init :: bool
  sign_update :: "string \<Rightarrow> bool"
  sign_size :: "string \<Rightarrow> bool"
  sign_final :: "string \<Rightarrow> string option"
  own_certificate :: "string option"
  package_pkg :: "ProtoHelloMessage \<Rightarrow> string \<Rightarrow> ProtoMessage"
  iteration :: "(string \<rightharpoonup> IPAddress route) \<Rightarrow> (string \<times> IPAddress route) list"
  vlog3 :: bool

definition submit :: "packet_task \<Rightarrow> ('k, 'c) P2PServerContext \<Rightarrow> ('k, 'c) P2PServerContext" where
  "submit task s = s\<lparr>srv_tasks := srv_tasks s @ [task]\<rparr>"

subsection \<open>Receiving\<close>

text \<open>The broadcast loop over the routing table.\<close>

fun broadcast :: "SignedProtoMessage \<Rightarrow> (string \<times> IPAddress route) list \<Rightarrow>
    ('k, 'c) P2PServerContext \<Rightarrow> ('k, 'c) P2PServerContext" where
  "broadcast signed_msg [] s = s"
| "broadcast signed_msg ((peer, ip, route_ttl) # nodes) s =
     broadcast signed_msg nodes (submit (SendTask (srv_port s) signed_msg ip) s)"

text \<open>What \<open>read_callback\<close> does with a message it has parsed.\<close>

definition dispatch :: "('k, 'c, 'cert) env \<Rightarrow> sock_ptr \<Rightarrow> SignedProtoMessage \<Rightarrow>
    ('k, 'c) P2PServerContext \<Rightarrow> ('k, 'c) P2PServerContext result" where
  "dispatch env sin signed_msg s =
     (if ttl signed_msg = 0 then Inr s
      else bind_result (is_cached (signature signed_msg) (srv_cache s)) (\<lambda>(hit, c).
        let s = s\<lparr>srv_cache := c\<rparr>
        in if hit then Inr s
           else if srv_device_id s \<noteq> receiver signed_msg then
             (if ttl signed_msg > 1 \<and> can_delivered (receiver signed_msg) (srv_table s)
              then bind_result (get_next_peer (receiver signed_msg) (srv_table s)) (\<lambda>ip.
                     Inr (submit (SendTask (srv_port s) signed_msg ip) s))
              else Inr (broadcast signed_msg (iteration env (get_routing_table (srv_table s))) s))
           else Inr (submit (HandleTask signed_msg sin) s)))"

text \<open>\<open>read_callback\<close> on the bytes in the input buffer, which it copies out and never removes.\<close>

definition read_callback :: "('k, 'c, 'cert) env \<Rightarrow> string \<Rightarrow> sock_ptr \<Rightarrow>
    ('k, 'c) P2PServerContext \<Rightarrow> ('k, 'c) P2PServerContext result" where
  "read_callback env buf sin s =
     (let recv_size = length buf
      in if recv_size < 4 then Inr s
         else let copied = take 4 buf
              in if length copied \<noteq> 4 then Inl (Fatal ''read data from evbuffer failed!'')
                 else let packet_len = unat (le32_value copied)
                      in if recv_size - 4 < packet_len then Inr s
                         else let (parsed, signed_msg) =
                                    parse_signed (pb env) (take packet_len (drop 4 buf))
                              in dispatch env sin signed_msg s)"

text \<open>Whether \<open>event_callback\<close> frees the connection: at end of file and on an error.\<close>

definition event_callback :: "bool \<Rightarrow> bool \<Rightarrow> bool" where
  "event_callback eof err =
     (let finished = (if eof then True else False);
          finished = (if err then True else finished)
      in finished)"

text \<open>
  \<open>libev_callback\<close> registers the address of its own variable \<open>sin\<close> as the argument of
  \<open>read_callback\<close>, which runs after it has returned.
\<close>

definition libev_callback :: "sockaddr_in option \<Rightarrow> sock_ptr option" where
  "libev_callback accepted = (case accepted of None \<Rightarrow> None | Some sin \<Rightarrow> Some DeadStack)"

subsection \<open>Sending\<close>

text \<open>The value of the future is false at once, or a task has been submitted.\<close>

definition send_pkg :: "('k, 'c, 'cert) env \<Rightarrow> ProtoMessage \<Rightarrow> IPAddress option \<Rightarrow>
    ('k, 'c) P2PServerContext \<Rightarrow> (bool \<times> ('k, 'c) P2PServerContext) result" where
  "send_pkg env data peer s =
     (let raw_packet = serialize_proto (pb env) data
      in if \<not> sign_init env then Inl (Fatal ''EVP_DigestVerifyInit failed, error'')
         else if \<not> sign_update env raw_packet then Inl (Fatal ''EVP_DigestVerifyUpdate failed, error'')
         else if \<not> sign_size env raw_packet then Inr (False, s)
         else case sign_final env raw_packet of
                None \<Rightarrow> Inr (False, s)
              | Some digest \<Rightarrow>
                  let signed_msg = SignedProtoMessage_new
                        \<lparr>ttl := 10, signature := digest, sign_algorithm := SHA_256,
                         signed_payload := raw_packet\<rparr>
                  in if vlog3 env \<and> peer = None then Inl NullDeref
                     else Inr (True, submit (SendTask (srv_port s) signed_msg peer) s))"

text \<open>The hello message; when the certificate has no encoding its length is \<open>size_t(-1)\<close>.\<close>

definition hello_construct :: "('k, 'c, 'cert) env \<Rightarrow> ('k, 'c) P2PServerContext \<Rightarrow>
    ProtoHelloMessage result" where
  "hello_construct env s =
     (case own_certificate env of
        None \<Rightarrow> Inl LengthError
      | Some raw_cert \<Rightarrow>
          Inr \<lparr>sender_id = srv_device_id s, verified_msg = [], x509_certificate = raw_cert\<rparr>)"

text \<open>
  The greetings that \<open>start\<close> sends to the peers the management server knows. \<open>peer_list\<close> is what
  the request for these peers comes to: a failure, a null pointer, or the entries of the map.
\<close>

fun greet :: "('k, 'c, 'cert) env \<Rightarrow> ProtoHelloMessage \<Rightarrow> (string \<times> string) list \<Rightarrow>
    ('k, 'c) P2PServerContext \<Rightarrow> ('k, 'c) P2PServerContext result" where
  "greet env hello_message [] s = Inr s"
| "greet env hello_message ((peer, ip) # peers) s =
     bind_result (IPAddress_of_string ip) (\<lambda>ip_addr.
       bind_result (send_pkg env (package_pkg env hello_message peer) (Some ip_addr) s) (\<lambda>(sent, s).
         greet env hello_message peers s))"

definition start :: "('k, 'c, 'cert) env \<Rightarrow> (string \<times> string) list option result \<Rightarrow>
    ('k, 'c) P2PServerContext \<Rightarrow> (bool \<times> ('k, 'c) P2PServerContext) result" where
  "start env peer_list s =
     (if \<not> srv_thread s then
        bind_result (hello_construct env s) (\<lambda>hello_message.
          let s = s\<lparr>srv_thread := True\<rparr>
          in bind_result peer_list (\<lambda>peer_list_resp.
               case peer_list_resp of
                 None \<Rightarrow> Inl NullDeref
               | Some peers \<Rightarrow>
                   bind_result (greet env hello_message peers s) (\<lambda>s. Inr (True, s))))
      else Inr (False, s))"

definition get_online_peers :: "('k, 'c) P2PServerContext \<Rightarrow> string \<rightharpoonup> IPAddress route" where
  "get_online_peers s = get_routing_table (srv_table s)"

subsection \<open>Handling\<close>

text \<open>The hello handler's check of the sender: false when its certificate is refused.\<close>

definition admit_peer :: "('k, 'c, 'cert) env \<Rightarrow> ProtoHelloMessage \<Rightarrow>
    ('k, 'c) P2PServerContext \<Rightarrow> bool \<times> ('k, 'c) P2PServerContext" where
  "admit_peer env message s =
     (case get_instance (sender_id message) (srv_peers s) of
        Some session \<Rightarrow> (True, s)
      | None \<Rightarrow>
          (case snd (new_session (x509 env) (x509_certificate message)) of
             None \<Rightarrow> (False, s)
           | Some session \<Rightarrow>
               (True, s\<lparr>srv_peers := snd (add_instance (sender_id message) (Some session) (srv_peers s))\<rparr>)))"

definition sockaddr_IPAddress :: "sock_ptr \<Rightarrow> u16 \<Rightarrow> IPAddress result" where
  "sockaddr_IPAddress client_address prev_port =
     (case client_address of
        DeadStack \<Rightarrow> Inl UseAfterFree
      | SockAddr sin \<Rightarrow> bind_result (IPAddress_of_sockaddr sin prev_port) (\<lambda>(ip, overrun). Inr ip))"

definition hello_handle :: "('k, 'c, 'cert) env \<Rightarrow> ProtoHelloMessage \<Rightarrow> u16 \<Rightarrow> sock_ptr \<Rightarrow> u32 \<Rightarrow>
    ('k, 'c) P2PServerContext \<Rightarrow> (bool \<times> ('k, 'c) P2PServerContext) result" where
  "hello_handle env message prev_port client_address msg_ttl s =
     (case admit_peer env message s of
        (False, s) \<Rightarrow> Inr (False, s)
      | (True, s) \<Rightarrow>
          bind_result (sockaddr_IPAddress client_address prev_port) (\<lambda>new_ip.
            if can_delivered (sender_id message) (srv_table s)
            then case try_update_table (sender_id message) (Some new_ip) msg_ttl (srv_table s) of
                   (updated, tab) \<Rightarrow>
                     let s = s\<lparr>srv_table := tab\<rparr>
                     in bind_result (hello_construct env s) (\<lambda>hello.
                          bind_result (send_pkg env (package_pkg env hello (sender_id message)) (Some new_ip) s)
                            (\<lambda>(sent, s). Inr (True, s)))
            else case add_new_route (vlog3 env) (sender_id message) (Some new_ip) msg_ttl (srv_table s) of
                   (added, tab) \<Rightarrow>
                     bind_result added (\<lambda>_. Inr (True, s\<lparr>srv_table := tab\<rparr>))))"

text \<open>
  The template for payload types without a specialisation: it unpacks the payload, refuses it, and
  constructs the default message whatever the arguments are.
\<close>

definition handler_internal_handle :: "'p \<Rightarrow> sock_ptr \<Rightarrow> bool" where
  "handler_internal_handle payload incoming_connection = False"

definition handler_handle :: "(string \<Rightarrow> 'p) \<Rightarrow> ProtoMessage \<Rightarrow> sock_ptr \<Rightarrow> bool" where
  "handler_handle UnpackTo proto_msg incoming_connection =
     handler_internal_handle (UnpackTo (pm_payload proto_msg)) incoming_connection"

definition handler_internal_construct :: "'p \<Rightarrow> 'a \<Rightarrow> 'p" where
  "handler_internal_construct PayloadType args = PayloadType"

text \<open>
  \<open>PacketHandler::handle\<close>. The member \<open>handle\<close> that it calls for a hello message is missing from
  the class for hello messages, so it is the parameter \<open>on_hello\<close>. Any other message is verified
  with its sender's session and then ignored.
\<close>

definition PacketHandler_handle :: "('k, 'c, 'cert) env \<Rightarrow>
    (ProtoMessage \<Rightarrow> sock_ptr \<Rightarrow> ('k, 'c) P2PServerContext \<Rightarrow> (bool \<times> ('k, 'c) P2PServerContext) result) \<Rightarrow>
    SignedProtoMessage \<Rightarrow> sock_ptr \<Rightarrow> ('k, 'c) P2PServerContext \<Rightarrow> ('k, 'c) P2PServerContext result" where
  "PacketHandler_handle env on_hello signed_msg incoming_connection s =
     (let proto_msg = parse_proto (pb env) (signed_payload signed_msg)
      in if pm_packet_type proto_msg = HELLO
         then bind_result (on_hello proto_msg incoming_connection s) (\<lambda>(ok, s). Inr s)
         else case get_instance (pm_sender proto_msg) (srv_peers s) of
                None \<Rightarrow> Inr s
              | Some checker \<Rightarrow>
                  bind_result (verify (evp env) (pm_payload proto_msg) (signature signed_msg)
                      (sign_algorithm signed_msg) checker) (\<lambda>(accepted, checker).
                    Inr (s\<lparr>srv_peers := srv_peers s\<lparr>instance_pool :=
                      (instance_pool (srv_peers s))(pm_sender proto_msg \<mapsto> Some checker)\<rparr>\<rparr>)))"

section \<open>Frames\<close>

lemma read_callback_short:
  "length buf < 4 \<or> length buf < 4 + unat (le32_value (take 4 buf)) \<Longrightarrow> read_callback env buf sin s = Inr s"
  by (auto simp: read_callback_def Let_def)

lemma read_callback_full:
  assumes "4 \<le> length buf" and "4 + unat (le32_value (take 4 buf)) \<le> length buf"
  shows "read_callback env buf sin s =
    dispatch env sin (snd (parse_signed (pb env) (take (unat (le32_value (take 4 buf))) (drop 4 buf)))) s"
proof -
  have "\<not> length buf - 4 < unat (le32_value (take 4 buf))" using assms(2) by linarith
  with assms(1) show ?thesis by (simp add: read_callback_def Let_def split_beta)
qed

lemma read_callback_on_frames:
  assumes "codec_documented (pb env)" and "length (serialize_signed (pb env) m) < 2 ^ 32"
  shows "read_callback env (take k (frame (pb env) m @ extra)) sin s =
    (if k < length (frame (pb env) m) then Inr s else dispatch env sin m s)"
proof -
  let ?raw = "serialize_signed (pb env) m"
  let ?buf = "take k (frame (pb env) m @ extra)"
  have len: "unat (of_nat (length ?raw) :: u32) = length ?raw"
    using assms(2) by (simp add: unat_of_nat take_bit_nat_eq_self)
  have head: "4 \<le> k \<Longrightarrow> take 4 ?buf = le32_bytes (of_nat (length ?raw))"
    by (simp add: frame_def min_def)
  show ?thesis
  proof (cases "k < length (frame (pb env) m)")
    case True
    then have "length ?buf < 4 \<or> length ?buf < 4 + unat (le32_value (take 4 ?buf))"
      using head len by (cases "k < 4") (auto simp: frame_def)
    then have "read_callback env ?buf sin s = Inr s" by (rule read_callback_short)
    with True show ?thesis by simp
  next
    case False
    then have k: "4 + length ?raw \<le> k" by (simp add: frame_def)
    then have v: "unat (le32_value (take 4 ?buf)) = length ?raw" using head len by simp
    have "take (length ?raw) (drop 4 ?buf) = ?raw"
      using k by (simp add: frame_def drop_take min_def)
    moreover have "length ?buf \<ge> 4 + length ?raw" using k by (simp add: frame_def)
    ultimately have "read_callback env ?buf sin s = dispatch env sin m s"
      using assms(1) v by (subst read_callback_full) (simp_all add: codec_documented_def)
    with False show ?thesis by simp
  qed
qed

lemma send_packet_tcp_frame:
  assumes "send_packet_tcp p net machine_port msg ip_addr = Inr (ok, Some bytes)"
  shows "bytes = frame p (forwarded machine_port msg) \<and>
    length (serialize_signed p (forwarded machine_port msg)) < 2 ^ 32"
proof -
  let ?raw = "serialize_signed p (forwarded machine_port msg)"
  have "bytes = frame p (forwarded machine_port msg)" and u: "unat (of_nat (length ?raw) :: u32) = length ?raw"
    using assms
    by (auto simp: send_packet_tcp_def forwarded_def frame_def Let_def split: if_splits option.splits)
  moreover have "length ?raw < 2 ^ 32"
    using u unsigned_less [of "of_nat (length ?raw) :: u32", where ?'a = nat] by simp
  ultimately show ?thesis by simp
qed

lemma dispatch_after_send:
  assumes "codec_documented (pb env)"
    and "send_packet_tcp (pb env) net machine_port msg ip_addr = Inr (True, Some bytes)"
  shows "read_callback env (bytes @ extra) sin s = dispatch env sin (forwarded machine_port msg) s"
proof -
  let ?m = "forwarded machine_port msg"
  have b: "bytes = frame (pb env) ?m" "length (serialize_signed (pb env) ?m) < 2 ^ 32"
    using send_packet_tcp_frame [OF assms(2)] by simp_all
  have "bytes @ extra = take (length (bytes @ extra)) (frame (pb env) ?m @ extra)" using b by simp
  with read_callback_on_frames [OF assms(1) b(2), of "length (bytes @ extra)" extra sin s] b(1)
  show ?thesis by simp
qed


text \<open>An environment for concrete inputs.\<close>

definition plain_env :: "(string, (string \<times> string) option, string) env" where
  "plain_env =
     \<lparr>pb = plain_pb,
      x509 = \<lparr>d2i_X509 = Some, X509_verify_cert = (\<lambda>cert. None), X509_get_pubkey = id\<rparr>,
      evp = plain_evp, sign_init = True, sign_update = (\<lambda>_. True), sign_size = (\<lambda>_. True),
      sign_final = (\<lambda>data. Some (''own'' @ data)), own_certificate = Some ''own'',
      package_pkg = (\<lambda>m peer. \<lparr>pm_sender = sender_id m, pm_receiver = peer, pm_packet_type = HELLO,
        pm_payload = x509_certificate m\<rparr>),
      iteration = (\<lambda>m. []), vlog3 = False\<rparr>"

definition plain_server :: "(string, (string \<times> string) option) P2PServerContext" where
  "plain_server =
     \<lparr>srv_device_id = ''me'', srv_port = 8080, srv_table = empty_table,
      srv_cache = FIFOCache_new [] 2, srv_peers = empty_pool, srv_thread = False, srv_tasks = []\<rparr>"

definition plain_message :: SignedProtoMessage where
  "plain_message = SignedProtoMessage_new\<lparr>receiver := ''me'', ttl := 3, signature := ''sig''\<rparr>"

lemma plain_env_pb [simp]: "pb plain_env = plain_pb"
  by (simp add: plain_env_def)

lemma plain_message_fits: "length (serialize_signed plain_pb plain_message) < 2 ^ 32"
  by (simp add: plain_pb_def plain_message_def SignedProtoMessage_new_def put_str_def put_nat_def)


text \<open>Transport: what \<open>send_packet_tcp\<close> writes is received as the message it was given, with
  the time to live decremented and the sender's port filled in, and nothing else: the receiver's
  callback on these bytes, with any bytes after them, is the dispatch of that message.\<close>

theorem transport_delivers:
  assumes "codec_documented (pb env)"
    and "send_packet_tcp (pb env) net machine_port msg ip_addr = Inr (True, Some bytes)"
  shows "read_callback env (bytes @ extra) sin s = dispatch env sin (forwarded machine_port msg) s"
  using assms by (rule dispatch_after_send)

theorem transport_delivers_witness:
  "\<exists>bytes. send_packet_tcp plain_pb \<lparr>socket_opens = True, inet_pton = (\<lambda>_. True), connects = (\<lambda>_ _. True)\<rparr>
      7000 plain_message (Some \<lparr>valid = True, port_number = 80, ip_address_str = ''1.2.3.4''\<rparr>) =
        Inr (True, Some bytes) \<and>
    read_callback plain_env (bytes @ []) DeadStack plain_server =
      dispatch plain_env DeadStack (forwarded 7000 plain_message) plain_server"
proof -
  let ?net = "\<lparr>socket_opens = True, inet_pton = (\<lambda>_. True), connects = (\<lambda>_ _. True)\<rparr>"
  let ?ip = "\<lparr>valid = True, port_number = 80, ip_address_str = ''1.2.3.4''\<rparr>"
  have "length (serialize_signed plain_pb (forwarded 7000 plain_message)) < 2 ^ 32"
    by (simp add: plain_pb_def plain_message_def SignedProtoMessage_new_def put_str_def put_nat_def
        forwarded_def)
  then have "unat (of_nat (length (serialize_signed plain_pb (forwarded 7000 plain_message))) :: u32) =
      length (serialize_signed plain_pb (forwarded 7000 plain_message))"
    by (simp add: unat_of_nat take_bit_nat_eq_self)
  then obtain bytes where b: "send_packet_tcp plain_pb ?net 7000 plain_message (Some ?ip) = Inr (True, Some bytes)"
    by (simp add: send_packet_tcp_def Let_def forwarded_def)
  with transport_delivers [of plain_env ?net 7000 plain_message "Some ?ip" bytes "[]" DeadStack plain_server]
  show ?thesis by (auto simp: plain_pb_documented)
qed

section \<open>Dispatch\<close>

text \<open>The cache can always take another id.\<close>

definition cache_ready :: "'a FIFOCache \<Rightarrow> bool" where
  "cache_ready c \<longleftrightarrow> length (cache c) = max_cache_size c \<and> 0 < max_cache_size c"

lemma is_cached_ready: "cache_ready c \<Longrightarrow> \<exists>hit c'. is_cached x c = Inr (hit, c') \<and> cache_ready c'"
  by (cases "cache c") (auto simp: is_cached_def cache_ready_def)

lemma broadcast_only_submits:
  "broadcast m nodes s = s\<lparr>srv_tasks := srv_tasks s @ map (\<lambda>(peer, ip, t). SendTask (srv_port s) m ip) nodes\<rparr>"
  by (induction m nodes s rule: broadcast.induct) (auto simp: submit_def)

text \<open>The tasks a message leads to, once it has passed the cache.\<close>

definition dispatch_tasks :: "('k, 'c, 'cert) env \<Rightarrow> sock_ptr \<Rightarrow> SignedProtoMessage \<Rightarrow>
    ('k, 'c) P2PServerContext \<Rightarrow> packet_task list" where
  "dispatch_tasks env sin m s =
     (if srv_device_id s = receiver m then [HandleTask m sin]
      else case routing_map (srv_table s) (receiver m) of
        Some (ip, t) \<Rightarrow>
          if ttl m > 1 then [SendTask (srv_port s) m ip]
          else map (\<lambda>(peer, ip, t). SendTask (srv_port s) m ip) (iteration env (routing_map (srv_table s)))
      | None \<Rightarrow> map (\<lambda>(peer, ip, t). SendTask (srv_port s) m ip) (iteration env (routing_map (srv_table s))))"

lemma dispatch_eq:
  "dispatch env sin m s =
     (if ttl m = 0 then Inr s
      else bind_result (is_cached (signature m) (srv_cache s)) (\<lambda>(hit, c).
        Inr (s\<lparr>srv_cache := c,
               srv_tasks := srv_tasks s @ (if hit then [] else dispatch_tasks env sin m s)\<rparr>)))"
  by (auto simp: dispatch_def dispatch_tasks_def Let_def broadcast_only_submits submit_def
      can_delivered_def get_next_peer_def get_routing_table_def split: option.splits
      intro!: arg_cong2 [where f = bind_result] ext)

lemma dispatch_frame:
  assumes "dispatch env sin m s = Inr s'"
  shows "srv_table s' = srv_table s \<and> srv_peers s' = srv_peers s \<and> srv_device_id s' = srv_device_id s \<and>
    srv_port s' = srv_port s \<and> srv_thread s' = srv_thread s \<and>
    (\<exists>ts. srv_tasks s' = srv_tasks s @ ts \<and> (ts = [] \<or> ttl m \<noteq> 0 \<and> ts = dispatch_tasks env sin m s))"
  using assms by (auto simp: dispatch_eq bind_result_eq_Inr split: if_splits)

lemma read_callback_dispatches:
  "read_callback env buf sin s = Inr s \<or>
   read_callback env buf sin s =
     dispatch env sin (snd (parse_signed (pb env) (take (unat (le32_value (take 4 buf))) (drop 4 buf)))) s"
  using read_callback_short [of buf] read_callback_full [of buf] by (metis not_le)



text \<open>C10. A message is handled once: after a message with a live time to live and a signature has
  been dispatched, dispatching any message with the same signature changes nothing.\<close>

theorem dispatch_handles_once:
  assumes "cache_inv [] n (srv_cache s)" and "0 < n"
    and "dispatch env sin m s = Inr s1" and "ttl m \<noteq> 0"
    and "signature m \<noteq> []" and "signature m' = signature m"
  shows "dispatch env' sin' m' s1 = Inr s1"
proof -
  let ?x = "signature m"
  obtain hit c where c: "is_cached ?x (srv_cache s) = Inr (hit, c)" "srv_cache s1 = c"
    using assms(3,4) by (auto simp: dispatch_eq bind_result_eq_Inr)
  have "is_cached ?x c = Inr (True, c)"
  proof (cases "?x \<in> set (cache_window [] (srv_cache s))")
    case True
    with c is_cached_hit [OF assms(1)] show ?thesis by simp
  next
    case False
    then obtain c' where c': "is_cached ?x (srv_cache s) = Inr (False, c')" "cache_inv [] n c'"
        "cache_window [] c' = lastn n (cache_window [] (srv_cache s) @ [?x])"
      using is_cached_miss [OF assms(1,2)] assms(5) by blast
    then have "?x \<in> set (cache_window [] c')" using assms(2) by (simp add: lastn_snoc)
    then show ?thesis using is_cached_hit [OF c'(2)] c' c by simp
  qed
  with c assms(6) show ?thesis by (simp add: dispatch_eq)
qed

theorem dispatch_handles_once_witness:
  "\<exists>s1. dispatch plain_env DeadStack plain_message plain_server = Inr s1 \<and>
    srv_tasks s1 = [HandleTask plain_message DeadStack] \<and>
    dispatch plain_env DeadStack plain_message s1 = Inr s1"
proof -
  have "is_cached ''sig'' (FIFOCache_new [] 2) =
      Inr (False, \<lparr>max_cache_size = 2, cache = [[], ''sig''], cache_map = {''sig''}\<rparr>)"
    by (simp add: is_cached_def FIFOCache_new_def numeral_2_eq_2)
  then obtain s1 where s1: "dispatch plain_env DeadStack plain_message plain_server = Inr s1"
      "srv_tasks s1 = [HandleTask plain_message DeadStack]"
    by (simp add: dispatch_eq dispatch_tasks_def plain_server_def plain_message_def
        SignedProtoMessage_new_def)
  have "cache_inv [] 2 (srv_cache plain_server)"
    by (simp add: plain_server_def cache_inv_new)
  from dispatch_handles_once [OF this _ s1(1) _ _ refl, of plain_env DeadStack] s1 show ?thesis
    by (simp add: plain_message_def SignedProtoMessage_new_def)
qed

section \<open>Flooding ends\<close>

text \<open>
  A network of servers: the servers by address, and the messages on their way. In a step one
  message arrives at its address and is dispatched there; of the send tasks it leads to, any part
  reaches the address its peer resolves to.
\<close>

fun sent_message :: "(IPAddress \<Rightarrow> 'a option) \<Rightarrow> packet_task \<Rightarrow> ('a \<times> SignedProtoMessage) multiset" where
  "sent_message resolve (SendTask port m (Some ip)) =
     (case resolve ip of None \<Rightarrow> {#} | Some a \<Rightarrow> {#(a, forwarded port m)#})"
| "sent_message resolve _ = {#}"

definition new_tasks :: "('k, 'c) P2PServerContext \<Rightarrow> ('k, 'c) P2PServerContext \<Rightarrow> packet_task list" where
  "new_tasks s s' = drop (length (srv_tasks s)) (srv_tasks s')"

inductive net_step :: "('k, 'c, 'cert) env \<Rightarrow> (IPAddress \<Rightarrow> 'a option) \<Rightarrow>
    ('a \<Rightarrow> ('k, 'c) P2PServerContext) \<times> ('a \<times> SignedProtoMessage) multiset \<Rightarrow>
    ('a \<Rightarrow> ('k, 'c) P2PServerContext) \<times> ('a \<times> SignedProtoMessage) multiset \<Rightarrow> bool"
  for env resolve where
  arrive: "dispatch env sin m (nodes a) = Inr s' \<Longrightarrow>
     sent \<subseteq># (\<Sum>t\<leftarrow>new_tasks (nodes a) s'. sent_message resolve t) \<Longrightarrow>
     net_step env resolve (nodes, add_mset (a, m) pending) (nodes(a := s'), pending + sent)"

lemma dispatch_tasks_message:
  "t \<in> set (dispatch_tasks env sin m s) \<Longrightarrow> t = HandleTask m sin \<or> (\<exists>ip. t = SendTask (srv_port s) m ip)"
  by (auto simp: dispatch_tasks_def split: if_splits option.splits)

lemma sum_list_mset_member: "x \<in># (\<Sum>t\<leftarrow>ts. f t) \<Longrightarrow> \<exists>t \<in> set ts. x \<in># f t"
  by (induction ts) auto

lemma sent_ttl:
  assumes "dispatch env sin m s = Inr s'"
    and "(b, m') \<in># (\<Sum>t\<leftarrow>new_tasks s s'. sent_message resolve t)"
  shows "unat (ttl m') < unat (ttl m)"
proof -
  obtain t where t: "t \<in> set (new_tasks s s')" "(b, m') \<in># sent_message resolve t"
    using sum_list_mset_member [OF assms(2)] by blast
  then have "ttl m \<noteq> 0" "t \<in> set (dispatch_tasks env sin m s)"
    using dispatch_frame [OF assms(1)] by (auto simp: new_tasks_def)
  then obtain ip where "t = HandleTask m sin \<or> t = SendTask (srv_port s) m ip"
    using dispatch_tasks_message by blast
  then have "ttl m' = ttl m - 1"
    using t(2) by (cases ip) (auto simp: forwarded_def split: option.splits)
  moreover have "0 < unat (ttl m)" using \<open>ttl m \<noteq> 0\<close> by (simp add: unsigned_eq_0_iff flip: neq0_conv)
  ultimately show ?thesis using \<open>ttl m \<noteq> 0\<close> by (simp add: unat_minus_one)
qed

text \<open>C7. Flooding ends: in a network of servers that forward and broadcast as \<open>read_callback\<close>
  does, whatever the topology, the routing tables and the losses, there is no infinite sequence
  of arrivals that starts from finitely many messages.\<close>

theorem flooding_terminates: "wfP (\<lambda>c' c. net_step env resolve c c')"
proof -
  let ?r = "inv_image less_than (\<lambda>(a, m). unat (ttl m))"
  have "{(c', c). net_step env resolve c c'} \<subseteq> inv_image (mult1 ?r) snd"
  proof clarify
    fix nodes' pending' nodes pending
    assume "net_step env resolve (nodes, pending) (nodes', pending')"
    then show "((nodes', pending'), (nodes, pending)) \<in> inv_image (mult1 ?r) snd"
    proof cases
      case (arrive sin m a s' sent pending0)
      have "((b, m'), (a, m)) \<in> ?r" if "(b, m') \<in># sent" for b m'
        using sent_ttl [OF arrive(4), of b m' resolve] mset_subset_eqD [OF arrive(5) that] by simp
      with arrive show ?thesis unfolding mult1_def by auto
    qed
  qed
  moreover have "wf (inv_image (mult1 ?r) snd)" by (intro wf_inv_image wf_mult1) simp
  ultimately show ?thesis unfolding wfp_def by (rule wf_subset [rotated])
qed

section \<open>What the server keeps\<close>

text \<open>Every session in the pool is for the key of a certificate that was verified.\<close>

definition peers_verified :: "('k, 'c, 'cert) env \<Rightarrow> ('k, 'c) P2PServerContext \<Rightarrow> bool" where
  "peers_verified env s \<longleftrightarrow>
     (\<forall>peer session. instance_pool (srv_peers s) peer = Some (Some session) \<longrightarrow>
        (\<exists>raw cert. d2i_X509 (x509 env) raw = Some cert \<and> X509_verify_cert (x509 env) cert = None \<and>
           public_key session = X509_get_pubkey (x509 env) cert))"

text \<open>One entry point of the server, run to its end.\<close>

inductive server_step :: "('k, 'c, 'cert) env \<Rightarrow> ('k, 'c) P2PServerContext \<Rightarrow>
    ('k, 'c) P2PServerContext \<Rightarrow> bool" for env where
  on_read: "read_callback env buf sin s = Inr s' \<Longrightarrow> server_step env s s'"
| on_send: "send_pkg env data peer s = Inr (sent, s') \<Longrightarrow> server_step env s s'"
| on_start: "start env peer_list s = Inr (started, s') \<Longrightarrow> server_step env s s'"
| on_hello: "hello_handle env message prev_port addr msg_ttl s = Inr (ok, s') \<Longrightarrow> server_step env s s'"
| on_message: "pm_packet_type (parse_proto (pb env) (signed_payload m)) \<noteq> HELLO \<Longrightarrow>
    PacketHandler_handle env on_hello m addr s = Inr s' \<Longrightarrow> server_step env s s'"

definition server_keeps :: "('k, 'c, 'cert) env \<Rightarrow> ('k, 'c) P2PServerContext \<Rightarrow>
    ('k, 'c) P2PServerContext \<Rightarrow> bool" where
  "server_keeps env s s' \<longleftrightarrow>
     improves (srv_table s) (srv_table s') \<and> dom (instance_pool (srv_peers s)) \<subseteq> dom (instance_pool (srv_peers s')) \<and>
     srv_device_id s' = srv_device_id s \<and> srv_port s' = srv_port s \<and>
     (peers_verified env s \<longrightarrow> peers_verified env s') \<and>
     (cache_ready (srv_cache s) \<longrightarrow> cache_ready (srv_cache s'))"

lemma server_keeps_refl [simp]: "server_keeps env s s"
  by (simp add: server_keeps_def)

lemma server_keeps_trans: "server_keeps env a b \<Longrightarrow> server_keeps env b c \<Longrightarrow> server_keeps env a c"
  unfolding server_keeps_def by (auto intro: improves_trans)

lemma server_keeps_tasks:
  "srv_table s' = srv_table s \<Longrightarrow> srv_peers s' = srv_peers s \<Longrightarrow> srv_device_id s' = srv_device_id s \<Longrightarrow>
   srv_port s' = srv_port s \<Longrightarrow> srv_cache s' = srv_cache s \<Longrightarrow> server_keeps env s s'"
  by (simp add: server_keeps_def peers_verified_def)

lemma is_cached_keeps_ready: "is_cached x c = Inr (hit, c') \<Longrightarrow> cache_ready c \<Longrightarrow> cache_ready c'"
  using is_cached_ready [of c x] by auto

lemma keeps_dispatch: "dispatch env sin m s = Inr s' \<Longrightarrow> server_keeps env s s'"
  by (auto simp: dispatch_eq server_keeps_def peers_verified_def bind_result_eq_Inr
      dest: is_cached_keeps_ready split: if_splits)

lemma keeps_send: "send_pkg env data peer s = Inr (sent, s') \<Longrightarrow> server_keeps env s s'"
  by (auto simp: send_pkg_def submit_def Let_def server_keeps_def peers_verified_def
      split: if_splits option.splits)

lemma keeps_greet: "greet env hello peers s = Inr s' \<Longrightarrow> server_keeps env s s'"
proof (induction peers arbitrary: s)
  case (Cons p peers)
  then obtain ip sent s1 where "send_pkg env (package_pkg env hello (fst p)) (Some ip) s = Inr (sent, s1)"
      "greet env hello peers s1 = Inr s'"
    by (cases p) (auto simp: bind_result_eq_Inr)
  with Cons.IH show ?case using keeps_send server_keeps_trans by blast
qed simp

lemma keeps_start: "start env peer_list s = Inr (started, s') \<Longrightarrow> server_keeps env s s'"
proof (cases "srv_thread s")
  case False
  assume "start env peer_list s = Inr (started, s')"
  with False obtain hello peers where "greet env hello peers (s\<lparr>srv_thread := True\<rparr>) = Inr s'"
    by (auto simp: start_def Let_def bind_result_eq_Inr split: option.splits)
  moreover have "server_keeps env s (s\<lparr>srv_thread := True\<rparr>)" by (rule server_keeps_tasks) simp_all
  ultimately show ?thesis using keeps_greet server_keeps_trans by blast
qed (simp add: start_def)

lemma keeps_admit: "admit_peer env message s = (ok, s') \<Longrightarrow> server_keeps env s s'"
  by (auto simp: admit_peer_def new_session_def add_instance_def PeerSession_new_def server_keeps_def
      peers_verified_def split: option.splits if_splits) blast

lemma improves_try_update: "try_update_table dest ip t tab = (r, tab') \<Longrightarrow> improves tab tab'"
  by (auto simp: try_update_table_def dest: improves_write split: option.splits)

lemma improves_add: "add_new_route v dest ip t tab = (r, tab') \<Longrightarrow> improves tab tab'"
  by (auto simp: add_new_route_def insert_route_def improves_def split: if_splits)

lemma keeps_table: "improves (srv_table s) tab \<Longrightarrow> server_keeps env s (s\<lparr>srv_table := tab\<rparr>)"
  by (simp add: server_keeps_def peers_verified_def)

lemma keeps_hello:
  assumes "hello_handle env message prev_port addr msg_ttl s = Inr (ok, s')"
  shows "server_keeps env s s'"
proof -
  obtain admitted s1 where s1: "admit_peer env message s = (admitted, s1)" by (cases "admit_peer env message s")
  have "server_keeps env s1 s'"
  proof (cases admitted)
    case False
    with assms s1 show ?thesis by (simp add: hello_handle_def)
  next
    case True
    let ?id = "sender_id message"
    show ?thesis
    proof (cases "can_delivered ?id (srv_table s1)")
      case known: True
      obtain ip where ip: "sockaddr_IPAddress addr prev_port = Inr ip"
        using True assms s1 by (auto simp: hello_handle_def bind_result_eq_Inr)
      obtain r tab where tab: "try_update_table ?id (Some ip) msg_ttl (srv_table s1) = (r, tab)"
        by fastforce
      with True known ip assms s1 obtain hello sent
        where "send_pkg env (package_pkg env hello ?id) (Some ip) (s1\<lparr>srv_table := tab\<rparr>) = Inr (sent, s')"
        by (auto simp: hello_handle_def bind_result_eq_Inr Let_def)
      then show ?thesis
        using keeps_table [OF improves_try_update [OF tab]] keeps_send server_keeps_trans by blast
    next
      case unknown: False
      obtain ip where ip: "sockaddr_IPAddress addr prev_port = Inr ip"
        using True assms s1 by (auto simp: hello_handle_def bind_result_eq_Inr)
      obtain r tab where tab: "add_new_route (vlog3 env) ?id (Some ip) msg_ttl (srv_table s1) = (r, tab)"
        by fastforce
      with True unknown ip assms s1 have "s' = s1\<lparr>srv_table := tab\<rparr>"
        by (auto simp: hello_handle_def bind_result_eq_Inr)
      with keeps_table [OF improves_add [OF tab]] show ?thesis by simp
    qed
  qed
  with keeps_admit [OF s1] show ?thesis by (rule server_keeps_trans)
qed

lemma verify_key: "verify lib data sig method s = Inr (ok, s') \<Longrightarrow> public_key s' = public_key s"
proof -
  assume "verify lib data sig method s = Inr (ok, s')"
  then obtain c s1 where s1: "prepare_ctx lib method s = Inr (c, s1)" and "public_key s' = public_key s1"
    by (auto simp: verify_def bind_result_eq_Inr split_beta split: option.splits if_splits)
  moreover from s1 have "public_key s1 = public_key s"
    by (auto simp: prepare_ctx_def split_beta
        split: md_ctx.splits option.splits ProtoSignAlgorithm.splits)
  ultimately show ?thesis by simp
qed

lemma keeps_message:
  assumes "pm_packet_type (parse_proto (pb env) (signed_payload m)) \<noteq> HELLO"
    and "PacketHandler_handle env on_hello m addr s = Inr s'"
  shows "server_keeps env s s'"
proof -
  let ?id = "pm_sender (parse_proto (pb env) (signed_payload m))"
  show ?thesis
  proof (cases "get_instance ?id (srv_peers s)")
    case None
    with assms show ?thesis by (simp add: PacketHandler_handle_def Let_def)
  next
    case (Some checker)
    then have pool: "instance_pool (srv_peers s) ?id = Some (Some checker)"
      by (auto simp: get_instance_def split: option.splits)
    from assms Some obtain ok checker' where
        v: "verify (evp env) (pm_payload (parse_proto (pb env) (signed_payload m))) (signature m)
          (sign_algorithm m) checker = Inr (ok, checker')"
        "s' = s\<lparr>srv_peers := srv_peers s\<lparr>instance_pool := (instance_pool (srv_peers s))(?id \<mapsto> Some checker')\<rparr>\<rparr>"
      by (auto simp: PacketHandler_handle_def Let_def bind_result_eq_Inr)
    with pool verify_key [OF v(1)] show ?thesis
      by (auto simp: server_keeps_def peers_verified_def)
  qed
qed

lemma keeps_step: "server_step env s s' \<Longrightarrow> server_keeps env s s'"
proof (induction rule: server_step.induct)
  case (on_read buf sin s s')
  then show ?case using read_callback_dispatches [of env buf sin s] keeps_dispatch by fastforce
qed (auto dest: keeps_send keeps_start keeps_hello keeps_message)

text \<open>C1. Through every sequence of entry points of the server (bytes received, packets sent, the
  start, hello messages and other messages handled) the pool only holds sessions for keys of
  verified certificates, peers and routes are never lost, no route's time to live grows, and the
  cache stays usable.\<close>

theorem server_invariant:
  assumes "(server_step env)\<^sup>*\<^sup>* s s'" and "peers_verified env s" and "cache_ready (srv_cache s)"
  shows "peers_verified env s' \<and> cache_ready (srv_cache s') \<and> improves (srv_table s) (srv_table s') \<and>
    dom (instance_pool (srv_peers s)) \<subseteq> dom (instance_pool (srv_peers s'))"
proof -
  from assms(1) have "server_keeps env s s'"
    by (induction rule: rtranclp_induct) (auto intro: server_keeps_trans dest: keeps_step)
  with assms(2,3) show ?thesis by (simp add: server_keeps_def)
qed

lemma plain_step: "\<exists>s'. server_step plain_env plain_server s' \<and>
    get_instance ''peer'' (srv_peers s') = Some (PeerSession_new ''cert'')"
proof -
  let ?sin = "SockAddr \<lparr>sin_family = AF_INET, sin_port = 0, sin_addr = (10, 0, 0, 1)\<rparr>"
  let ?m = "\<lparr>sender_id = ''peer'', verified_msg = [], x509_certificate = ''cert''\<rparr>"
  obtain s' where s': "hello_handle plain_env ?m 7000 ?sin 5 plain_server = Inr (True, s')"
      "get_instance ''peer'' (srv_peers s') = Some (PeerSession_new ''cert'')"
    by (simp add: hello_handle_def admit_peer_def get_instance_def plain_server_def empty_pool_def
        new_session_def plain_env_def add_instance_def sockaddr_IPAddress_def IPAddress_of_sockaddr_def
        can_delivered_def empty_table_def add_new_route_def insert_route_def Let_def PeerSession_new_def)
  then show ?thesis using on_hello by blast
qed

theorem server_invariant_witness:
  "\<exists>s'. get_instance ''peer'' (srv_peers s') = Some (PeerSession_new ''cert'') \<and>
    peers_verified plain_env s' \<and> cache_ready (srv_cache s') \<and>
    improves (srv_table plain_server) (srv_table s') \<and>
    dom (instance_pool (srv_peers plain_server)) \<subseteq> dom (instance_pool (srv_peers s'))"
proof -
  obtain s' where s': "server_step plain_env plain_server s'"
      "get_instance ''peer'' (srv_peers s') = Some (PeerSession_new ''cert'')"
    using plain_step by blast
  have "peers_verified plain_env plain_server" "cache_ready (srv_cache plain_server)"
    by (simp_all add: peers_verified_def plain_server_def empty_pool_def cache_ready_def FIFOCache_new_def)
  with server_invariant [of plain_env plain_server s'] s' show ?thesis by blast
qed

section \<open>Packets nobody handles\<close>

text \<open>A packet that \<open>send_pkg\<close> submits has time to live 10 and no receiver, so a server that has
  a device id never hands it to \<open>PacketHandler::handle\<close>: on arrival it is dropped as a duplicate,
  or sent on to other peers.\<close>

theorem send_pkg_never_handled:
  assumes "send_pkg env data peer s = Inr (True, s1)"
  shows "\<exists>m. srv_tasks s1 = srv_tasks s @ [SendTask (srv_port s) m peer] \<and> ttl m = 10 \<and> receiver m = [] \<and>
    signed_payload m = serialize_proto (pb env) data \<and>
    (srv_device_id s2 = [] \<or> dispatch env2 sin (forwarded (srv_port s) m) s2 \<noteq> Inr s3 \<or>
     list_all (\<lambda>t. case t of HandleTask _ _ \<Rightarrow> False | SendTask _ _ _ \<Rightarrow> True) (new_tasks s2 s3))"
proof -
  obtain m where m: "srv_tasks s1 = srv_tasks s @ [SendTask (srv_port s) m peer]" "ttl m = 10"
      "receiver m = []" "signed_payload m = serialize_proto (pb env) data"
    using assms by (auto simp: send_pkg_def Let_def submit_def SignedProtoMessage_new_def
        split: if_splits option.splits)
  have "list_all (\<lambda>t. case t of HandleTask _ _ \<Rightarrow> False | SendTask _ _ _ \<Rightarrow> True) (new_tasks s2 s3)"
    if "srv_device_id s2 \<noteq> []" "dispatch env2 sin (forwarded (srv_port s) m) s2 = Inr s3"
    using dispatch_frame [OF that(2)] that(1) m(3)
    by (auto simp: new_tasks_def dispatch_tasks_def forwarded_def list_all_iff split: option.splits if_splits)
  with m show ?thesis by blast
qed

theorem send_pkg_never_handled_witness:
  "\<exists>s1 m. send_pkg plain_env \<lparr>pm_sender = ''me'', pm_receiver = ''you'', pm_packet_type = HELLO,
      pm_payload = []\<rparr> None plain_server = Inr (True, s1) \<and>
    srv_tasks s1 = [SendTask 8080 m None] \<and> receiver m = [] \<and> ttl m = 10"
proof -
  let ?d = "\<lparr>pm_sender = ''me'', pm_receiver = ''you'', pm_packet_type = HELLO, pm_payload = []\<rparr>"
  obtain s1 where s1: "send_pkg plain_env ?d None plain_server = Inr (True, s1)"
    by (simp add: send_pkg_def plain_env_def Let_def)
  obtain m where "srv_tasks s1 = srv_tasks plain_server @ [SendTask (srv_port plain_server) m None]"
      "ttl m = 10" "receiver m = []"
    using send_pkg_never_handled [OF s1, of plain_server plain_env DeadStack plain_server] by blast
  then have "srv_tasks s1 = [SendTask 8080 m None] \<and> receiver m = [] \<and> ttl m = 10"
    by (simp add: plain_server_def)
  with s1 show ?thesis by blast
qed

text \<open>The address that a handler gets for an accepted connection is that of a local variable of
  \<open>libev_callback\<close>, which has returned: handling a hello message with it never succeeds, it either
  refuses the sender's certificate or reads the dead variable.\<close>

theorem hello_address_is_dead:
  "case libev_callback (Some sin) of
     None \<Rightarrow> False
   | Some addr \<Rightarrow>
       (case hello_handle env message prev_port addr msg_ttl s of
          Inl e \<Rightarrow> e = UseAfterFree
        | Inr (ok, s') \<Rightarrow> \<not> ok \<and> s' = s)"
proof -
  obtain admitted s1 where a: "admit_peer env message s = (admitted, s1)" by fastforce
  then have "\<not> admitted \<Longrightarrow> s1 = s" by (auto simp: admit_peer_def split: option.splits)
  with a show ?thesis
    by (cases admitted) (simp_all add: libev_callback_def hello_handle_def sockaddr_IPAddress_def)
qed

text \<open>A message that is forwarded when its time to live is 1, or has no route, is broadcast:
  every node of the routing table gets a copy. With time to live 1 each copy arrives with time to
  live 0, and the receiving server drops it without a trace.\<close>

theorem last_hop_broadcast_is_dropped:
  assumes "ttl m = 1" and "is_cached (signature m) (srv_cache s) = Inr (False, c)"
    and "srv_device_id s \<noteq> receiver m"
  shows "dispatch env sin m s = Inr (s\<lparr>srv_cache := c, srv_tasks := srv_tasks s @
      map (\<lambda>(peer, ip, t). SendTask (srv_port s) m ip) (iteration env (get_online_peers s))\<rparr>) \<and>
    dispatch env2 sin2 (forwarded (srv_port s) m) s2 = Inr s2"
proof -
  have "\<not> ttl m > 1" using assms(1) by simp
  then have "dispatch_tasks env sin m s =
      map (\<lambda>(peer, ip, t). SendTask (srv_port s) m ip) (iteration env (get_online_peers s))"
    using assms(3) by (auto simp: dispatch_tasks_def get_online_peers_def get_routing_table_def
        split: option.splits)
  with assms show ?thesis by (simp add: dispatch_eq forwarded_def)
qed

theorem last_hop_broadcast_is_dropped_witness:
  "dispatch plain_env DeadStack (forwarded 8080 (plain_message\<lparr>receiver := ''you'', ttl := 1\<rparr>)) plain_server =
    Inr plain_server"
proof -
  let ?m = "plain_message\<lparr>receiver := ''you'', ttl := 1\<rparr>"
  have "is_cached (signature ?m) (srv_cache plain_server) =
      Inr (False, \<lparr>max_cache_size = 2, cache = [[], ''sig''], cache_map = {''sig''}\<rparr>)"
    by (simp add: is_cached_def FIFOCache_new_def plain_server_def plain_message_def
        SignedProtoMessage_new_def numeral_2_eq_2)
  from last_hop_broadcast_is_dropped [OF _ this, of plain_env DeadStack plain_env DeadStack plain_server]
  show ?thesis
    by (simp add: plain_server_def plain_message_def SignedProtoMessage_new_def)
qed



end
