(* ===== verification/Json_Model.thy ===== *)
theory Json_Model
  imports P2P_Prelude Codec "HOL-Library.List_Lexorder" "HOL-Library.Char_ord"
begin

text \<open>
  The JSON models of the management API, \<open>daemon/management_api/model/\<close>: \<open>json_model.h\<close>, the
  request and response classes and the device configuration. RapidJSON's parser and writer are
  parameters; its documents are the datatype \<open>json\<close>. Access to a value of the wrong kind, or to a
  member that does not exist, fails RapidJSON's assertion.
\<close>

section \<open>Documents\<close>

datatype json =
    JNull
  | JBool bool
  | JInt int
  | JString string
  | JArray "json list"
  | JObject "(string \<times> json) list"

fun HasMember :: "string \<Rightarrow> json \<Rightarrow> bool result" where
  "HasMember key (JObject members) = Inr (map_of members key \<noteq> None)"
| "HasMember key _ = Inl AssertionFailed"

fun member :: "string \<Rightarrow> json \<Rightarrow> json result" where
  "member key (JObject members) =
     (case map_of members key of None \<Rightarrow> Inl AssertionFailed | Some v \<Rightarrow> Inr v)"
| "member key _ = Inl AssertionFailed"

fun GetString :: "json \<Rightarrow> string result" where
  "GetString (JString s) = Inr s"
| "GetString _ = Inl AssertionFailed"

fun GetBool :: "json \<Rightarrow> bool result" where
  "GetBool (JBool b) = Inr b"
| "GetBool _ = Inl AssertionFailed"

fun GetInt :: "json \<Rightarrow> int result" where
  "GetInt (JInt i) = (if - (2 ^ 31) \<le> i \<and> i < 2 ^ 31 then Inr i else Inl AssertionFailed)"
| "GetInt _ = Inl AssertionFailed"

fun AddMember :: "string \<Rightarrow> json \<Rightarrow> json \<Rightarrow> json result" where
  "AddMember key v (JObject members) = Inr (JObject (members @ [(key, v)]))"
| "AddMember key v _ = Inl AssertionFailed"

section \<open>The code\<close>

record JsonModel =
  response_flag :: bool
  json_buf :: "string option"
  root :: json

definition JsonModel_empty :: JsonModel where
  "JsonModel_empty = \<lparr>response_flag = False, json_buf = None, root = JObject []\<rparr>"

text \<open>
  The copy keeps the document and not the flag; with a buffer it copies into a null pointer.
\<close>

definition JsonModel_copy :: "JsonModel \<Rightarrow> JsonModel result" where
  "JsonModel_copy other =
     (if json_buf other \<noteq> None then Inl NullDeref
      else Inr \<lparr>response_flag = False, json_buf = None, root = root other\<rparr>)"

definition is_response :: "json \<Rightarrow> bool result" where
  "is_response j =
     bind_result (HasMember ''success'' j) (\<lambda>s.
       if s then HasMember ''responseBody'' j else Inr False)"

definition JsonModel_of_text :: "(string \<Rightarrow> json option) \<Rightarrow> string option \<Rightarrow> JsonModel result" where
  "JsonModel_of_text parse text =
     (case text of
        None \<Rightarrow> Inr \<lparr>response_flag = False, json_buf = None, root = JObject []\<rparr>
      | Some t \<Rightarrow>
          (case parse t of
             None \<Rightarrow> Inr \<lparr>response_flag = False, json_buf = Some t, root = JObject []\<rparr>
           | Some j \<Rightarrow>
               bind_result (is_response j) (\<lambda>flag.
                 Inr \<lparr>response_flag = flag, json_buf = Some t, root = j\<rparr>)))"

text \<open>From a file; when it does not exist the document stays null.\<close>

definition JsonModel_of_file :: "(string \<Rightarrow> json option) \<Rightarrow> string option \<Rightarrow> JsonModel result" where
  "JsonModel_of_file parse file =
     (case file of
        None \<Rightarrow> Inr \<lparr>response_flag = False, json_buf = None, root = JNull\<rparr>
      | Some t \<Rightarrow>
          (case parse t of
             None \<Rightarrow> Inr \<lparr>response_flag = False, json_buf = None, root = JObject []\<rparr>
           | Some j \<Rightarrow>
               bind_result (is_response j) (\<lambda>flag.
                 Inr \<lparr>response_flag = flag, json_buf = None, root = j\<rparr>)))"

definition json_success :: "JsonModel \<Rightarrow> bool result" where
  "json_success m =
     (if response_flag m then bind_result (member ''success'' (root m)) GetBool else Inr False)"

text \<open>The object that holds the members: the response body of a response.\<close>

definition body_node :: "JsonModel \<Rightarrow> json result" where
  "body_node m = (if response_flag m then member ''responseBody'' (root m) else Inr (root m))"

definition json_message :: "JsonModel \<Rightarrow> string result" where
  "json_message m =
     bind_result (body_node m) (\<lambda>node.
       bind_result (HasMember ''message'' node) (\<lambda>has.
         if has then bind_result (member ''message'' node) GetString else Inr []))"

definition get_json :: "(json \<Rightarrow> string) \<Rightarrow> JsonModel \<Rightarrow> string" where
  "get_json writer m = writer (root m)"

definition save :: "(json \<Rightarrow> string) \<Rightarrow> JsonModel \<Rightarrow> string" where
  "save writer m = get_json writer m"

definition find_node :: "string \<Rightarrow> JsonModel \<Rightarrow> json option result" where
  "find_node key m =
     bind_result (body_node m) (\<lambda>node.
       bind_result (HasMember key node) (\<lambda>has.
         if has then bind_result (member key node) (\<lambda>v. Inr (Some v)) else Inr None))"

definition get_raw_node :: "string \<Rightarrow> JsonModel \<Rightarrow> json result" where
  "get_raw_node key m =
     bind_result (find_node key m) (\<lambda>v.
       case v of None \<Rightarrow> Inl (RuntimeError ''std::exception'') | Some j \<Rightarrow> Inr j)"

text \<open>\<open>get_value<std::string>\<close> and \<open>get_value<int>\<close>.\<close>

definition get_value :: "(json \<Rightarrow> 'a result) \<Rightarrow> string \<Rightarrow> JsonModel \<Rightarrow> 'a option result" where
  "get_value get key m =
     bind_result (find_node key m) (\<lambda>v.
       case v of None \<Rightarrow> Inr None | Some j \<Rightarrow> bind_result (get j) (\<lambda>x. Inr (Some x)))"

text \<open>
  \<open>get_array<std::string>\<close>: the loop over the elements asks the array itself for its string.
\<close>

fun string_items :: "json \<Rightarrow> json list \<Rightarrow> string list result" where
  "string_items node [] = Inr []"
| "string_items node (item # items) =
     bind_result (GetString node) (\<lambda>s.
       bind_result (string_items node items) (\<lambda>rest. Inr (s # rest)))"

definition get_array_string :: "string \<Rightarrow> JsonModel \<Rightarrow> string list result" where
  "get_array_string key m =
     bind_result (find_node key m) (\<lambda>v.
       case v of
         Some (JArray items) \<Rightarrow> string_items (JArray items) items
       | _ \<Rightarrow> Inr [])"

text \<open>
  \<open>insert\<close> on a \<open>std::map\<close>, the list of its entries in the order of the keys; a key that is there
  keeps its value.
\<close>

fun map_insert :: "'k :: linorder \<Rightarrow> 'v \<Rightarrow> ('k \<times> 'v) list \<Rightarrow> ('k \<times> 'v) list" where
  "map_insert k v [] = [(k, v)]"
| "map_insert k v ((k', v') # m) =
     (if k < k' then (k, v) # (k', v') # m
      else if k = k' then (k', v') # m
      else (k', v') # map_insert k v m)"

text \<open>
  \<open>get_map<std::string>\<close>: the members up to the first that is an array or an object; the first of
  several equal names counts.
\<close>

fun map_items :: "(string \<times> json) list \<Rightarrow> (string \<times> string) list \<Rightarrow> (string \<times> string) list result" where
  "map_items [] ret = Inr ret"
| "map_items ((name, v) # rest) ret =
     (case v of
        JArray items \<Rightarrow> Inr ret
      | JObject members \<Rightarrow> Inr ret
      | _ \<Rightarrow> bind_result (GetString v) (\<lambda>s. map_items rest (map_insert name s ret)))"

definition get_map_string :: "string \<Rightarrow> JsonModel \<Rightarrow> (string \<times> string) list result" where
  "get_map_string key m =
     bind_result (find_node key m) (\<lambda>v.
       case v of
         None \<Rightarrow> Inr []
       | Some (JObject members) \<Rightarrow> map_items members []
       | Some _ \<Rightarrow> Inl AssertionFailed)"

text \<open>
  \<open>add_value\<close> tests the key in the body and adds the member to the root. A value of a type that is
  neither arithmetic nor \<open>std::string\<close>, such as a string literal, is not added: \<open>None\<close>.
\<close>

definition add_value :: "string \<Rightarrow> json option \<Rightarrow> JsonModel \<Rightarrow> (bool \<times> JsonModel) result" where
  "add_value key v m =
     bind_result (body_node m) (\<lambda>node.
       bind_result (HasMember key node) (\<lambda>has.
         if has then Inr (False, m)
         else case v of
                None \<Rightarrow> Inr (False, m)
              | Some j \<Rightarrow> bind_result (AddMember key j (root m)) (\<lambda>r. Inr (True, m\<lparr>root := r\<rparr>))))"

text \<open>\<open>add_array\<close> ends without a return statement, so there is no answer.\<close>

definition add_array_string :: "string \<Rightarrow> string list \<Rightarrow> JsonModel \<Rightarrow> (bool option \<times> JsonModel) result" where
  "add_array_string key items m =
     bind_result (body_node m) (\<lambda>node.
       bind_result (HasMember key node) (\<lambda>has.
         if has then Inr (Some False, m)
         else bind_result (AddMember key (JArray (map JString items)) (root m)) (\<lambda>r.
           Inr (None, m\<lparr>root := r\<rparr>))))"

text \<open>\<open>std::optional::value\<close>\<close>

definition opt_value :: "'a option result \<Rightarrow> 'a result" where
  "opt_value r =
     bind_result r (\<lambda>v. case v of None \<Rightarrow> Inl BadOptionalAccess | Some x \<Rightarrow> Inr x)"

subsection \<open>Requests and responses\<close>

definition RegisterClientRequest_new :: "JsonModel result" where
  "RegisterClientRequest_new =
     bind_result (add_value ''group'' None JsonModel_empty) (\<lambda>(ok, m). Inr m)"

definition setMachineID :: "string \<Rightarrow> JsonModel \<Rightarrow> JsonModel result" where
  "setMachineID machine_id m =
     bind_result (add_value ''machineID'' (Some (JString machine_id)) m) (\<lambda>(ok, m). Inr m)"

definition setIPAddress :: "string \<Rightarrow> JsonModel \<Rightarrow> JsonModel result" where
  "setIPAddress ipaddress m =
     bind_result (add_value ''ip'' (Some (JString ipaddress)) m) (\<lambda>(ok, m). Inr m)"

definition register_code :: "JsonModel \<Rightarrow> int result" where
  "register_code m = opt_value (get_value GetInt ''register_code'' m)"

definition register_device_id :: "JsonModel \<Rightarrow> string result" where
  "register_device_id m = opt_value (get_value GetString ''client_id'' m)"

definition register_enable_url :: "JsonModel \<Rightarrow> string result" where
  "register_enable_url m = opt_value (get_value GetString ''enable_url'' m)"

definition register_jwt_key :: "JsonModel \<Rightarrow> string result" where
  "register_jwt_key m = opt_value (get_value GetString ''login_token'' m)"

text \<open>A vector of strings is not one of the types that \<open>get_value\<close> supports: it answers nothing.\<close>

definition register_ip_address :: "JsonModel \<Rightarrow> string list result" where
  "register_ip_address m = opt_value (bind_result (find_node ''ip_address'' m) (\<lambda>v. Inr None))"

definition cert_device_id :: "JsonModel \<Rightarrow> string result" where
  "cert_device_id m = opt_value (get_value GetString ''client_id'' m)"

definition cert_PSCK12 :: "JsonModel \<Rightarrow> string result" where
  "cert_PSCK12 m = opt_value (get_value GetString ''PSCK12_certificate'' m)"

definition info_device_id :: "JsonModel \<Rightarrow> string result" where
  "info_device_id m = opt_value (get_value GetString ''client_id'' m)"

definition info_machine_id :: "JsonModel \<Rightarrow> string result" where
  "info_machine_id m = opt_value (get_value GetString ''machine_id'' m)"

definition info_device_ip :: "JsonModel \<Rightarrow> string result" where
  "info_device_ip m = opt_value (get_value GetString ''ip_address'' m)"

definition info_register_user :: "JsonModel \<Rightarrow> string result" where
  "info_register_user m = opt_value (get_value GetString ''register_by'' m)"

definition peer_list :: "JsonModel \<Rightarrow> (string \<times> string) list result" where
  "peer_list m = get_map_string ''peers'' m"

definition user_name :: "JsonModel \<Rightarrow> string result" where
  "user_name m = opt_value (get_value GetString ''username'' m)"

definition user_detail_email :: "JsonModel \<Rightarrow> string result" where
  "user_detail_email m = opt_value (get_value GetString ''email'' m)"

text \<open>\<open>get_user_group_from_node\<close>: the groups of an array by their id, the first of several with the same id.\<close>

fun group_items :: "json list \<Rightarrow> (int \<rightharpoonup> string \<times> string) \<Rightarrow> (int \<rightharpoonup> string \<times> string) result" where
  "group_items [] ret = Inr ret"
| "group_items (g # gs) ret =
     bind_result (bind_result (member ''id'' g) GetInt) (\<lambda>i.
     bind_result (bind_result (member ''name'' g) GetString) (\<lambda>name.
     bind_result (bind_result (member ''description'' g) GetString) (\<lambda>desc.
       group_items gs (if ret i = None then ret(i \<mapsto> (name, desc)) else ret))))"

fun get_user_group_from_node :: "json \<Rightarrow> (int \<rightharpoonup> string \<times> string) result" where
  "get_user_group_from_node (JArray groups) = group_items groups Map.empty"
| "get_user_group_from_node _ = Inl AssertionFailed"

definition user_detail_group :: "JsonModel \<Rightarrow> int \<rightharpoonup> string \<times> string" where
  "user_detail_group m = Map.empty"

definition user_group :: "JsonModel \<Rightarrow> int \<rightharpoonup> string \<times> string" where
  "user_group m = Map.empty"

definition login_user_id :: "JsonModel \<Rightarrow> string result" where
  "login_user_id m = opt_value (get_value GetString ''user_id'' m)"

definition login_user_email :: "JsonModel \<Rightarrow> string result" where
  "login_user_email m = opt_value (get_value GetString ''email'' m)"

text \<open>The keys of a group response are written with backslashes in front.\<close>

definition backslash :: char where "backslash = CHR 0x5C"

definition group_id :: "JsonModel \<Rightarrow> int result" where
  "group_id m = opt_value (get_value GetInt (backslash # ''group'' @ backslash # ''id'') m)"

definition group_name :: "JsonModel \<Rightarrow> string result" where
  "group_name m = opt_value (get_value GetString (backslash # ''group'' @ backslash # ''name'') m)"

definition group_desc :: "JsonModel \<Rightarrow> string result" where
  "group_desc m = opt_value (get_value GetString (backslash # ''group'' @ backslash # ''description'') m)"

subsection \<open>Device configuration\<close>

definition DeviceConfiguration_of_file :: "(string \<Rightarrow> json option) \<Rightarrow> string option \<Rightarrow> JsonModel result" where
  "DeviceConfiguration_of_file parse file = JsonModel_of_file parse file"

definition DeviceConfiguration_new :: "JsonModel \<Rightarrow> JsonModel result" where
  "DeviceConfiguration_new response =
     bind_result (register_device_id response) (\<lambda>id.
       if id = [] then Inl (RuntimeError ''Device id or jwt key is empty'')
       else bind_result (register_jwt_key response) (\<lambda>key.
         if key = [] then Inl (RuntimeError ''Device id or jwt key is empty'')
         else bind_result (add_value ''jwt_key'' (Some (JString key)) JsonModel_empty) (\<lambda>(ok, m).
           bind_result (add_value ''device_id'' (Some (JString id)) m) (\<lambda>(ok, m). Inr m))))"

definition conf_jwt_key :: "JsonModel \<Rightarrow> string result" where
  "conf_jwt_key m = opt_value (get_value GetString ''jwt_key'' m)"

definition conf_device_id :: "JsonModel \<Rightarrow> string result" where
  "conf_device_id m = opt_value (get_value GetString ''device_id'' m)"

definition conf_device_ip :: "JsonModel \<Rightarrow> string list result" where
  "conf_device_ip m = get_array_string ''device_ip'' m"

section \<open>Lemmas\<close>

lemma find_node_plain:
  "\<not> response_flag m \<Longrightarrow> root m = JObject members \<Longrightarrow> find_node key m = Inr (map_of members key)"
  by (cases "map_of members key") (auto simp: find_node_def body_node_def)

lemma add_value_plain:
  "\<not> response_flag m \<Longrightarrow> root m = JObject members \<Longrightarrow> map_of members key = None \<Longrightarrow>
     add_value key (Some j) m = Inr (True, m\<lparr>root := JObject (members @ [(key, j)])\<rparr>)"
  by (simp add: add_value_def body_node_def)

lemma opt_value_string:
  "find_node key m = Inr (Some (JString s)) \<Longrightarrow> opt_value (get_value GetString key m) = Inr s"
  by (simp add: opt_value_def get_value_def)

text \<open>What the configuration of a device is made from, and what is in it.\<close>

definition conf_root :: "string \<Rightarrow> string \<Rightarrow> json" where
  "conf_root key device = JObject [(''jwt_key'', JString key), (''device_id'', JString device)]"

lemma DeviceConfiguration_new_eq:
  assumes "register_device_id r = Inr device" "device \<noteq> []" "register_jwt_key r = Inr key" "key \<noteq> []"
  shows "DeviceConfiguration_new r = Inr \<lparr>response_flag = False, json_buf = None, root = conf_root key device\<rparr>"
  using assms by (simp add: DeviceConfiguration_new_def JsonModel_empty_def add_value_plain conf_root_def)

lemma conf_accessors:
  "root m = conf_root key device \<Longrightarrow> \<not> response_flag m \<Longrightarrow> conf_jwt_key m = Inr key \<and> conf_device_id m = Inr device"
  by (simp add: conf_jwt_key_def conf_device_id_def opt_value_string find_node_plain conf_root_def)

definition rapidjson_documented :: "(json \<Rightarrow> string) \<Rightarrow> (string \<Rightarrow> json option) \<Rightarrow> bool" where
  "rapidjson_documented writer parse \<longleftrightarrow> (\<forall>j. parse (writer j) = Some j)"

lemma conf_saved_loaded:
  assumes "rapidjson_documented writer parse" and "root conf = conf_root key device"
  shows "DeviceConfiguration_of_file parse (Some (save writer conf)) =
    Inr \<lparr>response_flag = False, json_buf = None, root = conf_root key device\<rparr>"
  using assms by (simp add: DeviceConfiguration_of_file_def JsonModel_of_file_def rapidjson_documented_def
      save_def get_json_def is_response_def conf_root_def)

text \<open>A device keeps its identity: the configuration made from a registration response with a
  device id and a login token holds exactly these, and, with a JSON library that parses what it
  writes, so does the configuration loaded from the file it was saved to.\<close>

theorem device_configuration_round_trip:
  assumes "rapidjson_documented writer parse"
    and "register_device_id response = Inr device" "device \<noteq> []"
    and "register_jwt_key response = Inr key" "key \<noteq> []"
  shows "\<exists>conf loaded. DeviceConfiguration_new response = Inr conf \<and>
    DeviceConfiguration_of_file parse (Some (save writer conf)) = Inr loaded \<and>
    conf_device_id conf = Inr device \<and> conf_jwt_key conf = Inr key \<and>
    conf_device_id loaded = Inr device \<and> conf_jwt_key loaded = Inr key"
proof -
  let ?conf = "\<lparr>response_flag = False, json_buf = None, root = conf_root key device\<rparr>"
  have "DeviceConfiguration_of_file parse (Some (save writer ?conf)) = Inr ?conf"
    using assms(1) by (rule conf_saved_loaded) simp
  then show ?thesis using DeviceConfiguration_new_eq [OF assms(2-5)] conf_accessors [of ?conf key device]
    by simp
qed

text \<open>Reading an array of strings never works: a key whose value is a non-empty array fails
  RapidJSON's type assertion, because the loop asks the array instead of its element for the
  string; an empty array, another kind of value and a missing key give the empty list.\<close>

theorem get_array_string_fails:
  "get_array_string key \<lparr>response_flag = False, json_buf = b, root = JObject members\<rparr> =
     (case map_of members key of
        Some (JArray (item # items)) \<Rightarrow> Inl AssertionFailed
      | _ \<Rightarrow> Inr [])"
  by (auto simp: get_array_string_def find_node_plain split: option.splits json.splits list.splits)

definition group_json :: "int \<times> string \<times> string \<Rightarrow> json" where
  "group_json g = (case g of (i, name, desc) \<Rightarrow>
     JObject [(''id'', JInt i), (''name'', JString name), (''description'', JString desc)])"

lemma group_items_groups:
  "\<forall>g \<in> set gs. - (2 ^ 31) \<le> fst g \<and> fst g < 2 ^ 31 \<Longrightarrow>
     group_items (map group_json gs) ret = Inr (map_of gs ++ ret)"
proof (induction gs arbitrary: ret)
  case (Cons g gs)
  obtain i name desc where "g = (i, name, desc)" by (cases g)
  with Cons show ?case by (auto simp: group_json_def map_add_def fun_eq_iff split: option.splits)
qed simp

lemma register_ip_address_fails: "\<exists>e. register_ip_address m = Inl e"
  by (cases "find_node ''ip_address'' m") (auto simp: register_ip_address_def opt_value_def)

lemma request_without_group: "RegisterClientRequest_new = Inr JsonModel_empty"
  by (simp add: RegisterClientRequest_new_def add_value_def JsonModel_empty_def body_node_def)

lemma missing_file_fails: "JsonModel_of_file parse None = Inr m \<Longrightarrow> find_node key m = Inl AssertionFailed"
  by (auto simp: JsonModel_of_file_def find_node_def body_node_def)

section \<open>Maps of strings\<close>

lemma map_insert_keys: "fst ` set (map_insert k v m) = insert k (fst ` set m)"
  by (induction k v m rule: map_insert.induct) auto

lemma map_insert_sorted:
  "sorted_wrt (<) (map fst m) \<Longrightarrow> sorted_wrt (<) (map fst (map_insert k v m))"
proof (induction k v m rule: map_insert.induct)
  case (2 k v k' v' m)
  have "k' < x" if "x \<in> fst ` set (map_insert k v m)" "k' < k" for x
    using that 2(2) by (auto simp: map_insert_keys)
  with 2 show ?case by (auto simp del: image_iff)
qed simp

lemma map_insert_lookup:
  "sorted_wrt (<) (map fst m) \<Longrightarrow>
     map_of (map_insert k v m) = (if map_of m k = None then (map_of m)(k \<mapsto> v) else map_of m)"
proof (induction k v m rule: map_insert.induct)
  case (2 k v k' v' m)
  have "map_of m k = None" if "k < k'"
    using that 2(2) by (auto simp: map_of_eq_None_iff)
  with 2 show ?case by (auto simp: fun_upd_twist)
qed simp

text \<open>What \<open>get_map\<close> returns for an object of strings: its entries in the order of their names, and
  for every name the first value that the object has.\<close>

lemma map_items_strings:
  "list_all (\<lambda>(k, j). \<exists>s. j = JString s) members \<Longrightarrow> sorted_wrt (<) (map fst ret) \<Longrightarrow>
     \<exists>m. map_items members ret = Inr m \<and> sorted_wrt (<) (map fst m) \<and>
       map_of m = map_of (map (\<lambda>(k, j). (k, case j of JString s \<Rightarrow> s | _ \<Rightarrow> [])) members) ++ map_of ret"
proof (induction members arbitrary: ret)
  case (Cons x members)
  then obtain k s where x: "x = (k, JString s)" by (cases x) auto
  let ?r = "map_insert k s ret"
  have "map_of ?r = [k \<mapsto> s] ++ map_of ret"
    using map_insert_lookup [OF Cons.prems(2)] by (auto simp: map_add_def fun_eq_iff split: option.splits)
  moreover obtain m where "map_items members ?r = Inr m" "sorted_wrt (<) (map fst m)"
      "map_of m = map_of (map (\<lambda>(k, j). (k, case j of JString s \<Rightarrow> s | _ \<Rightarrow> [])) members) ++ map_of ?r"
    using Cons.IH [OF _ map_insert_sorted [OF Cons.prems(2)]] Cons.prems(1) by auto
  ultimately show ?case
    unfolding x by (intro exI [of _ m]) (auto simp: map_add_def fun_eq_iff split: option.splits)
qed simp

section \<open>A JSON library\<close>

text \<open>A writer and a parser for the witness: the height of the document, and then its nodes.\<close>

fun height :: "json \<Rightarrow> nat" where
  "height (JArray js) = Suc (foldr max (map height js) 0)"
| "height (JObject ms) = Suc (foldr max (map (\<lambda>m. height (snd m)) ms) 0)"
| "height _ = 1"

fun put_json :: "json \<Rightarrow> string" where
  "put_json JNull = put_nat 0"
| "put_json (JBool b) = put_nat 1 @ put_nat (if b then 1 else 0)"
| "put_json (JInt i) = put_nat 2 @ put_int i"
| "put_json (JString s) = put_nat 3 @ put_str s"
| "put_json (JArray js) = put_nat 4 @ put_nat (length js) @ concat (map put_json js)"
| "put_json (JObject ms) = put_nat 5 @ put_nat (length ms) @ concat (map (\<lambda>m. put_str (fst m) @ put_json (snd m)) ms)"

fun parse_json :: "nat \<Rightarrow> string \<Rightarrow> json \<times> string" where
  "parse_json 0 s = (JNull, s)"
| "parse_json (Suc n) s =
     (let (tag, r) = get_nat s
      in if tag = 0 then (JNull, r)
         else if tag = 1 then (let (b, r) = get_nat r in (JBool (b = 1), r))
         else if tag = 2 then (let (i, r) = get_int r in (JInt i, r))
         else if tag = 3 then (let (t, r) = get_str r in (JString t, r))
         else if tag = 4 then (let (js, r) = get_list (parse_json n) r in (JArray js, r))
         else (let (ms, r) = get_list (\<lambda>t. let (k, t) = get_str t; (v, t) = parse_json n t in ((k, v), t)) r
               in (JObject ms, r)))"

lemma foldr_max_member: "x \<in> set xs \<Longrightarrow> f x \<le> foldr max (map f xs) (0 :: nat)"
  by (induction xs) (auto simp: max_def)

lemma parse_put_json: "height j \<le> n \<Longrightarrow> parse_json n (put_json j @ r) = (j, r)"
proof (induction j arbitrary: n r)
  case (JArray js)
  then obtain k where n: "n = Suc k" and k: "foldr max (map height js) 0 \<le> k" by (cases n) auto
  have "parse_json k (put_json x @ t) = (x, t)" if "x \<in> set js" for x t
    using JArray.IH [OF that] foldr_max_member [OF that, of height] k by simp
  then have "get_list (parse_json k) (put_list put_json js @ r) = (js, r)" by (rule get_put_list)
  then show ?case by (simp add: n put_list_def)
next
  case (JObject ms)
  then obtain k where n: "n = Suc k" and k: "foldr max (map (\<lambda>m. height (snd m)) ms) 0 \<le> k" by (cases n) auto
  have "(let (key, t) = get_str ((put_str (fst x) @ put_json (snd x)) @ t); (v, t) = parse_json k t
      in ((key, v), t)) = (x, t)" if x: "x \<in> set ms" for x t
  proof -
    have "snd x \<in> Basic_BNFs.snds x" by (cases x) auto
    then have "parse_json k (put_json (snd x) @ t) = (snd x, t)"
      using JObject.IH [OF x] foldr_max_member [OF x, of "\<lambda>m. height (snd m)"] k by simp
    then show ?thesis by simp
  qed
  then have "get_list (\<lambda>t. let (key, t) = get_str t; (v, t) = parse_json k t in ((key, v), t))
      (put_list (\<lambda>m. put_str (fst m) @ put_json (snd m)) ms @ r) = (ms, r)" by (rule get_put_list)
  then show ?case by (simp add: n put_list_def)
qed (auto simp: Suc_le_eq gr0_conv_Suc)

definition plain_writer :: "json \<Rightarrow> string" where
  "plain_writer j = put_nat (height j) @ put_json j"

definition plain_reader :: "string \<Rightarrow> json option" where
  "plain_reader s = (let (n, r) = get_nat s in Some (fst (parse_json n r)))"

lemma plain_json_documented: "rapidjson_documented plain_writer plain_reader"
  using parse_put_json [OF order_refl, where r = "[]"]
  by (simp add: rapidjson_documented_def plain_writer_def plain_reader_def)

theorem device_configuration_round_trip_witness:
  "\<exists>conf loaded. DeviceConfiguration_of_file plain_reader (Some (save plain_writer conf)) = Inr loaded \<and>
    conf_device_id loaded = Inr ''dev'' \<and> conf_jwt_key loaded = Inr ''token''"
proof -
  let ?r = "\<lparr>response_flag = False, json_buf = None,
    root = JObject [(''client_id'', JString ''dev''), (''login_token'', JString ''token'')]\<rparr>"
  have "register_device_id ?r = Inr ''dev''" "register_jwt_key ?r = Inr ''token''"
    by (simp_all add: register_device_id_def register_jwt_key_def opt_value_string find_node_plain)
  from device_configuration_round_trip [OF plain_json_documented this(1) _ this(2)]
  show ?thesis by auto
qed

end
