(* ===== verification/Curl_Utils.thy ===== *)
theory Curl_Utils
  imports P2P_Prelude
begin

text \<open>
  HTTP requests of the management API, \<open>daemon/management_api/utils/curl_utils.cc\<close>. libcurl is a
  parameter: which calls of \<open>curl_easy_setopt\<close> succeed, the chunks in which it delivers the body,
  and whether the transfer succeeds. A buffer is its contents up to \<open>head\<close> and its allocated size;
  a write past that size is \<open>OutOfBounds\<close>.
\<close>

section \<open>The code\<close>

datatype HttpMethod = GET | POST | DELETE

subsection \<open>Requests\<close>

datatype curl_option =
    OptCookieJar string
  | OptCookieFile string
  | OptShare
  | OptHeaders "string list"
  | OptPostFields string
  | OptHttpGet
  | OptPost
  | OptCustomRequest string
  | OptUrl string
  | OptWriteFunction
  | OptWriteData
  | OptFollowLocation
  | OptVerbose
  | OptVerifyPeer bool
  | OptVerifyHost bool
  | OptVerifyStatus bool

record curl_lib =
  curl_easy_init :: bool
  curl_easy_setopt :: "curl_option \<Rightarrow> bool"
  curl_body :: "string list"
  curl_transfer :: bool
  vlog4 :: bool

text \<open>
  The calls of \<open>curl_easy_setopt\<close> of a request in their order, each with whether its result is
  checked. The list of header lines that is set last is the one libcurl uses. With verbose logging the
  transfer is logged too.
\<close>

definition request_options :: "bool \<Rightarrow> HttpMethod \<Rightarrow> string option \<Rightarrow> bool \<Rightarrow> bool \<Rightarrow> string \<Rightarrow> string list \<Rightarrow> bool \<Rightarrow>
    (bool \<times> curl_option) list" where
  "request_options verbose http_method post_data json_string curl_share request_url header force_ssl =
     (let json_header = (if post_data \<noteq> None \<and> json_string then [''Content-Type:application/json''] else [])
      in (if curl_share then [(False, OptCookieJar []), (False, OptCookieFile []), (True, OptShare)] else []) @
         (case post_data of
            None \<Rightarrow> []
          | Some d \<Rightarrow> [(True, OptHeaders json_header), (True, OptPostFields d)]) @
         [(True, case http_method of GET \<Rightarrow> OptHttpGet | POST \<Rightarrow> OptPost | DELETE \<Rightarrow> OptCustomRequest ''DELETE'')] @
         (if header \<noteq> [] then [(True, OptHeaders (json_header @ header))] else []) @
         [(True, OptUrl request_url), (True, OptWriteFunction), (True, OptWriteData), (True, OptFollowLocation)] @
         (if verbose then [(False, OptVerbose)] else []) @
         [(True, OptVerifyPeer force_ssl), (True, OptVerifyHost force_ssl), (True, OptVerifyStatus force_ssl)])"

text \<open>
  The body is written chunk by chunk while the callback takes all of a chunk; \<open>write\<close> answers how
  many bytes it took.
\<close>

fun deliver :: "(string \<Rightarrow> 's \<Rightarrow> (nat \<times> 's) result) \<Rightarrow> string list \<Rightarrow> 's \<Rightarrow> (bool \<times> 's) result" where
  "deliver write [] s = Inr (True, s)"
| "deliver write (chunk # chunks) s =
     bind_result (write chunk s) (\<lambda>(n, s). if n = length chunk then deliver write chunks s else Inr (False, s))"

definition get_data_from_server :: "curl_lib \<Rightarrow> HttpMethod \<Rightarrow> string option \<Rightarrow> bool \<Rightarrow> bool \<Rightarrow> string \<Rightarrow>
    string list \<Rightarrow> (string \<Rightarrow> 's \<Rightarrow> (nat \<times> 's) result) \<Rightarrow> bool \<Rightarrow> 's \<Rightarrow> (bool \<times> 's) result" where
  "get_data_from_server lib http_method post_data json_string curl_share request_url header write force_ssl s =
     (if \<not> curl_easy_init lib then Inr (False, s)
      else if \<not> list_all (\<lambda>(checked, opt). checked \<longrightarrow> curl_easy_setopt lib opt)
        (request_options (vlog4 lib) http_method post_data json_string curl_share request_url header force_ssl)
      then Inr (False, s)
      else bind_result (deliver write (curl_body lib) s) (\<lambda>(ok, s). Inr (ok \<and> curl_transfer lib, s)))"

subsection \<open>Writing the body\<close>

record ptr_data =
  contents :: string
  current_size :: nat

text \<open>\<open>grows\<close> says for a size whether \<open>realloc\<close> to it succeeds.\<close>

definition write_to_ptr :: "(nat \<Rightarrow> bool) \<Rightarrow> string \<Rightarrow> ptr_data \<Rightarrow> (nat \<times> ptr_data) result" where
  "write_to_ptr grows chunk p =
     (let block_size = length chunk; head = length (contents p)
      in if current_size p < head + block_size \<and> \<not> grows (current_size p * 2) then Inr (0, p)
         else let size = (if current_size p < head + block_size then current_size p * 2 else current_size p)
              in if size < head + block_size then Inl OutOfBounds
                 else Inr (block_size, \<lparr>contents = contents p @ chunk, current_size = size\<rparr>))"

definition write_to_disk :: "string \<Rightarrow> string \<Rightarrow> (nat \<times> string) result" where
  "write_to_disk chunk file = Inr (length chunk, file @ chunk)"

text \<open>The file that is left: none when the download failed.\<close>

definition GET_and_save_to_path :: "curl_lib \<Rightarrow> bool \<Rightarrow> string \<Rightarrow> bool \<Rightarrow> (bool \<times> string option) result" where
  "GET_and_save_to_path lib curl_handler request_url force_ssl =
     bind_result (get_data_from_server lib GET None False curl_handler request_url [] write_to_disk force_ssl [])
       (\<lambda>(ret, file). Inr (ret, if ret then Some file else None))"

text \<open>The terminating zero is written at the end of the contents.\<close>

definition finish_ptr :: "bool \<times> ptr_data \<Rightarrow> string option result" where
  "finish_ptr r =
     (case r of (ok, p) \<Rightarrow>
        if \<not> ok then Inr None
        else if length (contents p) < current_size p then Inr (Some (contents p)) else Inl OutOfBounds)"

definition POST_and_save_to_ptr :: "curl_lib \<Rightarrow> (nat \<Rightarrow> bool) \<Rightarrow> bool \<Rightarrow> string \<Rightarrow> string option \<Rightarrow> bool \<Rightarrow> bool \<Rightarrow>
    string option result" where
  "POST_and_save_to_ptr lib grows curl_handler request_url post_data is_json force_ssl =
     bind_result (get_data_from_server lib POST post_data is_json curl_handler request_url []
       (write_to_ptr grows) force_ssl \<lparr>contents = [], current_size = 1024\<rparr>) finish_ptr"

definition GET_and_save_to_ptr :: "curl_lib \<Rightarrow> (nat \<Rightarrow> bool) \<Rightarrow> bool \<Rightarrow> string \<Rightarrow> string list \<Rightarrow> bool \<Rightarrow>
    string option result" where
  "GET_and_save_to_ptr lib grows curl_handler request_url header force_ssl =
     bind_result (get_data_from_server lib GET None False curl_handler request_url header
       (write_to_ptr grows) force_ssl \<lparr>contents = [], current_size = 1024 * 1024\<rparr>) finish_ptr"

section \<open>Bounds of the buffer\<close>

text \<open>The size of the buffer after a body of chunks that each fit in the buffer's size.\<close>

fun buffer_size :: "string list \<Rightarrow> nat \<Rightarrow> nat \<Rightarrow> nat" where
  "buffer_size [] head sz = sz"
| "buffer_size (c # cs) head sz =
     buffer_size cs (head + length c) (if sz < head + length c then sz * 2 else sz)"

lemma deliver_to_ptr:
  assumes "list_all (\<lambda>c. length c \<le> current_size p) cs" and "length (contents p) \<le> current_size p"
  shows "deliver (write_to_ptr (\<lambda>_. True)) cs p =
    Inr (True, \<lparr>contents = contents p @ concat cs,
      current_size = buffer_size cs (length (contents p)) (current_size p)\<rparr>) \<and>
    length (contents p @ concat cs) \<le> buffer_size cs (length (contents p)) (current_size p)"
  using assms
proof (induction cs arbitrary: p)
  case (Cons c cs)
  let ?size = "if current_size p < length (contents p) + length c then current_size p * 2 else current_size p"
  let ?p = "\<lparr>contents = contents p @ c, current_size = ?size\<rparr>"
  have "write_to_ptr (\<lambda>_. True) c p = Inr (length c, ?p)"
    using Cons.prems by (auto simp: write_to_ptr_def Let_def)
  moreover have "list_all (\<lambda>c. length c \<le> current_size ?p) cs"
    using Cons.prems by (auto simp: list_all_iff)
  moreover have "length (contents ?p) \<le> current_size ?p" using Cons.prems by auto
  ultimately show ?case using Cons.IH [of ?p] by simp
qed simp

text \<open>Downloads to memory: with a body in chunks no longer than 1024 bytes (POST) or 1 MiB (GET)
  and memory to be had, the whole body is returned in order, and the only write outside the buffer
  is the terminating zero, exactly when the body fills the buffer to its last byte.\<close>

theorem download_to_ptr_correct:
  assumes "curl_easy_init lib" and "curl_easy_setopt lib = (\<lambda>_. True)" and "curl_transfer lib"
    and "list_all (\<lambda>c. length c \<le> 1024) (curl_body lib)"
  shows "POST_and_save_to_ptr lib (\<lambda>_. True) share url post_data is_json force_ssl =
      (if length (concat (curl_body lib)) < buffer_size (curl_body lib) 0 1024
       then Inr (Some (concat (curl_body lib))) else Inl OutOfBounds) \<and>
    GET_and_save_to_ptr lib (\<lambda>_. True) share url header force_ssl =
      (if length (concat (curl_body lib)) < buffer_size (curl_body lib) 0 (1024 * 1024)
       then Inr (Some (concat (curl_body lib))) else Inl OutOfBounds)"
proof -
  have ok: "list_all (\<lambda>(checked, opt). True) opts" for opts :: "(bool \<times> curl_option) list"
    by (simp add: list_all_iff)
  have big: "list_all (\<lambda>c. length c \<le> 1024 * 1024) (curl_body lib)"
    using assms(4) by (auto simp: list_all_iff)
  show ?thesis
    using deliver_to_ptr [of "\<lparr>contents = [], current_size = 1024\<rparr>" "curl_body lib"]
      deliver_to_ptr [of "\<lparr>contents = [], current_size = 1024 * 1024\<rparr>" "curl_body lib"] assms big
    by (simp add: POST_and_save_to_ptr_def GET_and_save_to_ptr_def get_data_from_server_def ok
        finish_ptr_def)
qed

definition plain_curl :: "string list \<Rightarrow> curl_lib" where
  "plain_curl body = \<lparr>curl_easy_init = True, curl_easy_setopt = (\<lambda>_. True), curl_body = body, curl_transfer = True,
     vlog4 = False\<rparr>"

lemma plain_answer:
  assumes "length b < 1024"
  shows "POST_and_save_to_ptr (plain_curl [b]) (\<lambda>_. True) share url post_data is_json force_ssl = Inr (Some b)"
    and "GET_and_save_to_ptr (plain_curl [b]) (\<lambda>_. True) share url header force_ssl = Inr (Some b)"
  using assms by (simp_all add: POST_and_save_to_ptr_def GET_and_save_to_ptr_def get_data_from_server_def
      plain_curl_def list_all_iff write_to_ptr_def finish_ptr_def Let_def)

theorem download_to_ptr_correct_witness:
  "POST_and_save_to_ptr (plain_curl [''hello '', ''world'']) (\<lambda>_. True) False ''url'' None False True =
     Inr (Some ''hello world'')"
  using download_to_ptr_correct [of "plain_curl [''hello '', ''world'']" False "''url''" None False True "[]"]
  by (simp add: plain_curl_def)

text \<open>The buffer is doubled at most once per chunk: a response to a POST whose first chunk is
  longer than 2048 bytes (libcurl delivers up to 16 KiB at a time) is written past the end of the
  buffer.\<close>

theorem long_chunk_overflows:
  assumes "2048 < length chunk" and "grows 2048"
  shows "write_to_ptr grows chunk \<lparr>contents = [], current_size = 1024\<rparr> = Inl OutOfBounds"
  using assms by (simp add: write_to_ptr_def Let_def)

theorem long_chunk_overflows_witness:
  "write_to_ptr (\<lambda>_. True) (replicate 4096 (CHR ''x'')) \<lparr>contents = [], current_size = 1024\<rparr> = Inl OutOfBounds"
  by (rule long_chunk_overflows) simp_all

end
