(* ===== verification/Config.thy ===== *)
theory Config
  imports Ip_Address Codec
begin

text \<open>
  The configuration: \<open>daemon/management_api/include/configuration.h\<close> and
  \<open>daemon/utils/config_reader.cc\<close>. A YAML document is a list of entries, a path of keys and a
  scalar each, the last entry of a path being the current one. The YAML library's emitter and
  parser are parameters with the documented law that parsing gives back what was emitted.
\<close>

section \<open>The code\<close>

subsection \<open>Settings\<close>

record Config =
  worker_thread_num :: u8
  packet_cached_size :: u32
  management_server_url :: string
  p2p_port :: u16
  p2p_listen_address :: string
  p2p_listen_interface :: string
  mount_point :: string
  config_folder :: string
  manage_sock_url :: string
  client_certificate_path :: string
  server_certificate_path :: string
  client_configuration_path :: string

text \<open>\<open>operator/\<close> of \<open>std::filesystem::path\<close> with a relative right operand.\<close>

definition path_append :: "string \<Rightarrow> string \<Rightarrow> string" where
  "path_append p q = (if p = [] \<or> last p = CHR ''/'' then p @ q else p @ ''/'' @ q)"

definition Config_default :: Config where
  "Config_default =
     (let folder = ''/tmp/p2p_sync''
      in \<lparr>worker_thread_num = 5, packet_cached_size = 100,
          management_server_url = ''http://10.10.0.118'', p2p_port = 3324,
          p2p_listen_address = [], p2p_listen_interface = ''eth0'',
          mount_point = ''/mnt/p2pfs'', config_folder = folder,
          manage_sock_url = path_append folder ''sync.sock'',
          client_certificate_path = path_append folder ''device.p12'',
          server_certificate_path = path_append folder ''client_sign_root.crt'',
          client_configuration_path = path_append folder ''device.cfg''\<rparr>)"

text \<open>The constructor from its twelve arguments, in the order of the source.\<close>

definition Config_new :: "u8 \<Rightarrow> u32 \<Rightarrow> string \<Rightarrow> u16 \<Rightarrow> string \<Rightarrow> string \<Rightarrow> string \<Rightarrow> string \<Rightarrow> string \<Rightarrow>
    string \<Rightarrow> string \<Rightarrow> string \<Rightarrow> Config" where
  "Config_new worker cached url port addr ifc mnt folder sock client_conf client_cert server_cert =
     \<lparr>worker_thread_num = worker, packet_cached_size = cached, management_server_url = url,
      p2p_port = port, p2p_listen_address = addr, p2p_listen_interface = ifc, mount_point = mnt,
      config_folder = folder, manage_sock_url = sock, client_certificate_path = client_cert,
      server_certificate_path = server_cert, client_configuration_path = client_conf\<rparr>"

subsection \<open>Documents\<close>

type_synonym yaml = "(string list \<times> string) list"

definition yaml_set :: "string list \<Rightarrow> string \<Rightarrow> yaml \<Rightarrow> yaml" where
  "yaml_set path v doc = (path, v) # doc"

text \<open>\<open>node[...].as<T>()\<close> throws when the node is not defined or the scalar does not convert.\<close>

definition as_string :: "string list \<Rightarrow> yaml \<Rightarrow> string result" where
  "as_string path doc =
     (case map_of doc path of None \<Rightarrow> Inl (RuntimeError ''InvalidNode'') | Some s \<Rightarrow> Inr s)"

definition as_unsigned :: "nat \<Rightarrow> string list \<Rightarrow> yaml \<Rightarrow> nat result" where
  "as_unsigned bound path doc =
     bind_result (as_string path doc) (\<lambda>s.
       if s \<noteq> [] \<and> list_all is_digit s \<and> decimal_value s < bound then Inr (decimal_value s)
       else Inl (RuntimeError ''TypedBadConversion''))"

text \<open>\<open>as<int>\<close>, on a scalar that may have a sign.\<close>

definition as_int :: "string list \<Rightarrow> yaml \<Rightarrow> int result" where
  "as_int path doc =
     bind_result (as_string path doc) (\<lambda>s.
       let negative = (s \<noteq> [] \<and> hd s = CHR ''-''); digits = (if negative then tl s else s)
       in if digits \<noteq> [] \<and> list_all is_digit digits \<and> decimal_value digits < 2 ^ 31
          then Inr (if negative then - int (decimal_value digits) else int (decimal_value digits))
          else Inl (RuntimeError ''TypedBadConversion''))"

subsection \<open>Saving and loading\<close>

definition config_document :: "Config \<Rightarrow> yaml" where
  "config_document config =
     yaml_set [''sync'', ''client_configuration_path''] (client_configuration_path config)
     (yaml_set [''sync'', ''client_certificate_path''] (client_certificate_path config)
     (yaml_set [''sync'', ''server_certificate_path''] (server_certificate_path config)
     (yaml_set [''sync'', ''config_folder''] (config_folder config)
     (yaml_set [''sync'', ''mount_point''] (mount_point config)
     (yaml_set [''sync'', ''manage_sock''] (manage_sock_url config)
     (yaml_set [''p2p'', ''p2p_listen_interface''] (p2p_listen_interface config)
     (yaml_set [''p2p'', ''p2p_listen_address''] (p2p_listen_address config)
     (yaml_set [''p2p'', ''p2p_port''] (show_nat (unat (p2p_port config)))
     (yaml_set [''management_server_url''] (management_server_url config)
     (yaml_set [''packet_cache_size''] (show_nat (unat (packet_cached_size config)))
     (yaml_set [''worker_thread''] (show_nat (unat (worker_thread_num config))) [])))))))))))"

text \<open>
  The answer and the text written; \<open>opened\<close> and \<open>good\<close> are the states of the file stream. A null
  configuration is dereferenced once the file is open.
\<close>

definition save_config :: "(yaml \<Rightarrow> string) \<Rightarrow> bool \<Rightarrow> bool \<Rightarrow> Config option \<Rightarrow> (bool \<times> string option) result" where
  "save_config emit opened good config =
     (if \<not> opened then Inr (False, None)
      else case config of
             None \<Rightarrow> Inl NullDeref
           | Some config \<Rightarrow>
               if \<not> good then Inr (False, None)
               else Inr (True, Some (emit (config_document config) @ [CHR 0x0A])))"

text \<open>\<open>parse\<close> is \<open>YAML::LoadFile\<close> on the text of the file, \<open>None\<close> when it throws.\<close>

definition load_config :: "(string \<Rightarrow> yaml option) \<Rightarrow> string \<Rightarrow> Config option result" where
  "load_config parse contents =
     (case parse contents of
        None \<Rightarrow> Inr None
      | Some doc \<Rightarrow>
          bind_result (as_int [''worker_thread''] doc) (\<lambda>worker.
          bind_result (as_unsigned (2 ^ 32) [''packet_cache_size''] doc) (\<lambda>cached.
          bind_result (as_string [''management_server_url''] doc) (\<lambda>url.
          bind_result (as_unsigned (2 ^ 16) [''p2p'', ''p2p_port''] doc) (\<lambda>port.
          bind_result (as_string [''p2p'', ''p2p_listen_address''] doc) (\<lambda>addr.
          bind_result (as_string [''p2p'', ''p2p_listen_interface''] doc) (\<lambda>ifc.
          bind_result (as_string [''sync'', ''mount_point''] doc) (\<lambda>mnt.
          bind_result (as_string [''sync'', ''config_folder''] doc) (\<lambda>folder.
          bind_result (as_string [''sync'', ''manage_sock''] doc) (\<lambda>sock.
          bind_result (as_string [''sync'', ''client_configuration_path''] doc) (\<lambda>client_conf.
          bind_result (as_string [''sync'', ''client_certificate_path''] doc) (\<lambda>client_cert.
          bind_result (as_string [''sync'', ''server_certificate_path''] doc) (\<lambda>server_cert.
            Inr (Some (Config_new (word_of_int worker) (of_nat cached) url (of_nat port) addr ifc mnt
              folder sock client_conf client_cert server_cert)))))))))))))))"

section \<open>Round trip\<close>

definition yaml_documented :: "(yaml \<Rightarrow> string) \<Rightarrow> (string \<Rightarrow> yaml option) \<Rightarrow> bool" where
  "yaml_documented emit parse \<longleftrightarrow> (\<forall>doc. parse (emit doc @ [CHR 0x0A]) = Some doc)"

lemma as_unsigned_show:
  "map_of doc path = Some (show_nat n) \<Longrightarrow> n < bound \<Longrightarrow> as_unsigned bound path doc = Inr n"
  using show_nat_digits [of n] by (simp add: as_unsigned_def as_string_def)

lemma as_int_show:
  assumes "map_of doc path = Some (show_nat n)" and "n < 2 ^ 31"
  shows "as_int path doc = Inr (int n)"
proof -
  obtain c t where s: "show_nat n = c # t" using show_nat_digits [of n] by (cases "show_nat n") auto
  moreover have "is_digit c" using show_nat_digits [of n] s by simp
  then have "c \<noteq> CHR ''-''" using digit_not_special by blast
  ultimately show ?thesis using assms show_nat_digits [of n] decimal_value_show [of n]
    by (simp add: as_int_def as_string_def)
qed

lemma load_saved_config:
  assumes "yaml_documented emit parse"
    and "save_config emit opened good (Some config) = Inr (True, Some contents)"
  shows "load_config parse contents = Inr (Some config)"
proof -
  have "parse contents = Some (config_document config)"
    using assms by (auto simp: save_config_def yaml_documented_def split: if_splits)
  moreover have bounds: "unat (worker_thread_num config) < 2 ^ 31"
      "unat (packet_cached_size config) < 2 ^ 32" "unat (p2p_port config) < 2 ^ 16"
    using unsigned_less [of "worker_thread_num config", where ?'a = nat]
      unsigned_less [of "packet_cached_size config", where ?'a = nat]
      unsigned_less [of "p2p_port config", where ?'a = nat] by simp_all
  moreover have "as_int [''worker_thread''] (config_document config) = Inr (int (unat (worker_thread_num config)))"
    by (rule as_int_show [OF _ bounds(1)]) (simp add: config_document_def yaml_set_def)
  moreover have "as_unsigned (2 ^ 32) [''packet_cache_size''] (config_document config) =
      Inr (unat (packet_cached_size config))"
    by (rule as_unsigned_show [OF _ bounds(2)]) (simp add: config_document_def yaml_set_def)
  moreover have "as_unsigned (2 ^ 16) [''p2p'', ''p2p_port''] (config_document config) =
      Inr (unat (p2p_port config))"
    by (rule as_unsigned_show [OF _ bounds(3)]) (simp add: config_document_def yaml_set_def)
  ultimately show ?thesis
    by (simp add: load_config_def as_string_def config_document_def yaml_set_def Config_new_def)
qed

text \<open>C28. Loading a saved configuration gives it back: with a YAML library that parses what it
  emits, \<open>load_config\<close> on the text that \<open>save_config\<close> writes returns a configuration equal in every
  field.\<close>

theorem config_save_load:
  assumes "yaml_documented emit parse"
    and "save_config emit opened good (Some config) = Inr (True, Some contents)"
  shows "load_config parse contents = Inr (Some config)"
  using assms by (rule load_saved_config)

text \<open>A YAML library for the witness.\<close>

definition plain_emit :: "yaml \<Rightarrow> string" where
  "plain_emit = put_list (\<lambda>(path, v). put_list put_str path @ put_str v)"

definition plain_parse :: "string \<Rightarrow> yaml option" where
  "plain_parse s =
     Some (fst (get_list (\<lambda>t. let (path, r) = get_list get_str t; (v, r) = get_str r in ((path, v), r)) s))"

lemma plain_yaml_documented: "yaml_documented plain_emit plain_parse"
proof -
  have "(let (path, r) = get_list get_str ((case x of (path, v) \<Rightarrow> put_list put_str path @ put_str v) @ r);
        (v, r) = get_str r in ((path, v), r)) = (x, r)" for x r
    by (cases x) (simp add: get_put_list)
  from get_put_list [OF this] show ?thesis
    by (simp add: yaml_documented_def plain_emit_def plain_parse_def)
qed

theorem config_save_load_witness:
  "\<exists>contents. save_config plain_emit True True (Some Config_default) = Inr (True, Some contents) \<and>
    load_config plain_parse contents = Inr (Some Config_default)"
  using config_save_load [OF plain_yaml_documented, of True True Config_default]
  by (simp add: save_config_def)

end
