(* ===== verification/Device_Identity.thy ===== *)
theory Device_Identity
  imports Ip_Address
begin

text \<open>
  What a device tells about itself, \<open>daemon/management_api/utils/\<close>: \<open>uuid_utils.cc\<close>,
  \<open>ip_address_utils.cc\<close> and \<open>machine_id_utils.cc\<close>. libuuid, the list of interfaces, the \<open>cpuid\<close>
  instruction, the file system and SHA-256 are parameters.
\<close>

section \<open>The code\<close>

subsection \<open>UUIDs\<close>

text \<open>A new UUID is unparsed into a buffer of 37 bytes, the last for the terminating zero.\<close>

definition new_uuid :: "u8 list \<Rightarrow> (u8 list \<Rightarrow> string) \<Rightarrow> string result" where
  "new_uuid uuid_generate uuid_unparse =
     (let uuid_str = uuid_unparse uuid_generate
      in if length uuid_str + 1 > 37 then Inl OutOfBounds else Inr uuid_str)"

text \<open>
  \<open>to_array\<close> passes the first byte of the zeroed array as the address to write to, a null pointer;
  \<open>uuid_parse\<close> writes there when the string is a UUID.
\<close>

definition to_array :: "(string \<Rightarrow> u8 list option) \<Rightarrow> string \<Rightarrow> u8 list result" where
  "to_array uuid_parse uuid_string =
     (case uuid_parse uuid_string of
        Some bytes \<Rightarrow> Inl NullDeref
      | None \<Rightarrow> Inr (replicate 16 0))"

text \<open>A \<open>char\<close> is signed: it is compared with the byte as an \<open>int\<close>.\<close>

definition signed_char :: "char \<Rightarrow> int" where
  "signed_char c = (let n = of_char c in if n < 128 then n else n - 256)"

fun compare_loop :: "u8 list \<Rightarrow> string \<Rightarrow> bool" where
  "compare_loop [] s = True"
| "compare_loop (b # bs) [] = False"
| "compare_loop (b # bs) (c # cs) = (if uint b \<noteq> signed_char c then False else compare_loop bs cs)"

definition uuid_compare :: "u8 list \<Rightarrow> string \<Rightarrow> bool" where
  "uuid_compare uuid uuid_string =
     (if length uuid_string \<noteq> length uuid then False else compare_loop uuid uuid_string)"

subsection \<open>Interface addresses\<close>

text \<open>
  An entry of \<open>getifaddrs\<close>: the name and the address, which may be null. \<open>None\<close> is a failed
  \<open>getifaddrs\<close>. \<open>inet_ntop\<close> fails for a family other than the two of the Internet.
\<close>

fun address_loop :: "(string \<times> sockaddr_in option) list \<Rightarrow> (string \<times> string) list result" where
  "address_loop [] = Inr []"
| "address_loop ((name, None) # rest) = Inl NullDeref"
| "address_loop ((name, Some addr) # rest) =
     (if sin_family addr = AF_INET6 then address_loop rest
      else if sin_family addr = AF_INET
      then bind_result (address_loop rest) (\<lambda>found. Inr ((name, inet_ntop4 (sin_addr addr)) # found))
      else address_loop rest)"

definition getIPAddresses :: "(string \<times> sockaddr_in option) list option \<Rightarrow> (string \<times> string) list result" where
  "getIPAddresses ifaddrs =
     (case ifaddrs of None \<Rightarrow> Inr [] | Some entries \<Rightarrow> address_loop entries)"

subsection \<open>Machine id\<close>

text \<open>A string stream: its contents and whether it is good; a failed stream takes nothing more.\<close>

record ostream =
  written :: string
  good :: bool

definition put_string :: "string \<Rightarrow> ostream \<Rightarrow> ostream" where
  "put_string s os = (if good os then os\<lparr>written := written os @ s\<rparr> else os)"

text \<open>
  Inserting the buffer of a file; when not a single character is inserted, because the file is
  missing or empty, the stream fails.
\<close>

definition put_buffer :: "string option \<Rightarrow> ostream \<Rightarrow> ostream" where
  "put_buffer file os =
     (if \<not> good os then os
      else case file of
             None \<Rightarrow> os\<lparr>good := False\<rparr>
           | Some s \<Rightarrow> if s = [] then os\<lparr>good := False\<rparr> else os\<lparr>written := written os @ s\<rparr>)"

definition hex_char :: "u8 \<Rightarrow> char" where
  "hex_char n = ''0123456789abcdef'' ! unat n"

definition hex_byte :: "u8 \<Rightarrow> string" where
  "hex_byte b = [hex_char (drop_bit 4 b), hex_char (b AND 0xF)]"

definition generate_sha256 :: "(string \<Rightarrow> u8 list) \<Rightarrow> string \<Rightarrow> string" where
  "generate_sha256 sha256 s = concat (map hex_byte (sha256 s))"

text \<open>The model, family and type fields of the processor signature, each as a decimal number.\<close>

definition cpu_info :: "u32 \<Rightarrow> string" where
  "cpu_info eax =
     concat (map (\<lambda>k. show_nat (unat (drop_bit k eax AND 0xF))) [4, 8, 12, 16, 20])"

text \<open>\<open>find\<close> of a string in a string.\<close>

fun contains :: "string \<Rightarrow> string \<Rightarrow> bool" where
  "contains pat [] = (pat = [])"
| "contains pat (c # s) = (take (length pat) (c # s) = pat \<or> contains pat s)"

record dir_entry =
  d_name :: string
  d_dir :: bool

record machine =
  cpuid_eax :: u32
  net_dir :: "dir_entry list option"
  real_path :: "string \<Rightarrow> string"
  file_at :: "string \<Rightarrow> string option"

fun mac_loop :: "machine \<Rightarrow> dir_entry list \<Rightarrow> ostream \<Rightarrow> ostream" where
  "mac_loop m [] final_id = final_id"
| "mac_loop m (dp # rest) final_id =
     (if take 1 (d_name dp) = ''.'' then mac_loop m rest final_id
      else if d_dir dp \<and> \<not> contains ''virtual/net/'' (real_path m (''/sys/class/net/'' @ d_name dp))
      then mac_loop m rest (put_buffer (file_at m ''file.txt'') final_id)
      else mac_loop m rest final_id)"

definition get_device_id :: "(string \<Rightarrow> u8 list) \<Rightarrow> machine \<Rightarrow> string result" where
  "get_device_id sha256 m =
     (let final_id = put_string (cpu_info (cpuid_eax m)) \<lparr>written = [], good = True\<rparr>
      in case net_dir m of
           None \<Rightarrow> Inl NullDeref
         | Some entries \<Rightarrow>
             (let final_id = mac_loop m entries final_id;
                  final_id = (case file_at m ''/etc/machine-id'' of
                                None \<Rightarrow> final_id
                              | Some s \<Rightarrow> put_buffer (Some s) final_id)
              in Inr (generate_sha256 sha256 (written final_id))))"

section \<open>UUID comparison\<close>

lemma of_char_word: "uint (of_char c :: u8) = of_char c"
proof -
  have "uint (of_int (of_char c) :: u8) = of_char c mod 256"
    by (simp add: uint_word_of_int del: of_char_mod_256)
  then show ?thesis by (simp add: of_int_of_char)
qed

lemma signed_char_eq: "uint b = signed_char c \<longleftrightarrow> b = of_char c \<and> unat b < 128" for b :: u8
proof -
  have lt: "of_char c < (256 :: int)"
    using pos_mod_bound [of 256 "of_char c :: int"] by simp
  have ge: "0 \<le> uint b" by simp
  have eq: "b = of_char c \<longleftrightarrow> uint b = of_char c"
    by (simp add: word_uint_eq_iff of_char_word)
  have "unat b < 128 \<longleftrightarrow> uint b < 128" unfolding unat_eq_nat_uint using ge by linarith
  moreover have "uint b \<noteq> of_char c - 256" using lt ge by linarith
  ultimately show ?thesis unfolding eq signed_char_def Let_def by auto
qed

lemma compare_loop_iff:
  "length s = length uuid \<Longrightarrow>
     compare_loop uuid s \<longleftrightarrow> uuid = map of_char s \<and> (\<forall>b \<in> set uuid. unat b < 128)"
  by (induction uuid s rule: compare_loop.induct) (auto simp: signed_char_eq)

text \<open>Equality of a UUID and a string, for the bytes below 128; a byte from 128 on equals no character.\<close>

theorem uuid_compare_iff:
  "uuid_compare uuid s \<longleftrightarrow> uuid = map of_char s \<and> (\<forall>b \<in> set uuid. unat b < 128)"
  by (auto simp: uuid_compare_def compare_loop_iff)

text \<open>A new UUID cannot be used: with a libuuid that writes 36 characters and parses what it writes,
  converting it writes through a null pointer, and comparing it with its own bytes answers no.\<close>

theorem new_uuid_unusable:
  assumes "length uuid = 16" and "length (uuid_unparse uuid) = 36" and "uuid_parse (uuid_unparse uuid) = Some uuid"
  shows "\<exists>s. new_uuid uuid uuid_unparse = Inr s \<and> to_array uuid_parse s = Inl NullDeref \<and> \<not> uuid_compare uuid s"
  using assms by (simp add: new_uuid_def Let_def to_array_def uuid_compare_def)

section \<open>Interface addresses\<close>

text \<open>
  The names and addresses of the IPv4 interfaces, in order; an interface without an address,
  such as a point-to-point device that is down, ends the program.
\<close>

lemma address_loop_eq:
  "address_loop entries =
     (if None \<in> snd ` set entries then Inl NullDeref
      else Inr [(name, inet_ntop4 (sin_addr addr)). (name, Some addr) \<leftarrow> entries, sin_family addr = AF_INET])"
  by (induction entries rule: address_loop.induct) (auto simp: AF_INET_def AF_INET6_def)

section \<open>Machine id\<close>

lemma length_generate_sha256: "length (generate_sha256 sha256 s) = 2 * length (sha256 s)"
  by (induction "sha256 s" arbitrary: s) (simp_all add: generate_sha256_def hex_byte_def length_concat comp_def sum_list_triv)

lemma mac_loop_bad: "\<not> good os \<Longrightarrow> mac_loop m entries os = os"
  by (induction entries) (auto simp: put_buffer_def)

text \<open>A physical interface: an entry that the loop reads an address for.\<close>

definition physical :: "machine \<Rightarrow> dir_entry \<Rightarrow> bool" where
  "physical m dp \<longleftrightarrow> take 1 (d_name dp) \<noteq> ''.'' \<and> d_dir dp \<and>
     \<not> contains ''virtual/net/'' (real_path m (''/sys/class/net/'' @ d_name dp))"

lemma mac_loop_eq:
  "good os \<Longrightarrow> mac_loop m entries os =
     (if \<not> list_ex (physical m) entries then os
      else case file_at m ''file.txt'' of
             None \<Rightarrow> os\<lparr>good := False\<rparr>
           | Some s \<Rightarrow> if s = [] then os\<lparr>good := False\<rparr>
                       else os\<lparr>written := written os @ concat (replicate (length (filter (physical m) entries)) s)\<rparr>)"
proof (induction entries arbitrary: os)
  case Nil
  then show ?case by simp
next
  case (Cons dp rest)
  have ph: "physical m dp \<Longrightarrow> mac_loop m (dp # rest) os = mac_loop m rest (put_buffer (file_at m ''file.txt'') os)"
    and nph: "\<not> physical m dp \<Longrightarrow> mac_loop m (dp # rest) os = mac_loop m rest os"
    by (auto simp: physical_def)
  show ?case
  proof (cases "physical m dp")
    case False
    then have "list_ex (physical m) (dp # rest) = list_ex (physical m) rest"
      and "filter (physical m) (dp # rest) = filter (physical m) rest" by simp_all
    then show ?thesis using Cons nph [OF False] by (simp only:)
  next
    case True
    show ?thesis
    proof (cases "file_at m ''file.txt''")
      case None
      then show ?thesis using True Cons.prems ph by (simp add: put_buffer_def mac_loop_bad)
    next
      case (Some s)
      then show ?thesis using True Cons.prems ph Cons.IH [of "os\<lparr>written := written os @ s\<rparr>"]
        by (auto simp: put_buffer_def mac_loop_bad filter_empty_conv list_ex_iff)
    qed
  qed
qed

text \<open>What a machine's id is made from: when the directory of interfaces can be read the id has two
  hexadecimal digits for each byte of the hash. With no physical interface it is the hash of the
  processor fields and of \<open>/etc/machine-id\<close>; with one, and no (or an empty) \<open>file.txt\<close> in the
  working directory, the stream has failed before \<open>/etc/machine-id\<close> is read, so that the id
  depends on the processor fields alone and equal processors have equal ids.
\<close>

theorem get_device_id_source:
  assumes "net_dir m = Some entries"
  shows "\<exists>s. get_device_id sha256 m = Inr (generate_sha256 sha256 s)
      \<and> length (generate_sha256 sha256 s) = 2 * length (sha256 s)
      \<and> (\<not> list_ex (physical m) entries \<longrightarrow>
           s = cpu_info (cpuid_eax m) @ (case file_at m ''/etc/machine-id'' of None \<Rightarrow> [] | Some t \<Rightarrow> t))
      \<and> (list_ex (physical m) entries \<and> file_at m ''file.txt'' \<in> {None, Some []} \<longrightarrow>
           s = cpu_info (cpuid_eax m))"
proof -
  let ?os = "put_string (cpu_info (cpuid_eax m)) \<lparr>written = [], good = True\<rparr>"
  let ?mac = "mac_loop m entries ?os"
  let ?id = "written (case file_at m ''/etc/machine-id'' of None \<Rightarrow> ?mac | Some s \<Rightarrow> put_buffer (Some s) ?mac)"
  have os: "?os = \<lparr>written = cpu_info (cpuid_eax m), good = True\<rparr>" by (simp add: put_string_def)
  have "get_device_id sha256 m = Inr (generate_sha256 sha256 ?id)"
    using assms by (simp add: get_device_id_def Let_def)
  moreover have "?id = cpu_info (cpuid_eax m) @ (case file_at m ''/etc/machine-id'' of None \<Rightarrow> [] | Some t \<Rightarrow> t)"
    if "\<not> list_ex (physical m) entries"
    using that by (simp add: os mac_loop_eq put_buffer_def split: option.splits)
  moreover have "?id = cpu_info (cpuid_eax m)"
    if "list_ex (physical m) entries \<and> file_at m ''file.txt'' \<in> {None, Some []}"
    using that by (auto simp: os mac_loop_eq put_buffer_def split: option.splits)
  ultimately show ?thesis using length_generate_sha256 by metis
qed

definition desk_machine :: "string \<Rightarrow> machine" where
  "desk_machine machine_id =
     \<lparr>cpuid_eax = 0x906EA, net_dir = Some [\<lparr>d_name = ''lo'', d_dir = False\<rparr>, \<lparr>d_name = ''eth0'', d_dir = True\<rparr>],
      real_path = (\<lambda>p. p), file_at = [''/etc/machine-id'' \<mapsto> machine_id]\<rparr>"

lemma desk_machine_physical:
  "net_dir (desk_machine s) = Some [\<lparr>d_name = ''lo'', d_dir = False\<rparr>, \<lparr>d_name = ''eth0'', d_dir = True\<rparr>]"
  "list_ex (physical (desk_machine s)) [\<lparr>d_name = ''lo'', d_dir = False\<rparr>, \<lparr>d_name = ''eth0'', d_dir = True\<rparr>]"
  "file_at (desk_machine s) ''file.txt'' = None"
  by (simp_all add: desk_machine_def physical_def)

theorem get_device_id_source_witness:
  "get_device_id (map of_char) (desk_machine ''first'') = get_device_id (map of_char) (desk_machine ''second'')"
proof -
  have "get_device_id (map of_char) (desk_machine s) =
      Inr (generate_sha256 (map of_char) (cpu_info (cpuid_eax (desk_machine s))))" for s
    using get_device_id_source [of "desk_machine s" _ "map of_char", OF desk_machine_physical(1)]
      desk_machine_physical(2,3) by auto
  then show ?thesis by (simp add: desk_machine_def)
qed

end
