(* ===== verification/Management.thy ===== *)
theory Management
  imports Json_Model Curl_Utils Base64 Config Device_Identity
begin

text \<open>
  The client of the management server: \<open>server_endpoint.h\<close>, \<open>user_context.cc\<close>,
  \<open>device_context.cc\<close> and \<open>management_context.cc\<close> of \<open>daemon/management_api/\<close>. The requests go
  through the model of \<open>curl_utils.cc\<close>; each takes the libcurl it is answered by. An operation that
  writes files returns the files it leaves together with its result, since they outlive a failure; a
  file that exists can be read.
\<close>

section \<open>The code\<close>

subsection \<open>Endpoints\<close>

definition SERVER_PASSWORD_LOGIN_V1 :: string where "SERVER_PASSWORD_LOGIN_V1 = ''/api/v1/login''"
definition SERVER_PASSWORD_LOGOUT_V1 :: string where "SERVER_PASSWORD_LOGOUT_V1 = ''/logout''"
definition SERVER_REGISTER_ENDPOINT_V1 :: string where "SERVER_REGISTER_ENDPOINT_V1 = ''/api/v1/register_client''"
definition SERVER_USER_DETAIL_V1 :: string where "SERVER_USER_DETAIL_V1 = ''/api/v1/user''"
definition GET_CLIENT_INFO_ENDPOINT_V1 :: string where "GET_CLIENT_INFO_ENDPOINT_V1 = ''/api/v1/device''"
definition GET_CLIENT_PEER_INFO_ENDPOINT_V1 :: string where "GET_CLIENT_PEER_INFO_ENDPOINT_V1 = ''/api/v1/device/peer''"
definition GET_CLIENT_CERTIFICATE_ENDPOINT_V1 :: string where
  "GET_CLIENT_CERTIFICATE_ENDPOINT_V1 = ''/api/v1/device/certificate''"

text \<open>
  The libraries below: whether \<open>realloc\<close> to a size succeeds, the JSON parser and writer, which bytes
  are a PKCS12 structure, SHA-256, and which files can be opened for writing.
\<close>

record libraries =
  lib_realloc :: "nat \<Rightarrow> bool"
  lib_parse :: "string \<Rightarrow> json option"
  lib_writer :: "json \<Rightarrow> string"
  lib_pkcs12 :: "string \<Rightarrow> bool"
  lib_sha256 :: "string \<Rightarrow> u8 list"
  lib_writable :: "string \<Rightarrow> bool"

type_synonym files = "string \<rightharpoonup> string"

definition write_file :: "libraries \<Rightarrow> string \<Rightarrow> string \<Rightarrow> files \<Rightarrow> files" where
  "write_file L path bytes fs = (if lib_writable L path then fs(path \<mapsto> bytes) else fs)"

subsection \<open>User context\<close>

record UserContextImpl =
  login_flag :: bool
  user_server :: string

definition UserContextImpl_new :: "string \<Rightarrow> UserContextImpl" where
  "UserContextImpl_new server_address = \<lparr>login_flag = False, user_server = server_address\<rparr>"

definition logout :: "libraries \<Rightarrow> curl_lib \<Rightarrow> UserContextImpl \<Rightarrow> UserContextImpl result" where
  "logout L web u =
     (if login_flag u
      then bind_result (POST_and_save_to_ptr web (lib_realloc L) True
             (user_server u @ SERVER_PASSWORD_LOGOUT_V1) None True False) (\<lambda>response.
             Inr (u\<lparr>login_flag := False\<rparr>))
      else Inr u)"

definition login :: "libraries \<Rightarrow> curl_lib \<Rightarrow> string \<Rightarrow> string \<Rightarrow> UserContextImpl \<Rightarrow>
    ((bool \<times> string) \<times> UserContextImpl) result" where
  "login L web email password u =
     (if login_flag u then Inr ((True, ''user already login''), u)
      else bind_result (POST_and_save_to_ptr web (lib_realloc L) True
             (user_server u @ SERVER_PASSWORD_LOGIN_V1)
             (Some (''email='' @ email @ ''&password='' @ password)) False False) (\<lambda>raw.
           bind_result (JsonModel_of_text (lib_parse L) raw) (\<lambda>response.
           bind_result (json_success response) (\<lambda>ok.
           bind_result (if ok then bind_result (login_user_email response) (\<lambda>e. Inr (e = email)) else Inr False) (\<lambda>ok.
             if ok then Inr ((True, ''login success''), u\<lparr>login_flag := True\<rparr>)
             else bind_result (json_message response) (\<lambda>msg. Inr ((False, msg), u)))))))"

definition user_detail :: "libraries \<Rightarrow> curl_lib \<Rightarrow> UserContextImpl \<Rightarrow> JsonModel option result" where
  "user_detail L web u =
     (if \<not> login_flag u then Inr None
      else bind_result (GET_and_save_to_ptr web (lib_realloc L) True
             (user_server u @ SERVER_USER_DETAIL_V1) [] False) (\<lambda>raw.
           bind_result (JsonModel_of_text (lib_parse L) raw) (\<lambda>response.
           bind_result (json_success response) (\<lambda>ok. Inr (if ok then Some response else None)))))"

definition is_logged_in :: "UserContextImpl \<Rightarrow> bool" where
  "is_logged_in u = login_flag u"

subsection \<open>Device context\<close>

record DeviceContextImpl =
  dev_id :: string
  login_token :: string
  dev_server :: string
  dev_certificate_path :: string
  dev_configuration_path :: string

definition DeviceContextImpl_new :: "JsonModel option \<Rightarrow> string \<Rightarrow> string \<Rightarrow> string \<Rightarrow> DeviceContextImpl result" where
  "DeviceContextImpl_new dev_conf server_address configuration_path certificate_path =
     (case dev_conf of
        None \<Rightarrow> Inl NullDeref
      | Some conf \<Rightarrow>
          bind_result (conf_device_id conf) (\<lambda>device.
          bind_result (conf_jwt_key conf) (\<lambda>key.
            Inr \<lparr>dev_id = device, login_token = key, dev_server = server_address,
                 dev_certificate_path = certificate_path, dev_configuration_path = configuration_path\<rparr>)))"

text \<open>The three requests of a device differ in the endpoint.\<close>

definition device_get :: "libraries \<Rightarrow> curl_lib \<Rightarrow> string \<Rightarrow> DeviceContextImpl \<Rightarrow> string option result" where
  "device_get L web endpoint d =
     GET_and_save_to_ptr web (lib_realloc L) False (dev_server d @ endpoint)
       [''Authorization:'' @ login_token d] False"

text \<open>\<open>strlen\<close> of the answer; of a null pointer it is undefined.\<close>

definition c_strlen :: "string option \<Rightarrow> nat result" where
  "c_strlen p = (case p of None \<Rightarrow> Inl NullDeref | Some s \<Rightarrow> Inr (length (takeWhile (\<lambda>c. c \<noteq> CHR 0x00) s)))"

definition device_info :: "libraries \<Rightarrow> curl_lib \<Rightarrow> DeviceContextImpl \<Rightarrow> JsonModel option result" where
  "device_info L web d =
     (if login_token d = [] then Inr None
      else bind_result (device_get L web GET_CLIENT_INFO_ENDPOINT_V1 d) (\<lambda>raw_json.
           bind_result (c_strlen raw_json) (\<lambda>n.
             if n = 0 then Inr None
             else bind_result (JsonModel_of_text (lib_parse L) raw_json) (\<lambda>response.
                  bind_result (json_success response) (\<lambda>ok.
                    if ok then Inr (Some response)
                    else bind_result (json_message response) (\<lambda>msg. Inr None))))))"

definition is_enabled :: "libraries \<Rightarrow> curl_lib \<Rightarrow> DeviceContextImpl \<Rightarrow> bool result" where
  "is_enabled L web d = bind_result (device_info L web d) (\<lambda>r. Inr (r \<noteq> None))"

definition device_id :: "DeviceContextImpl \<Rightarrow> string" where
  "device_id d = dev_id d"

definition MAX_DOWNLOAD_RETIRES :: nat where "MAX_DOWNLOAD_RETIRES = 3"

text \<open>One download: the files afterwards.\<close>

definition download_certificate :: "libraries \<Rightarrow> curl_lib \<Rightarrow> DeviceContextImpl \<Rightarrow> files \<Rightarrow> files result" where
  "download_certificate L web d fs =
     bind_result (device_get L web GET_CLIENT_CERTIFICATE_ENDPOINT_V1 d) (\<lambda>raw.
     bind_result (JsonModel_of_text (lib_parse L) raw) (\<lambda>resp.
     bind_result (json_success resp) (\<lambda>ok.
       if ok
       then bind_result (cert_PSCK12 resp) (\<lambda>text.
              Inr (write_file L (dev_certificate_path d) (map (char_of \<circ> unat) (decode (map of_char text))) fs))
       else bind_result (json_message resp) (\<lambda>msg. Inr fs))))"

text \<open>\<open>webs\<close> answers the request of each round; \<open>left\<close> counts the rounds that are left.\<close>

fun certificate_loop :: "libraries \<Rightarrow> (nat \<Rightarrow> curl_lib) \<Rightarrow> DeviceContextImpl \<Rightarrow> nat \<Rightarrow> nat \<Rightarrow> files \<Rightarrow>
    files \<times> string result" where
  "certificate_loop L webs d retries 0 fs = (fs, Inl (Fatal ''unable to download device certificate''))"
| "certificate_loop L webs d retries (Suc left) fs =
     (let path = dev_certificate_path d
      in case fs path of
           Some bytes \<Rightarrow>
             if lib_pkcs12 L bytes then (fs, Inr path)
             else (case download_certificate L (webs retries) d (fs(path := None)) of
                     Inl e \<Rightarrow> (fs(path := None), Inl e)
                   | Inr fs' \<Rightarrow> certificate_loop L webs d (Suc retries) left fs')
         | None \<Rightarrow>
             (case download_certificate L (webs retries) d fs of
                Inl e \<Rightarrow> (fs, Inl e)
              | Inr fs' \<Rightarrow> certificate_loop L webs d (Suc retries) left fs'))"

definition client_certificate :: "libraries \<Rightarrow> (nat \<Rightarrow> curl_lib) \<Rightarrow> DeviceContextImpl \<Rightarrow> files \<Rightarrow>
    files \<times> string result" where
  "client_certificate L webs d fs = certificate_loop L webs d 0 MAX_DOWNLOAD_RETIRES fs"

definition device_peer_list :: "libraries \<Rightarrow> curl_lib \<Rightarrow> DeviceContextImpl \<Rightarrow> JsonModel option result" where
  "device_peer_list L web d =
     bind_result (device_get L web GET_CLIENT_PEER_INFO_ENDPOINT_V1 d) (\<lambda>raw.
     bind_result (JsonModel_of_text (lib_parse L) raw) (\<lambda>response.
     bind_result (json_success response) (\<lambda>ok.
       if ok then Inr (Some response)
       else bind_result (json_message response) (\<lambda>msg. Inr None))))"

subsection \<open>Management context\<close>

record ManagementContext =
  mc_listen_port :: u16
  mc_server :: string
  mc_listen_interface :: string
  mc_configuration_path :: string
  mc_certificate_path :: string
  mc_server_certificate_path :: string
  mc_device_ctx :: "DeviceContextImpl option"

definition ManagementContext_new :: "Config \<Rightarrow> ManagementContext" where
  "ManagementContext_new config =
     \<lparr>mc_listen_port = p2p_port config, mc_server = management_server_url config,
      mc_listen_interface = p2p_listen_interface config,
      mc_configuration_path = client_configuration_path config,
      mc_certificate_path = client_certificate_path config,
      mc_server_certificate_path = server_certificate_path config, mc_device_ctx = None\<rparr>"

text \<open>The global \<open>instance\<close>, and the files.\<close>

record management =
  mgmt_instance :: "ManagementContext option"
  mgmt_files :: files

definition management_init :: "Config \<Rightarrow> management \<Rightarrow> management" where
  "management_init config g = g\<lparr>mgmt_instance := Some (ManagementContext_new config)\<rparr>"

definition usr_ctx :: "management \<Rightarrow> UserContextImpl option" where
  "usr_ctx g = map_option (\<lambda>c. UserContextImpl_new (mc_server c)) (mgmt_instance g)"

text \<open>The addresses of the interface; a comma follows each that is not equal to the last of the list.\<close>

fun ip_list :: "string \<Rightarrow> u16 \<Rightarrow> string \<times> string \<Rightarrow> (string \<times> string) list \<Rightarrow> string" where
  "ip_list ifc port back [] = []"
| "ip_list ifc port back (ip # rest) =
     (if fst ip = ifc
      then snd ip @ '':'' @ show_nat (unat port) @ (if ip \<noteq> back then '','' else [])
      else []) @ ip_list ifc port back rest"

text \<open>Registration: the request, and the configuration made from the answer.\<close>

definition register_request :: "libraries \<Rightarrow> machine \<Rightarrow> (string \<times> sockaddr_in option) list option \<Rightarrow>
    ManagementContext \<Rightarrow> string result" where
  "register_request L m ifaddrs c =
     bind_result RegisterClientRequest_new (\<lambda>request.
     bind_result (getIPAddresses ifaddrs) (\<lambda>local_ip.
     bind_result (setIPAddress (ip_list (mc_listen_interface c) (mc_listen_port c) (last local_ip) local_ip)
       request) (\<lambda>request.
     bind_result (get_device_id (lib_sha256 L) m) (\<lambda>machine_id.
     bind_result (setMachineID machine_id request) (\<lambda>request.
       Inr (get_json (lib_writer L) request))))))"

definition register_answer :: "libraries \<Rightarrow> string option \<Rightarrow> (JsonModel \<times> JsonModel) result" where
  "register_answer L raw_json =
     (if raw_json = None then Inl (Fatal ''Failed to register device'')
      else bind_result (JsonModel_of_text (lib_parse L) raw_json) (\<lambda>resp.
           bind_result (json_success resp) (\<lambda>ok.
             if \<not> ok
             then bind_result (json_message resp) (\<lambda>msg. Inl (Fatal (''Failed to register device: '' @ msg)))
             else bind_result (DeviceConfiguration_new resp) (\<lambda>conf. Inr (resp, conf)))))"

definition register_client :: "libraries \<Rightarrow> curl_lib \<Rightarrow> machine \<Rightarrow> (string \<times> sockaddr_in option) list option \<Rightarrow>
    management \<Rightarrow> management \<times> unit result" where
  "register_client L web m ifaddrs g =
     (case mgmt_instance g of
        None \<Rightarrow> (g, Inr ())
      | Some c \<Rightarrow>
          (case bind_result (register_request L m ifaddrs c) (\<lambda>request.
                bind_result (POST_and_save_to_ptr web (lib_realloc L) False
                  (mc_server c @ SERVER_REGISTER_ENDPOINT_V1) (Some request) True False) (register_answer L)) of
             Inl e \<Rightarrow> (g, Inl e)
           | Inr (resp, conf) \<Rightarrow>
               (g\<lparr>mgmt_files := write_file L (mc_server_certificate_path c) (save (lib_writer L) conf) (mgmt_files g)\<rparr>,
                bind_result (register_enable_url resp) (\<lambda>url. Inr ()))))"

definition dev_ctx :: "libraries \<Rightarrow> curl_lib \<Rightarrow> machine \<Rightarrow> (string \<times> sockaddr_in option) list option \<Rightarrow>
    management \<Rightarrow> management \<times> DeviceContextImpl option result" where
  "dev_ctx L web m ifaddrs g =
     (case mgmt_instance g of
        None \<Rightarrow> (g, Inr None)
      | Some c \<Rightarrow>
          (case mc_device_ctx c of
             Some d \<Rightarrow> (g, Inr (Some d))
           | None \<Rightarrow>
               (case (case mgmt_files g (mc_server_certificate_path c) of
                        Some file \<Rightarrow>
                          (g, bind_result (DeviceConfiguration_of_file (lib_parse L) (Some file)) (\<lambda>conf. Inr (Some conf)))
                      | None \<Rightarrow>
                          (case register_client L web m ifaddrs g of
                             (g', r) \<Rightarrow> (g', bind_result r (\<lambda>u. Inr None)))) of
                  (g', r) \<Rightarrow>
                    (case bind_result r (\<lambda>conf.
                            DeviceContextImpl_new conf (mc_server c) (mc_configuration_path c) (mc_certificate_path c)) of
                       Inl e \<Rightarrow> (g', Inl e)
                     | Inr d \<Rightarrow> (g'\<lparr>mgmt_instance := Some (c\<lparr>mc_device_ctx := Some d\<rparr>)\<rparr>, Inr (Some d))))))"

section \<open>Registration\<close>

lemma DeviceConfiguration_new_root:
  assumes "DeviceConfiguration_new resp = Inr conf"
  obtains key device where "key \<noteq> []" "device \<noteq> []" "root conf = conf_root key device"
    "register_jwt_key resp = Inr key" "register_device_id resp = Inr device"
proof -
  from assms obtain device where d: "register_device_id resp = Inr device" "device \<noteq> []"
    by (auto simp: DeviceConfiguration_new_def result_simps split: if_splits)
  with assms obtain key where k: "register_jwt_key resp = Inr key" "key \<noteq> []"
    by (auto simp: DeviceConfiguration_new_def result_simps split: if_splits)
  show thesis
    using that [OF k(2) d(2) _ k(1) d(1)] DeviceConfiguration_new_eq [OF d k] assms by simp
qed

lemma register_answer_eq_Inr:
  assumes "register_answer L raw = Inr (resp, conf)"
  shows "raw \<noteq> None \<and> JsonModel_of_text (lib_parse L) raw = Inr resp \<and> json_success resp = Inr True \<and>
    DeviceConfiguration_new resp = Inr conf"
  using assms by (auto simp: register_answer_def result_simps split: if_splits)

text \<open>A device that was not registered has no context in the process that registers it.\<close>

lemma dev_ctx_unregistered:
  assumes "mgmt_instance g = Some c" "mc_device_ctx c = None"
    and "mgmt_files g (mc_server_certificate_path c) = None"
  shows "dev_ctx L web m ifaddrs g =
    (fst (register_client L web m ifaddrs g),
     case snd (register_client L web m ifaddrs g) of Inl e \<Rightarrow> Inl e | Inr u \<Rightarrow> Inl NullDeref)"
  using assms by (simp add: dev_ctx_def DeviceContextImpl_new_def split_beta split: sum.splits)

lemma register_client_saves:
  assumes "mgmt_instance g = Some c" and "register_client L web m ifaddrs g = (g', Inr ())"
    and "lib_writable L (mc_server_certificate_path c)"
  obtains key device conf where "key \<noteq> []" "device \<noteq> []" "root conf = conf_root key device"
    "mgmt_files g' = (mgmt_files g)(mc_server_certificate_path c \<mapsto> save (lib_writer L) conf)"
    "mgmt_instance g' = Some c"
proof -
  from assms obtain resp conf where answer: "\<exists>raw. register_answer L raw = Inr (resp, conf)"
    and g': "g' = g\<lparr>mgmt_files := write_file L (mc_server_certificate_path c) (save (lib_writer L) conf) (mgmt_files g)\<rparr>"
    by (auto simp: register_client_def result_simps split: sum.splits)
  from answer obtain key device where "key \<noteq> []" "device \<noteq> []" "root conf = conf_root key device"
    by (auto dest!: register_answer_eq_Inr elim: DeviceConfiguration_new_root)
  then show thesis using that g' assms by (simp add: write_file_def)
qed

lemma dev_ctx_registered:
  assumes "rapidjson_documented (lib_writer L) (lib_parse L)" and "root conf = conf_root key device"
    and "mgmt_instance g = Some c" "mc_device_ctx c = None"
    and "mgmt_files g (mc_server_certificate_path c) = Some (save (lib_writer L) conf)"
  shows "snd (dev_ctx L web m ifaddrs g) =
    Inr (Some \<lparr>dev_id = device, login_token = key, dev_server = mc_server c,
      dev_certificate_path = mc_certificate_path c, dev_configuration_path = mc_configuration_path c\<rparr>)"
  using assms conf_accessors [of "\<lparr>response_flag = False, json_buf = None, root = conf_root key device\<rparr>" key device]
  by (simp add: dev_ctx_def conf_saved_loaded DeviceContextImpl_new_def)

text \<open>Registering a device takes two starts of the program. When there is no configuration
  file, \<open>dev_ctx\<close> never returns a context: whatever the server answers, the call fails, and when the
  registration succeeds it fails by dereferencing the configuration that was never set. With a JSON
  library that parses what it writes and a file that can be written, the next start of the program
  on the same files then returns the context with the device id and the token of the answer, without
  asking the server.\<close>

theorem dev_ctx_needs_restart:
  assumes "rapidjson_documented (lib_writer L) (lib_parse L)"
    and "lib_writable L (server_certificate_path config)"
    and "fs (server_certificate_path config) = None"
    and "g = management_init config \<lparr>mgmt_instance = None, mgmt_files = fs\<rparr>"
  shows "\<exists>g' e. dev_ctx L web m ifaddrs g = (g', Inl e) \<and>
    (snd (register_client L web m ifaddrs g) = Inr () \<longrightarrow> e = NullDeref \<and>
      (\<exists>device key. device \<noteq> [] \<and> key \<noteq> [] \<and>
        (\<forall>web' m' ifaddrs'.
          snd (dev_ctx L web' m' ifaddrs' (management_init config \<lparr>mgmt_instance = None, mgmt_files = mgmt_files g'\<rparr>))
          = Inr (Some \<lparr>dev_id = device, login_token = key, dev_server = management_server_url config,
              dev_certificate_path = client_certificate_path config,
              dev_configuration_path = client_configuration_path config\<rparr>))))"
proof -
  let ?c = "ManagementContext_new config"
  have g: "mgmt_instance g = Some ?c" "mc_device_ctx ?c = None"
    "mgmt_files g (mc_server_certificate_path ?c) = None"
    using assms(3,4) by (simp_all add: management_init_def ManagementContext_new_def)
  show ?thesis
  proof (cases "register_client L web m ifaddrs g")
    case (Pair g' r)
    show ?thesis
    proof (cases r)
      case (Inl e)
      then show ?thesis using Pair dev_ctx_unregistered [OF g] by simp
    next
      case (Inr u)
      then have r: "register_client L web m ifaddrs g = (g', Inr ())" using Pair by simp
      have w: "lib_writable L (mc_server_certificate_path ?c)"
        using assms(2) by (simp add: ManagementContext_new_def)
      obtain key device conf where conf: "key \<noteq> []" "device \<noteq> []" "root conf = conf_root key device"
        "mgmt_files g' = (mgmt_files g)(mc_server_certificate_path ?c \<mapsto> save (lib_writer L) conf)"
        using register_client_saves [OF g(1) r w] by metis
      let ?g = "management_init config \<lparr>mgmt_instance = None, mgmt_files = mgmt_files g'\<rparr>"
      have "snd (dev_ctx L web' m' ifaddrs' ?g) =
        Inr (Some \<lparr>dev_id = device, login_token = key, dev_server = mc_server ?c,
          dev_certificate_path = mc_certificate_path ?c, dev_configuration_path = mc_configuration_path ?c\<rparr>)"
        for web' m' ifaddrs'
        using conf g(2) by (intro dev_ctx_registered [OF assms(1) conf(3)]) (simp_all add: management_init_def)
      then have "\<forall>web' m' ifaddrs'. snd (dev_ctx L web' m' ifaddrs' ?g) =
        Inr (Some \<lparr>dev_id = device, login_token = key, dev_server = management_server_url config,
              dev_certificate_path = client_certificate_path config,
              dev_configuration_path = client_configuration_path config\<rparr>)"
        by (simp add: ManagementContext_new_def)
      then show ?thesis using conf(1,2) r dev_ctx_unregistered [OF g, of L web m ifaddrs] by auto
    qed
  qed
qed

text \<open>A server that answers with a JSON document, and the device of the witnesses.\<close>

definition plain_libraries :: libraries where
  "plain_libraries = \<lparr>lib_realloc = (\<lambda>_. True), lib_parse = plain_reader, lib_writer = plain_writer,
     lib_pkcs12 = (\<lambda>s. s = ''p12''), lib_sha256 = map of_char, lib_writable = (\<lambda>_. True)\<rparr>"

definition answer :: "json \<Rightarrow> json" where
  "answer body = JObject [(''success'', JBool True), (''responseBody'', body)]"

definition web_answering :: "json \<Rightarrow> curl_lib" where
  "web_answering body = plain_curl [plain_writer (answer body)]"

lemma plain_libraries_sel [simp]:
  "lib_realloc plain_libraries = (\<lambda>_. True)" "lib_parse plain_libraries = plain_reader"
  "lib_writer plain_libraries = plain_writer" "lib_pkcs12 plain_libraries = (\<lambda>s. s = ''p12'')"
  "lib_sha256 plain_libraries = map of_char" "lib_writable plain_libraries = (\<lambda>_. True)"
  by (simp_all add: plain_libraries_def)

lemma plain_reader_writer [simp]: "plain_reader (plain_writer j) = Some j"
  using plain_json_documented by (simp add: rapidjson_documented_def)

text \<open>The model that such an answer is parsed to.\<close>

abbreviation answered :: "json \<Rightarrow> JsonModel" where
  "answered body \<equiv> \<lparr>response_flag = True, json_buf = Some (plain_writer (answer body)), root = answer body\<rparr>"

lemma answered_model [simp]:
  "JsonModel_of_text plain_reader (Some (plain_writer (answer body))) = Inr (answered body)"
  "json_success (answered body) = Inr True"
  by (simp_all add: JsonModel_of_text_def is_response_def answer_def json_success_def)

lemma answered_string:
  "map_of members key = Some (JString s) \<Longrightarrow>
     opt_value (get_value GetString key (answered (JObject members))) = Inr s"
  by (intro opt_value_string) (simp add: find_node_def body_node_def answer_def)

definition registration :: json where
  "registration = JObject [(''client_id'', JString ''dev''), (''login_token'', JString ''token''),
     (''enable_url'', JString ''url'')]"

lemma registration_length: "length (plain_writer (answer registration)) < 1024"
  by (simp add: plain_writer_def answer_def registration_def put_nat_def put_str_def)

lemma registration_accepted:
  assumes "mgmt_instance g = Some c"
  shows "snd (register_client plain_libraries (web_answering registration) (desk_machine ''id'') (Some []) g) = Inr ()"
proof -
  let ?r = "answered registration"
  have "register_device_id ?r = Inr ''dev''" "register_jwt_key ?r = Inr ''token''" "register_enable_url ?r = Inr ''url''"
    unfolding registration_def register_device_id_def register_jwt_key_def register_enable_url_def
    by (simp_all add: answered_string)
  moreover have "\<exists>request. register_request plain_libraries (desk_machine ''id'') (Some []) c = Inr request"
    by (simp add: register_request_def RegisterClientRequest_new_def add_value_def JsonModel_empty_def body_node_def
        getIPAddresses_def setIPAddress_def setMachineID_def get_device_id_def desk_machine_def)
  ultimately show ?thesis using assms
    by (auto simp: register_client_def web_answering_def plain_answer [OF registration_length] register_answer_def
        DeviceConfiguration_new_eq)
qed

theorem dev_ctx_needs_restart_witness:
  "\<exists>g' device key. dev_ctx plain_libraries (web_answering registration) (desk_machine ''id'') (Some [])
      (management_init Config_default \<lparr>mgmt_instance = None, mgmt_files = Map.empty\<rparr>) = (g', Inl NullDeref) \<and>
    device \<noteq> [] \<and> key \<noteq> [] \<and>
    (\<forall>web' m' ifaddrs'. snd (dev_ctx plain_libraries web' m' ifaddrs'
        (management_init Config_default \<lparr>mgmt_instance = None, mgmt_files = mgmt_files g'\<rparr>))
      = Inr (Some \<lparr>dev_id = device, login_token = key, dev_server = management_server_url Config_default,
          dev_certificate_path = client_certificate_path Config_default,
          dev_configuration_path = client_configuration_path Config_default\<rparr>))"
proof -
  let ?g = "management_init Config_default \<lparr>mgmt_instance = None, mgmt_files = Map.empty\<rparr>"
  have "snd (register_client plain_libraries (web_answering registration) (desk_machine ''id'') (Some []) ?g) = Inr ()"
    by (rule registration_accepted) (simp add: management_init_def)
  then show ?thesis
    using dev_ctx_needs_restart [of plain_libraries Config_default Map.empty ?g "web_answering registration"
        "desk_machine ''id''" "Some []"] plain_json_documented
    by (simp add: rapidjson_documented_def)
qed

section \<open>Device certificate\<close>

definition certificate_ready :: "libraries \<Rightarrow> DeviceContextImpl \<Rightarrow> files \<Rightarrow> bool" where
  "certificate_ready L d fs = (case fs (dev_certificate_path d) of None \<Rightarrow> False | Some bytes \<Rightarrow> lib_pkcs12 L bytes)"

text \<open>A download changes no other file.\<close>

lemma download_certificate_frame:
  assumes "download_certificate L web d fs = Inr fs'" and "p \<noteq> dev_certificate_path d"
  shows "fs' p = fs p"
  using assms by (auto simp: download_certificate_def write_file_def result_simps split: if_splits)

text \<open>One round; an invalid certificate is removed before the download.\<close>

lemma certificate_round:
  "certificate_loop L webs d retries (Suc left) fs =
     (if certificate_ready L d fs then (fs, Inr (dev_certificate_path d))
      else case download_certificate L (webs retries) d (fs(dev_certificate_path d := None)) of
             Inl e \<Rightarrow> (fs(dev_certificate_path d := None), Inl e)
           | Inr fs' \<Rightarrow> certificate_loop L webs d (Suc retries) left fs')"
proof (cases "fs (dev_certificate_path d)")
  case None
  then have "fs(dev_certificate_path d := None) = fs" by auto
  with None show ?thesis by (simp add: certificate_ready_def Let_def split: sum.splits)
qed (simp add: certificate_ready_def Let_def)

lemma certificate_loop_safe:
  assumes "certificate_loop L webs d retries left fs = (fs', Inr path)"
  shows "path = dev_certificate_path d \<and> certificate_ready L d fs' \<and>
    (\<forall>p. p \<noteq> dev_certificate_path d \<longrightarrow> fs' p = fs p)"
  using assms
proof (induction left arbitrary: retries fs)
  case (Suc left)
  show ?case
  proof (cases "certificate_ready L d fs")
    case True
    then show ?thesis using Suc.prems by (simp add: certificate_round del: certificate_loop.simps)
  next
    case False
    then obtain fs1 where d: "download_certificate L (webs retries) d (fs(dev_certificate_path d := None)) = Inr fs1"
      and l: "certificate_loop L webs d (Suc retries) left fs1 = (fs', Inr path)"
      using Suc.prems by (auto simp: certificate_round simp del: certificate_loop.simps split: sum.splits)
    show ?thesis using Suc.IH [OF l] download_certificate_frame [OF d] by auto
  qed
qed simp

lemma certificate_loop_frame:
  "p \<noteq> dev_certificate_path d \<Longrightarrow> fst (certificate_loop L webs d retries left fs) p = fs p"
proof (induction left arbitrary: retries fs)
  case (Suc left)
  then show ?case
    by (auto simp: certificate_round simp del: certificate_loop.simps
        dest: download_certificate_frame split: sum.splits)
qed simp

lemma client_certificate_keeps:
  "(fst (client_certificate L webs d fs))(dev_certificate_path d := None) = fs(dev_certificate_path d := None)"
  by (auto simp: fun_eq_iff client_certificate_def certificate_loop_frame)

lemma client_certificate_ready:
  assumes "client_certificate L webs d fs = (fs', Inr path)"
  obtains bytes where "path = dev_certificate_path d" "fs' path = Some bytes" "lib_pkcs12 L bytes"
  using certificate_loop_safe [OF assms [unfolded client_certificate_def]] that
  by (auto simp: certificate_ready_def split: option.splits)

text \<open>A good certificate is not downloaded again.\<close>

lemma client_certificate_present:
  "certificate_ready L d fs \<Longrightarrow> client_certificate L webs d fs = (fs, Inr (dev_certificate_path d))"
  by (simp add: client_certificate_def MAX_DOWNLOAD_RETIRES_def numeral_3_eq_3 certificate_round
      del: certificate_loop.simps)


definition plain_device :: DeviceContextImpl where
  "plain_device = \<lparr>dev_id = ''dev'', login_token = ''token'', dev_server = ''http://host'',
     dev_certificate_path = ''device.p12'', dev_configuration_path = ''device.cfg''\<rparr>"

text \<open>\<open>cDEy\<close> is the Base64 encoding of \<open>p12\<close>, and \<open>AAAA\<close> that of three zero bytes.\<close>

definition certificate_answer :: "string \<Rightarrow> json" where
  "certificate_answer t = JObject [(''PSCK12_certificate'', JString t)]"

lemma certificate_length: "length t \<le> 4 \<Longrightarrow> length (plain_writer (answer (certificate_answer t))) < 1024"
  by (simp add: plain_writer_def answer_def certificate_answer_def put_nat_def put_str_def)

lemma download_plain:
  assumes "length t \<le> 4"
  shows "download_certificate plain_libraries (web_answering (certificate_answer t)) plain_device fs =
    Inr (fs(''device.p12'' \<mapsto> map (char_of \<circ> unat) (decode (map of_char t))))"
proof -
  have "cert_PSCK12 (answered (certificate_answer t)) = Inr t"
    unfolding cert_PSCK12_def certificate_answer_def by (simp add: answered_string)
  then show ?thesis
    by (simp add: download_certificate_def device_get_def web_answering_def plain_answer [OF certificate_length [OF assms]]
        write_file_def plain_device_def)
qed

lemma decoded_p12: "map (char_of \<circ> unat) (decode (map of_char ''cDEy'')) = ''p12''"
  by code_simp

lemma decoded_zeros: "map (char_of \<circ> unat) (decode (map of_char ''AAAA'')) \<noteq> ''p12''"
  by code_simp


section \<open>User sessions\<close>

text \<open>The server confirms a login: its answer is a success and repeats the email.\<close>

definition server_confirms :: "libraries \<Rightarrow> curl_lib \<Rightarrow> string \<Rightarrow> string \<Rightarrow> string \<Rightarrow> bool" where
  "server_confirms L web server email password \<longleftrightarrow>
     (\<exists>raw response.
        POST_and_save_to_ptr web (lib_realloc L) True (server @ SERVER_PASSWORD_LOGIN_V1)
          (Some (''email='' @ email @ ''&password='' @ password)) False False = Inr raw \<and>
        JsonModel_of_text (lib_parse L) raw = Inr response \<and>
        json_success response = Inr True \<and> login_user_email response = Inr email)"

text \<open>The calls on a user context, and a run of them.\<close>

datatype user_call =
    CallLogin curl_lib string string
  | CallLogout curl_lib
  | CallDetail curl_lib

fun call_user :: "libraries \<Rightarrow> user_call \<Rightarrow> UserContextImpl \<Rightarrow> UserContextImpl result" where
  "call_user L (CallLogin web email password) u = bind_result (login L web email password u) (\<lambda>(r, u'). Inr u')"
| "call_user L (CallLogout web) u = logout L web u"
| "call_user L (CallDetail web) u = bind_result (user_detail L web u) (\<lambda>r. Inr u)"

text \<open>
  The contract of a context behind its interface: each call that returns changes what can be
  observed of it by the effect of the call, so that a run of calls is the fold of their effects.
\<close>

fun run_calls :: "('call \<Rightarrow> 'u \<Rightarrow> 'u result) \<Rightarrow> 'call list \<Rightarrow> 'u \<Rightarrow> 'u result" where
  "run_calls step [] u = Inr u"
| "run_calls step (c # cs) u = bind_result (step c u) (run_calls step cs)"

locale observed_context =
  fixes step :: "'call \<Rightarrow> 'u \<Rightarrow> 'u result"
    and observe :: "'u \<Rightarrow> 'o"
    and effect :: "'call \<Rightarrow> 'o \<Rightarrow> 'o"
  assumes step_effect: "step c u = Inr u' \<Longrightarrow> observe u' = effect c (observe u)"
begin

lemma run_effect: "run_calls step cs u = Inr u' \<Longrightarrow> observe u' = fold effect cs (observe u)"
  by (induction cs arbitrary: u) (auto simp: result_simps dest!: step_effect)

end

lemma login_cases:
  assumes "login L web email password u = Inr ((ok, msg), u')"
  shows "ok = login_flag u' \<and> user_server u' = user_server u \<and>
    (login_flag u' \<longleftrightarrow> login_flag u \<or> server_confirms L web (user_server u) email password)"
  using assms
  by (auto simp: login_def server_confirms_def result_simps split: if_splits)

text \<open>The specification of a session: confirmed logins open it, logouts close it.\<close>

definition session_effect :: "libraries \<Rightarrow> user_call \<Rightarrow> string \<times> bool \<Rightarrow> string \<times> bool" where
  "session_effect L c o' =
     (case o' of (server, opened) \<Rightarrow>
        (server, case c of
           CallLogin web email password \<Rightarrow> opened \<or> server_confirms L web server email password
         | CallLogout web \<Rightarrow> False
         | CallDetail web \<Rightarrow> opened))"

interpretation user_context: observed_context "call_user L" "\<lambda>u. (user_server u, is_logged_in u)" "session_effect L"
    for L :: libraries
proof
  fix c u u'
  assume "call_user L c u = Inr u'"
  then show "(user_server u', is_logged_in u') = session_effect L c (user_server u, is_logged_in u)"
    by (cases c) (auto simp: session_effect_def is_logged_in_def result_simps logout_def split: if_splits dest!: login_cases)
qed

text \<open>C24. Who is logged in: after any sequence of calls on a new user context that all return, the
  context keeps the address of the server and implements the specification of a session: it counts as
  logged in if and only if the server has confirmed a login with the email that was asked for and
  there was no logout since; a refused login or a question for details changes nothing.\<close>

theorem user_session_refines:
  assumes "run_calls (call_user L) calls (UserContextImpl_new server) = Inr u"
  shows "(user_server u, is_logged_in u) = fold (session_effect L) calls (server, False)"
  using user_context.run_effect [OF assms] by (simp add: UserContextImpl_new_def is_logged_in_def)

definition login_answer :: json where
  "login_answer = JObject [(''user_id'', JString ''7''), (''email'', JString ''a@b'')]"

lemma login_length: "length (plain_writer (answer login_answer)) < 1024"
  by (simp add: plain_writer_def answer_def login_answer_def put_nat_def put_str_def)

lemma login_plain:
  "login plain_libraries (web_answering login_answer) ''a@b'' ''secret'' (UserContextImpl_new ''http://host'') =
     Inr ((True, ''login success''), \<lparr>login_flag = True, user_server = ''http://host''\<rparr>)"
proof -
  have "login_user_email (answered login_answer) = Inr ''a@b''"
    unfolding login_user_email_def login_answer_def by (simp add: answered_string)
  then show ?thesis
    by (simp add: login_def web_answering_def plain_answer [OF login_length] UserContextImpl_new_def)
qed

theorem user_session_refines_witness:
  "fold (session_effect plain_libraries) [CallLogin (web_answering login_answer) ''a@b'' ''secret'']
     (''http://host'', False) = (''http://host'', True)"
proof -
  have "run_calls (call_user plain_libraries) [CallLogin (web_answering login_answer) ''a@b'' ''secret'']
      (UserContextImpl_new ''http://host'') = Inr \<lparr>login_flag = True, user_server = ''http://host''\<rparr>"
    using login_plain by simp
  from user_session_refines [OF this] show ?thesis by (simp add: is_logged_in_def)
qed

section \<open>An unreachable server\<close>

text \<open>
  A device asks whether it is enabled by reading the length of the answer; when there is no answer
  the pointer is null.
\<close>

lemma is_enabled_unreachable:
  assumes "login_token d \<noteq> []" and "device_get L web GET_CLIENT_INFO_ENDPOINT_V1 d = Inr None"
  shows "is_enabled L web d = Inl NullDeref"
  using assms by (simp add: is_enabled_def device_info_def c_strlen_def)

end
