(* ===== verification/Singleton.thy ===== *)
theory Singleton
  imports Instance_Pool
begin

text \<open>
  The singleton helper, \<open>daemon/utils/singleton_helper.h\<close>: a static pointer that is set once. The
  constructor of the class may fail, in which case the pointer stays null.
\<close>

section \<open>The code\<close>

text \<open>\<open>create\<close>: the pointer it returns, and the new value of \<open>_instance\<close>.\<close>

definition singleton_create :: "('a \<Rightarrow> 't result) \<Rightarrow> 'a \<Rightarrow> 't option \<Rightarrow> ('t \<times> 't option) result" where
  "singleton_create construct args inst =
     (case inst of
        None \<Rightarrow> bind_result (construct args) (\<lambda>t. Inr (t, Some t))
      | Some t \<Rightarrow> Inr (t, inst))"

definition singleton_init :: "('a \<Rightarrow> 't result) \<Rightarrow> 'a \<Rightarrow> 't option \<Rightarrow> ('t \<times> 't option) result" where
  "singleton_init construct args inst =
     (case inst of
        None \<Rightarrow> singleton_create construct args inst
      | Some t \<Rightarrow> Inr (t, inst))"

definition singleton_get :: "'t option \<Rightarrow> 't option" where
  "singleton_get inst = inst"

section \<open>One instance\<close>

text \<open>With a constructor that succeeds, \<open>init\<close> is an insertion without replacement.\<close>

definition init_once :: "('a \<Rightarrow> 't) \<Rightarrow> unit \<Rightarrow> 'a \<Rightarrow> 't option \<Rightarrow> bool \<times> 't option" where
  "init_once construct key args inst =
     (inst = None,
      case singleton_init (\<lambda>a. Inr (construct a)) args inst of Inl e \<Rightarrow> inst | Inr (t, inst') \<Rightarrow> inst')"

interpretation singleton: insert_once "init_once construct" "\<lambda>inst (k :: unit). singleton_get inst" construct
    for construct :: "'a \<Rightarrow> 't"
  by unfold_locales
    (auto simp: init_once_def singleton_init_def singleton_create_def singleton_get_def
      split: option.splits)

fun run_inits :: "('a \<Rightarrow> 't result) \<Rightarrow> 'a list \<Rightarrow> 't option \<Rightarrow> ('t list \<times> 't option) result" where
  "run_inits construct [] inst = Inr ([], inst)"
| "run_inits construct (args # rest) inst =
     bind_result (singleton_init construct args inst) (\<lambda>(t, inst).
       bind_result (run_inits construct rest inst) (\<lambda>(ts, inst). Inr (t # ts, inst)))"

lemma run_inits_some:
  "run_inits construct argss (Some t) = Inr (replicate (length argss) t, Some t)"
  by (induction argss) (simp_all add: singleton_init_def)

text \<open>Every call of a singleton's \<open>init\<close> returns the one instance: the object constructed from
  the arguments of the first call, whatever the later arguments are; if that construction fails
  there is no instance and the next call tries again.\<close>

theorem singleton_one_instance:
  "run_inits construct (args # rest) None =
     (case construct args of
        Inl e \<Rightarrow> Inl e
      | Inr t \<Rightarrow> Inr (replicate (Suc (length rest)) t, Some t)) \<and>
   (case singleton_init construct args None of
      Inl e \<Rightarrow> construct args = Inl e
    | Inr (t, inst) \<Rightarrow> construct args = Inr t \<and> singleton_get inst = Some t)"
  by (auto simp: singleton_init_def singleton_create_def singleton_get_def run_inits_some
      split: sum.splits)

end
