(* ===== verification/Server_Init.thy ===== *)
theory Server_Init
  imports P2P_Server Management Singleton
begin

text \<open>
  Starting the packet server: the constructor, \<open>init\<close> and \<open>listening_thread\<close> of
  \<open>daemon/p2p_server_context.cc\<close>, with the device context of \<open>Management\<close> that \<open>init\<close> is given. The
  sockets, the certificate library and libevent are the record \<open>platform\<close>; the answers of the
  management server are the record \<open>device_link\<close>. \<open>init\<close> first polls the device until it is enabled,
  a loop that need not end: its value is then \<open>None\<close>.
\<close>

section \<open>The code\<close>

record ('k, 'cert) credentials =
  cred_private_key :: 'k
  cred_certificate :: 'cert
  cred_chain :: "'cert list"

record ('k, 'cert, 'p12) platform =
  os_socket :: bool
  os_inet_addr :: "string \<Rightarrow> u32"
  os_bind :: "u32 \<Rightarrow> u16 \<Rightarrow> bool"
  os_listen :: bool
  d2i_PKCS12 :: "string \<Rightarrow> 'p12 option"
  PKCS12_parse :: "'p12 \<Rightarrow> string \<Rightarrow> ('k, 'cert) credentials option"
  event_base_new :: bool
  store_ctx_init :: bool
  store_verifies :: "'cert \<Rightarrow> 'cert list \<Rightarrow> bool"

text \<open>
  The libraries of the device context and what the management server answers: to each poll, to each
  download in the first and the second call of \<open>client_certificate\<close>, and to the request for peers.
\<close>

record device_link =
  dl_libraries :: libraries
  dl_polls :: "nat \<Rightarrow> curl_lib"
  dl_certificate :: "nat \<Rightarrow> nat \<Rightarrow> curl_lib"
  dl_peers :: curl_lib

text \<open>\<open>client_certificate\<close> tests a file with the \<open>d2i_PKCS12_fp\<close> that \<open>init\<close> reads it with.\<close>

definition device_libraries :: "('k, 'cert, 'p12) platform \<Rightarrow> device_link \<Rightarrow> libraries" where
  "device_libraries os link = (dl_libraries link)\<lparr>lib_pkcs12 := (\<lambda>bytes. d2i_PKCS12 os bytes \<noteq> None)\<rparr>"

definition poll_device :: "device_link \<Rightarrow> DeviceContextImpl \<Rightarrow> nat \<Rightarrow> bool result" where
  "poll_device link d n = is_enabled (dl_libraries link) (dl_polls link n) d"

text \<open>\<open>peer_list()\<close> of the device and, unless that is null, of the response.\<close>

definition known_peers :: "device_link \<Rightarrow> DeviceContextImpl \<Rightarrow> (string \<times> string) list option result" where
  "known_peers link d =
     bind_result (device_peer_list (dl_libraries link) (dl_peers link) d) (\<lambda>peer_list_resp.
       case peer_list_resp of
         None \<Rightarrow> Inr None
       | Some resp \<Rightarrow> bind_result (peer_list resp) (\<lambda>peers. Inr (Some peers)))"

text \<open>The constructor; \<open>LOG(FATAL)\<close> ends the process.\<close>

definition P2PServerContext_new :: "('k, 'cert, 'p12) platform \<Rightarrow> DeviceContextImpl \<Rightarrow>
    u32 \<times> ('k, 'cert) credentials \<times> u16 \<Rightarrow> ('k, 'c) P2PServerContext result" where
  "P2PServerContext_new os d args =
     (case args of (packet_cache_size, cred, port) \<Rightarrow>
        if \<not> event_base_new os then Inl (Fatal ''cannot initialize event base'')
        else if \<not> store_ctx_init os then Inl (Fatal ''cannot initialize x509 store context'')
        else if \<not> store_verifies os (cred_certificate cred) (cred_chain cred)
        then Inl (Fatal ''cannot verify device certificate'')
        else Inr \<lparr>srv_device_id = device_id d, srv_port = port, srv_table = empty_table,
                  srv_cache = FIFOCache_new [] (unat packet_cache_size), srv_peers = empty_pool,
                  srv_thread = False, srv_tasks = []\<rparr>)"

text \<open>The number of the poll that finds the device enabled, or the failure of a poll.\<close>

partial_function (option) wait_enabled :: "(nat \<Rightarrow> bool result) \<Rightarrow> nat \<Rightarrow> nat result option" where
  "wait_enabled poll n =
     (case poll n of
        Inl e \<Rightarrow> Some (Inl e)
      | Inr enabled \<Rightarrow> if enabled then Some (Inr n) else wait_enabled poll (Suc n))"

datatype socket_state = NoSocket | ClosedSocket | OpenSocket

definition listen_address :: "('k, 'cert, 'p12) platform \<Rightarrow> Config \<Rightarrow> u32" where
  "listen_address os config =
     (if p2p_listen_address config = [] then 0 else os_inet_addr os (p2p_listen_address config))"

text \<open>The last part of \<open>init\<close>: unpacking the certificate, the instance and its start.\<close>

definition init_instance :: "('k, 'c, 'cert) env \<Rightarrow> ('k, 'cert, 'p12) platform \<Rightarrow> device_link \<Rightarrow> Config \<Rightarrow>
    DeviceContextImpl \<Rightarrow> 'p12 \<Rightarrow> (bool \<times> socket_state \<times> ('k, 'c) P2PServerContext option) result" where
  "init_instance env os link config d cert =
     (case PKCS12_parse os cert (device_id d) of
        None \<Rightarrow> Inr (False, OpenSocket, None)
      | Some cred \<Rightarrow>
          bind_result (singleton_create (P2PServerContext_new os d)
              (packet_cached_size config, cred, p2p_port config) None) (\<lambda>(s, inst).
            bind_result (start env (known_peers link d) s) (\<lambda>(ok, s).
              Inr (ok, OpenSocket, Some s))))"

text \<open>
  Loading the certificate. When it cannot be decoded, the message about that calls
  \<open>client_certificate\<close> once more. The files, and the answer with what became of the listening socket
  and the instance.
\<close>

definition init_certificate :: "('k, 'c, 'cert) env \<Rightarrow> ('k, 'cert, 'p12) platform \<Rightarrow> device_link \<Rightarrow> Config \<Rightarrow>
    DeviceContextImpl \<Rightarrow> files \<Rightarrow> files \<times> (bool \<times> socket_state \<times> ('k, 'c) P2PServerContext option) result" where
  "init_certificate env os link config d fs =
     (case client_certificate (device_libraries os link) (dl_certificate link 0) d fs of
        (fs, Inl e) \<Rightarrow> (fs, Inl e)
      | (fs, Inr path) \<Rightarrow>
          (case fs path of
             None \<Rightarrow> (fs, Inl NullDeref)
           | Some bytes \<Rightarrow>
               (case d2i_PKCS12 os bytes of
                  None \<Rightarrow>
                    (case client_certificate (device_libraries os link) (dl_certificate link 1) d fs of
                       (fs, Inl e) \<Rightarrow> (fs, Inl e)
                     | (fs, Inr path) \<Rightarrow> (fs, Inr (False, OpenSocket, None)))
                | Some cert \<Rightarrow> (fs, init_instance env os link config d cert))))"

text \<open>\<open>init\<close> after the poll.\<close>

definition init_server :: "('k, 'c, 'cert) env \<Rightarrow> ('k, 'cert, 'p12) platform \<Rightarrow> device_link \<Rightarrow> Config \<Rightarrow>
    DeviceContextImpl \<Rightarrow> files \<Rightarrow> files \<times> (bool \<times> socket_state \<times> ('k, 'c) P2PServerContext option) result" where
  "init_server env os link config d fs =
     (if \<not> os_socket os then (fs, Inr (False, NoSocket, None))
      else if \<not> os_bind os (listen_address os config) (p2p_port config)
      then (fs, Inr (False, ClosedSocket, None))
      else if \<not> os_listen os then (fs, Inr (False, ClosedSocket, None))
      else init_certificate env os link config d fs)"

definition P2PServerContext_init :: "('k, 'c, 'cert) env \<Rightarrow> ('k, 'cert, 'p12) platform \<Rightarrow> device_link \<Rightarrow> Config \<Rightarrow>
    DeviceContextImpl \<Rightarrow> ('k, 'c) P2PServerContext option \<Rightarrow> files \<Rightarrow>
    files \<times> (bool \<times> socket_state \<times> ('k, 'c) P2PServerContext option) result option" where
  "P2PServerContext_init env os link config d inst fs =
     (case singleton_get inst of
        Some s \<Rightarrow> (fs, Some (Inr (False, NoSocket, inst)))
      | None \<Rightarrow>
          (case wait_enabled (poll_device link d) 0 of
             None \<Rightarrow> (fs, None)
           | Some (Inl e) \<Rightarrow> (fs, Some (Inl e))
           | Some (Inr polls) \<Rightarrow> apsnd Some (init_server env os link config d fs)))"

text \<open>The calls of \<open>listening_thread\<close>; the last two run when the event loop has ended.\<close>

datatype loop_call = CloseSocket | EventNew | EventAdd | EventDispatch | EventDel | EventBaseFree

definition listening_thread :: "bool \<Rightarrow> loop_call list" where
  "listening_thread base_exists =
     (if \<not> base_exists then [CloseSocket]
      else [EventNew, EventAdd, EventDispatch, EventDel, EventBaseFree])"

section \<open>The poll\<close>

lemma wait_enabled_never:
  assumes "\<forall>k \<ge> n. poll k = Inr False"
  shows "wait_enabled poll n = None"
proof (rule ccontr)
  assume "wait_enabled poll n \<noteq> None"
  then obtain r where "wait_enabled poll n = Some r" by blast
  then have "\<exists>k \<ge> n. poll k \<noteq> Inr False"
    by (rule wait_enabled.raw_induct [rotated]) (force split: sum.splits if_splits dest: Suc_leD)
  with assms show False by blast
qed

lemma wait_enabled_first:
  assumes "\<forall>i. n \<le> i \<and> i < k \<longrightarrow> poll i = Inr False" and "n \<le> k" and "poll k \<noteq> Inr False"
  shows "wait_enabled poll n = Some (bind_result (poll k) (\<lambda>enabled. Inr k))"
  using assms
proof (induction "k - n" arbitrary: n)
  case 0
  then show ?case by (subst wait_enabled.simps) (auto split: sum.splits)
next
  case (Suc j)
  then have "n < k" "poll n = Inr False" by auto
  moreover have "wait_enabled poll (Suc n) = Some (bind_result (poll k) (\<lambda>enabled. Inr k))"
    using Suc calculation by (intro Suc.hyps(1)) auto
  ultimately show ?case by (subst wait_enabled.simps) simp
qed

text \<open>C30. \<open>init\<close> waits for the device: as long as every poll answers that it is not enabled \<open>init\<close> does
  not return, and the first poll that answers otherwise decides. If the device is enabled, the
  start goes on from there; if the poll fails, as it does when the server cannot be reached, so
  does \<open>init\<close>. With an instance in place it answers false at once.\<close>

theorem init_waits_for_device:
  "P2PServerContext_init env os link config d None fs =
     (if \<forall>k. poll_device link d k = Inr False then (fs, None)
      else case poll_device link d (LEAST k. poll_device link d k \<noteq> Inr False) of
             Inl e \<Rightarrow> (fs, Some (Inl e))
           | Inr enabled \<Rightarrow> apsnd Some (init_server env os link config d fs)) \<and>
   P2PServerContext_init env os link config d (Some s) fs = (fs, Some (Inr (False, NoSocket, Some s)))"
proof (cases "\<forall>k. poll_device link d k = Inr False")
  case True
  then show ?thesis by (simp add: P2PServerContext_init_def singleton_get_def wait_enabled_never)
next
  case False
  let ?k = "LEAST k. poll_device link d k \<noteq> Inr False"
  have first: "poll_device link d ?k \<noteq> Inr False"
    using False LeastI_ex [of "\<lambda>k. poll_device link d k \<noteq> Inr False"] by blast
  have "\<forall>i. 0 \<le> i \<and> i < ?k \<longrightarrow> poll_device link d i = Inr False" using not_less_Least by blast
  from wait_enabled_first [OF this le0 first] have "wait_enabled (poll_device link d) 0 =
      Some (bind_result (poll_device link d ?k) (\<lambda>enabled. Inr ?k))" .
  moreover have "P2PServerContext_init env os link config d None fs =
      (case wait_enabled (poll_device link d) 0 of
         None \<Rightarrow> (fs, None)
       | Some (Inl e) \<Rightarrow> (fs, Some (Inl e))
       | Some (Inr polls) \<Rightarrow> apsnd Some (init_server env os link config d fs))"
    by (simp add: P2PServerContext_init_def singleton_get_def)
  ultimately have "P2PServerContext_init env os link config d None fs =
      (case poll_device link d ?k of
         Inl e \<Rightarrow> (fs, Some (Inl e))
       | Inr enabled \<Rightarrow> apsnd Some (init_server env os link config d fs))"
    by (simp only: bind_result_def option.case split: sum.split) simp
  then show ?thesis using False by (simp only: if_False) (simp add: P2PServerContext_init_def singleton_get_def)
qed

section \<open>The start\<close>

text \<open>A start that reaches its end leaves a server with an empty pool and a thread.\<close>

definition started :: "Config \<Rightarrow> DeviceContextImpl \<Rightarrow> ('k, 'c) P2PServerContext \<Rightarrow> bool" where
  "started config d s \<longleftrightarrow>
     srv_thread s \<and> srv_device_id s = dev_id d \<and> srv_port s = p2p_port config \<and>
     srv_table s = empty_table \<and> srv_peers s = empty_pool \<and>
     srv_cache s = FIFOCache_new [] (unat (packet_cached_size config)) \<and>
     list_all (\<lambda>t. case t of SendTask p m ip \<Rightarrow> ttl m = 10 \<and> receiver m = [] \<and> ip \<noteq> None
       | HandleTask _ _ \<Rightarrow> False) (srv_tasks s)"

lemma send_pkg_effect:
  "send_pkg env data peer s = Inr (sent, s') \<Longrightarrow>
     s' = s \<or> (\<exists>m. s' = submit (SendTask (srv_port s) m peer) s \<and> ttl m = 10 \<and> receiver m = [])"
  by (auto simp: send_pkg_def Let_def SignedProtoMessage_new_def split: if_splits option.splits)

lemma greet_started: "greet env hello peers s = Inr s' \<Longrightarrow> started config d s \<Longrightarrow> started config d s'"
proof (induction peers arbitrary: s)
  case (Cons p peers)
  then obtain ip sent s1 where s1: "send_pkg env (package_pkg env hello (fst p)) (Some ip) s = Inr (sent, s1)"
      "greet env hello peers s1 = Inr s'"
    by (cases p) (auto simp: bind_result_eq_Inr)
  have "started config d s1"
    using send_pkg_effect [OF s1(1)] Cons.prems(2) by (auto simp: started_def submit_def)
  with Cons.IH s1(2) show ?case by blast
qed simp

lemma start_started:
  assumes "P2PServerContext_new os d (packet_cached_size config, cred, p2p_port config) = Inr s0"
    and "start env peers s0 = Inr (ok, s)"
  shows "ok \<and> started config d s"
proof -
  have new: "started config d (s0\<lparr>srv_thread := True\<rparr>)" "\<not> srv_thread s0"
    using assms(1) by (auto simp: P2PServerContext_new_def started_def device_id_def split: if_splits)
  with assms(2) obtain hello ps where "greet env hello ps (s0\<lparr>srv_thread := True\<rparr>) = Inr s" "ok"
    by (auto simp: start_def Let_def bind_result_eq_Inr split: option.splits)
  with greet_started [OF _ new(1)] show ?thesis by blast
qed

lemma init_instance_outcome:
  assumes "init_instance env os link config d cert = Inr (ok, sock, inst)"
  shows "sock = OpenSocket \<and> (ok \<longleftrightarrow> PKCS12_parse os cert (dev_id d) \<noteq> None) \<and>
    (if ok then \<exists>s. inst = Some s \<and> started config d s else inst = None)"
proof (cases "PKCS12_parse os cert (dev_id d)")
  case None
  with assms show ?thesis by (simp add: init_instance_def device_id_def)
next
  case (Some cred)
  with assms obtain s0 s where
      "P2PServerContext_new os d (packet_cached_size config, cred, p2p_port config) = Inr s0"
      "start env (known_peers link d) s0 = Inr (ok, s)" "inst = Some s" "sock = OpenSocket"
    by (auto simp: init_instance_def device_id_def bind_result_eq_Inr singleton_create_def)
  with start_started [of os d config cred s0 env _ ok s] Some show ?thesis by auto
qed

text \<open>Decoding succeeds on what \<open>client_certificate\<close> returns: the branch for a bad file is dead.\<close>

lemma init_certificate_eq:
  obtains (failed) e where
      "init_certificate env os link config d fs =
        (fst (client_certificate (device_libraries os link) (dl_certificate link 0) d fs), Inl e)"
  | (loaded) fs' bytes cert where
      "client_certificate (device_libraries os link) (dl_certificate link 0) d fs = (fs', Inr (dev_certificate_path d))"
      "fs' (dev_certificate_path d) = Some bytes" "d2i_PKCS12 os bytes = Some cert"
      "init_certificate env os link config d fs = (fs', init_instance env os link config d cert)"
proof -
  obtain fs' r where c: "client_certificate (device_libraries os link) (dl_certificate link 0) d fs = (fs', r)"
    by (rule prod.exhaust)
  show thesis
  proof (cases r)
    case (Inl e)
    with c show thesis by (intro failed [of e]) (simp add: init_certificate_def)
  next
    case (Inr path)
    with c obtain bytes where b: "path = dev_certificate_path d" "fs' path = Some bytes"
        "lib_pkcs12 (device_libraries os link) bytes"
      by (metis client_certificate_ready)
    then obtain cert where "d2i_PKCS12 os bytes = Some cert" by (auto simp: device_libraries_def)
    with b c Inr show thesis by (intro loaded [of fs' bytes cert]) (simp_all add: init_certificate_def)
  qed
qed

definition listening :: "('k, 'cert, 'p12) platform \<Rightarrow> Config \<Rightarrow> bool" where
  "listening os config \<longleftrightarrow> os_socket os \<and> os_bind os (listen_address os config) (p2p_port config) \<and> os_listen os"


section \<open>Greetings\<close>

text \<open>The packet that greets a peer, and the address the peer is listed with.\<close>

definition greeting_data :: "('k, 'c, 'cert) env \<Rightarrow> DeviceContextImpl \<Rightarrow> string \<Rightarrow> string \<Rightarrow> string" where
  "greeting_data env d raw_cert peer = serialize_proto (pb env)
     (package_pkg env \<lparr>sender_id = dev_id d, verified_msg = [], x509_certificate = raw_cert\<rparr> peer)"

definition can_greet :: "('k, 'c, 'cert) env \<Rightarrow> DeviceContextImpl \<Rightarrow> string \<Rightarrow> string \<times> string \<Rightarrow> bool" where
  "can_greet env d raw_cert entry \<longleftrightarrow>
     (let raw = greeting_data env d raw_cert (fst entry)
      in (\<exists>ip. IPAddress_of_string (snd entry) = Inr ip) \<and> sign_update env raw \<and> sign_size env raw \<and>
         sign_final env raw \<noteq> None)"

definition greets :: "('k, 'c, 'cert) env \<Rightarrow> DeviceContextImpl \<Rightarrow> u16 \<Rightarrow> string \<Rightarrow> string \<times> string \<Rightarrow>
    packet_task \<Rightarrow> bool" where
  "greets env d port raw_cert entry task \<longleftrightarrow>
     (\<exists>ip digest. IPAddress_of_string (snd entry) = Inr ip \<and>
        sign_final env (greeting_data env d raw_cert (fst entry)) = Some digest \<and>
        task = SendTask port (SignedProtoMessage_new\<lparr>ttl := 10, signature := digest, sign_algorithm := SHA_256,
          signed_payload := greeting_data env d raw_cert (fst entry)\<rparr>) (Some ip))"

lemma greet_all:
  assumes "sign_init env" and "hello = \<lparr>sender_id = dev_id d, verified_msg = [], x509_certificate = raw_cert\<rparr>"
    and "list_all (can_greet env d raw_cert) peers"
  shows "\<exists>tasks. greet env hello peers s = Inr (s\<lparr>srv_tasks := srv_tasks s @ tasks\<rparr>) \<and>
    list_all2 (greets env d (srv_port s) raw_cert) peers tasks"
  using assms(3)
proof (induction peers arbitrary: s)
  case (Cons entry peers)
  let ?raw = "greeting_data env d raw_cert (fst entry)"
  from Cons.prems obtain ip digest where g: "IPAddress_of_string (snd entry) = Inr ip" "sign_update env ?raw"
      "sign_size env ?raw" "sign_final env ?raw = Some digest"
    by (auto simp: can_greet_def Let_def)
  let ?task = "SendTask (srv_port s) (SignedProtoMessage_new\<lparr>ttl := 10, signature := digest,
      sign_algorithm := SHA_256, signed_payload := ?raw\<rparr>) (Some ip)"
  have "send_pkg env (package_pkg env hello (fst entry)) (Some ip) s = Inr (True, submit ?task s)"
    using g assms(1,2) by (simp add: send_pkg_def greeting_data_def Let_def)
  then have step: "greet env hello (entry # peers) s = greet env hello peers (submit ?task s)"
    using g(1) by (cases entry) simp
  obtain tasks where "greet env hello peers (submit ?task s) =
        Inr ((submit ?task s)\<lparr>srv_tasks := srv_tasks (submit ?task s) @ tasks\<rparr>)"
      "list_all2 (greets env d (srv_port (submit ?task s)) raw_cert) peers tasks"
    using Cons.IH [of "submit ?task s"] Cons.prems by auto
  moreover have "greets env d (srv_port s) raw_cert entry ?task" using g by (auto simp: greets_def)
  ultimately show ?case unfolding step by (intro exI [of _ "?task # tasks"]) (simp add: submit_def)
qed simp

text \<open>What a start needs: a listening socket, a certificate on disk that the device id decrypts and the
  chain verifies, libevent, and keys to sign the greetings with.\<close>

definition device_ready :: "('k, 'c, 'cert) env \<Rightarrow> ('k, 'cert, 'p12) platform \<Rightarrow> Config \<Rightarrow> DeviceContextImpl \<Rightarrow>
    files \<Rightarrow> bool" where
  "device_ready env os config d fs \<longleftrightarrow>
     listening os config \<and> event_base_new os \<and> store_ctx_init os \<and> sign_init env \<and>
     (\<exists>bytes cert cred. fs (dev_certificate_path d) = Some bytes \<and> d2i_PKCS12 os bytes = Some cert \<and>
        PKCS12_parse os cert (dev_id d) = Some cred \<and> store_verifies os (cred_certificate cred) (cred_chain cred))"

lemma init_greets:
  fixes env :: "('k, 'c, 'cert) env"
  assumes "device_ready env os config d fs" and "own_certificate env = Some raw_cert"
    and "known_peers link d = Inr (Some peers)" and "list_all (can_greet env d raw_cert) peers"
  shows "\<exists>s. init_server env os link config d fs = (fs, Inr (True, OpenSocket, Some s)) \<and>
    started config d s \<and> list_all2 (greets env d (p2p_port config) raw_cert) peers (srv_tasks s)"
proof -
  obtain bytes cert cred where c: "fs (dev_certificate_path d) = Some bytes" "d2i_PKCS12 os bytes = Some cert"
      "PKCS12_parse os cert (dev_id d) = Some cred" "store_verifies os (cred_certificate cred) (cred_chain cred)"
    using assms(1) by (auto simp: device_ready_def)
  let ?s0 = "\<lparr>srv_device_id = dev_id d, srv_port = p2p_port config, srv_table = empty_table,
      srv_cache = FIFOCache_new [] (unat (packet_cached_size config)), srv_peers = empty_pool,
      srv_thread = False, srv_tasks = []\<rparr> :: ('k, 'c) P2PServerContext"
  have new: "P2PServerContext_new os d (packet_cached_size config, cred, p2p_port config) = Inr ?s0"
    using assms(1) c(4) by (simp add: P2PServerContext_new_def device_ready_def device_id_def)
  obtain tasks where g: "greet env \<lparr>sender_id = dev_id d, verified_msg = [], x509_certificate = raw_cert\<rparr> peers
        (?s0\<lparr>srv_thread := True\<rparr>) = Inr (?s0\<lparr>srv_thread := True, srv_tasks := tasks\<rparr>)"
      "list_all2 (greets env d (p2p_port config) raw_cert) peers tasks"
    using greet_all [of env _ d raw_cert peers "?s0\<lparr>srv_thread := True\<rparr>"] assms(1,4)
    by (auto simp: device_ready_def)
  then have st: "start env (known_peers link d) ?s0 = Inr (True, ?s0\<lparr>srv_thread := True, srv_tasks := tasks\<rparr>)"
    using assms(2,3) by (simp add: start_def hello_construct_def)
  have "init_instance env os link config d cert = Inr (True, OpenSocket, Some (?s0\<lparr>srv_thread := True, srv_tasks := tasks\<rparr>))"
    using c(3) new st by (simp add: init_instance_def device_id_def singleton_create_def)
  moreover have "certificate_ready (device_libraries os link) d fs"
    using c(1,2) by (simp add: certificate_ready_def device_libraries_def)
  ultimately have "init_server env os link config d fs =
      (fs, Inr (True, OpenSocket, Some (?s0\<lparr>srv_thread := True, srv_tasks := tasks\<rparr>)))"
    using assms(1) c(1,2)
    by (simp add: init_server_def init_certificate_def client_certificate_present device_ready_def listening_def)
  with g(2) start_started [OF new st] show ?thesis by auto
qed

end
