(* ===== verification/Thread_Pool.thy ===== *)
theory Thread_Pool
  imports P2P_Prelude "HOL-Library.Sublist" "HOL-Library.Multiset"
begin

text \<open>
  The thread pool, \<open>daemon/utils/data_struct/thread_pool.h\<close>, as a step relation over its shared
  state and the program points of its workers. Each rule is one access that the code makes with
  the locks it holds: \<open>submit\<close> pushes under the exclusive lock of \<open>m_mutex\<close> and notifies later;
  a worker tests the queue under \<open>_mutex\<close>, which \<open>submit\<close> does not take, and then waits; it tests the
  queue again, moves its front out and pops it under the shared lock of \<open>m_mutex\<close>, which any number of
  workers can hold. A task that has been moved out of the queue leaves an empty function behind,
  \<open>None\<close>.
\<close>

section \<open>The code\<close>

datatype 't worker_pc =
    AtLoop
  | AtCheck
  | SawEmpty
  | Waiting
  | Woken
  | AtPop
  | InPop
  | SawTask
  | HasTask "'t option"
  | Running "'t option"
  | Exited

text \<open>
  \<open>notifications\<close> counts the calls of \<open>submit\<close> that have pushed and not yet notified;
  \<open>notify_all_due\<close> says that the destructor has cleared the flag and not yet notified, and
  \<open>pool_joined\<close> that it has joined all workers. \<open>pool_error\<close> is set when an operation fails, which
  ends the program. \<open>submitted\<close>, \<open>taken\<close> and \<open>dropped\<close> record the tasks pushed, moved out to a worker,
  and popped without having been moved out.
\<close>

record 't ThreadPool =
  running_flag :: bool
  task_queue :: "'t option list"
  worker_pool :: "'t worker_pc list"
  notifications :: nat
  notify_all_due :: bool
  pool_joined :: bool
  pool_error :: "failure option"
  submitted :: "'t list"
  taken :: "'t list"
  dropped :: "'t list"

definition ThreadPool_new :: "u8 \<Rightarrow> 't ThreadPool" where
  "ThreadPool_new thread_size =
     \<lparr>running_flag = True, task_queue = [], worker_pool = replicate (unat thread_size) AtLoop,
      notifications = 0, notify_all_due = False, pool_joined = False, pool_error = None,
      submitted = [], taken = [], dropped = []\<rparr>"

definition pool_size :: "'t ThreadPool \<Rightarrow> nat" where
  "pool_size p = length (worker_pool p)"

abbreviation set_pc :: "nat \<Rightarrow> 't worker_pc \<Rightarrow> 't ThreadPool \<Rightarrow> 't ThreadPool" where
  "set_pc i pc p \<equiv> p\<lparr>worker_pool := (worker_pool p)[i := pc]\<rparr>"

abbreviation worker_at :: "'t ThreadPool \<Rightarrow> nat \<Rightarrow> 't worker_pc \<Rightarrow> bool" where
  "worker_at p i pc \<equiv> i < length (worker_pool p) \<and> worker_pool p ! i = pc"

text \<open>The program points with the shared lock of \<open>m_mutex\<close>; \<open>_mutex\<close> is held at \<open>SawEmpty\<close>.\<close>

fun shares :: "'t worker_pc \<Rightarrow> bool" where
  "shares InPop = True"
| "shares SawTask = True"
| "shares (HasTask x) = True"
| "shares _ = False"

abbreviation opt_list :: "'t option \<Rightarrow> 't list" where
  "opt_list x \<equiv> (case x of None \<Rightarrow> [] | Some t \<Rightarrow> [t])"

text \<open>What a step does for the users of the pool.\<close>

datatype 't pool_label = Submits 't | Finishes 't | Internal

inductive pool_action :: "'t ThreadPool \<Rightarrow> 't pool_label \<Rightarrow> 't ThreadPool \<Rightarrow> bool" where
  submit_push: "list_all (\<lambda>pc. \<not> shares pc) (worker_pool p) \<Longrightarrow>
     pool_action p (Submits t) (p\<lparr>task_queue := task_queue p @ [Some t], submitted := submitted p @ [t],
       notifications := Suc (notifications p)\<rparr>)"
| notify_wakes: "notifications p = Suc n \<Longrightarrow> worker_at p i Waiting \<Longrightarrow>
     pool_action p Internal (set_pc i Woken (p\<lparr>notifications := n\<rparr>))"
| notify_lost: "notifications p = Suc n \<Longrightarrow> Waiting \<notin> set (worker_pool p) \<Longrightarrow>
     pool_action p Internal (p\<lparr>notifications := n\<rparr>)"
| spurious_wake: "worker_at p i Waiting \<Longrightarrow> pool_action p Internal (set_pc i Woken p)"
| destroy_flag: "running_flag p \<Longrightarrow> pool_action p Internal (p\<lparr>running_flag := False, notify_all_due := True\<rparr>)"
| destroy_notify: "notify_all_due p \<Longrightarrow>
     pool_action p Internal (p\<lparr>notify_all_due := False,
       worker_pool := map (\<lambda>pc. if pc = Waiting then Woken else pc) (worker_pool p)\<rparr>)"
| destroy_join: "\<not> running_flag p \<Longrightarrow> \<not> notify_all_due p \<Longrightarrow> list_all (\<lambda>pc. pc = Exited) (worker_pool p) \<Longrightarrow>
     pool_action p Internal (p\<lparr>pool_joined := True\<rparr>)"
| loop_on: "worker_at p i AtLoop \<Longrightarrow> running_flag p \<Longrightarrow> pool_action p Internal (set_pc i AtCheck p)"
| loop_off: "worker_at p i AtLoop \<Longrightarrow> \<not> running_flag p \<Longrightarrow> pool_action p Internal (set_pc i Exited p)"
| check_empty: "worker_at p i AtCheck \<Longrightarrow> SawEmpty \<notin> set (worker_pool p) \<Longrightarrow> task_queue p = [] \<Longrightarrow>
     pool_action p Internal (set_pc i SawEmpty p)"
| check_task: "worker_at p i AtCheck \<Longrightarrow> SawEmpty \<notin> set (worker_pool p) \<Longrightarrow> task_queue p \<noteq> [] \<Longrightarrow>
     pool_action p Internal (set_pc i AtPop p)"
| wait: "worker_at p i SawEmpty \<Longrightarrow> pool_action p Internal (set_pc i Waiting p)"
| relock: "worker_at p i Woken \<Longrightarrow> SawEmpty \<notin> set (worker_pool p) \<Longrightarrow> pool_action p Internal (set_pc i AtPop p)"
| lock_shared: "worker_at p i AtPop \<Longrightarrow> pool_action p Internal (set_pc i InPop p)"
| test_none: "worker_at p i InPop \<Longrightarrow> task_queue p = [] \<Longrightarrow> pool_action p Internal (set_pc i AtLoop p)"
| test_task: "worker_at p i InPop \<Longrightarrow> task_queue p \<noteq> [] \<Longrightarrow> pool_action p Internal (set_pc i SawTask p)"
| move_front: "worker_at p i SawTask \<Longrightarrow> task_queue p = x # rest \<Longrightarrow>
     pool_action p Internal (set_pc i (HasTask x) (p\<lparr>task_queue := None # rest, taken := taken p @ opt_list x\<rparr>))"
| front_empty: "worker_at p i SawTask \<Longrightarrow> task_queue p = [] \<Longrightarrow>
     pool_action p Internal (p\<lparr>pool_error := Some OutOfBounds\<rparr>)"
| pop_front: "worker_at p i (HasTask x) \<Longrightarrow> task_queue p = y # rest \<Longrightarrow>
     pool_action p Internal (set_pc i (Running x) (p\<lparr>task_queue := rest, dropped := dropped p @ opt_list y\<rparr>))"
| pop_empty: "worker_at p i (HasTask x) \<Longrightarrow> task_queue p = [] \<Longrightarrow>
     pool_action p Internal (p\<lparr>pool_error := Some OutOfBounds\<rparr>)"
| task_done: "worker_at p i (Running (Some t)) \<Longrightarrow> pool_action p (Finishes t) (set_pc i AtLoop p)"
| call_empty: "worker_at p i (Running None) \<Longrightarrow>
     pool_action p Internal (p\<lparr>pool_error := Some BadFunctionCall\<rparr>)"

definition pool_step :: "'t ThreadPool \<Rightarrow> 't ThreadPool \<Rightarrow> bool" where
  "pool_step p p' \<longleftrightarrow> pool_error p = None \<and> (\<exists>l. pool_action p l p')"

lemma pool_stepI: "pool_action p l p' \<Longrightarrow> pool_error p = None \<Longrightarrow> pool_step p p'"
  by (auto simp: pool_step_def)

section \<open>Order of tasks\<close>

definition pending :: "'t ThreadPool \<Rightarrow> 't list" where
  "pending p = concat (map opt_list (task_queue p))"

definition pool_inv :: "nat \<Rightarrow> 't ThreadPool \<Rightarrow> bool" where
  "pool_inv n p \<longleftrightarrow> subseq (taken p @ pending p) (submitted p) \<and> pool_size p = n"

lemma subseq_drop_middle: "subseq (xs @ ys @ zs) l \<Longrightarrow> subseq (xs @ zs) l"
proof (rule subseq_order.trans)
  show "subseq (xs @ zs) (xs @ ys @ zs)" by (intro list_emb_append_mono list_emb_append2) auto
qed

lemma pool_inv_action: "pool_action p l p' \<Longrightarrow> pool_inv n p \<Longrightarrow> pool_inv n p'"
proof (induction rule: pool_action.induct)
  case (submit_push p t)
  then show ?case
    by (auto simp: pool_inv_def pool_size_def pending_def list_emb_append_mono simp flip: append_assoc)
next
  case (pop_front p i x y rest)
  then show ?case
    using subseq_drop_middle [of "taken p" "opt_list y" "concat (map opt_list rest)" "submitted p"]
    by (simp add: pool_inv_def pool_size_def pending_def)
qed (auto simp: pool_inv_def pool_size_def pending_def)

text \<open>With one worker the queue is not touched between the worker's test and its pop.\<close>

fun alone_pc :: "'t worker_pc \<Rightarrow> 't option list \<Rightarrow> bool" where
  "alone_pc SawTask q \<longleftrightarrow> q \<noteq> [] \<and> None \<notin> set q"
| "alone_pc (HasTask x) q \<longleftrightarrow> x \<noteq> None \<and> q \<noteq> [] \<and> hd q = None \<and> None \<notin> set (tl q)"
| "alone_pc (Running x) q \<longleftrightarrow> x \<noteq> None \<and> None \<notin> set q"
| "alone_pc pc q \<longleftrightarrow> None \<notin> set q"

definition alone :: "'t ThreadPool \<Rightarrow> bool" where
  "alone p \<longleftrightarrow> (\<exists>pc. worker_pool p = [pc] \<and> alone_pc pc (task_queue p)) \<and> pool_error p = None \<and>
     taken p @ pending p = submitted p"

lemma alone_action: "pool_action p l p' \<Longrightarrow> alone p \<Longrightarrow> alone p'"
proof (induction rule: pool_action.induct)
  case (submit_push p t)
  then obtain pc where "worker_pool p = [pc]" "alone_pc pc (task_queue p)" "\<not> shares pc" by (auto simp: alone_def)
  moreover from this(2,3) have "alone_pc pc (task_queue p @ [Some t])" by (cases pc) auto
  ultimately show ?case using submit_push.prems by (auto simp: alone_def pending_def)
next
  case (move_front p i x rest)
  then show ?case by (cases x) (auto simp: alone_def pending_def)
next
  case (pop_front p i x y rest)
  then show ?case by (cases x) (auto simp: alone_def pending_def)
next
  case (task_done p i t)
  then show ?case by (auto simp: alone_def pending_def)
qed (auto simp: alone_def pending_def)

lemma pool_keeps:
  assumes "\<forall>p l p'. pool_action p l p' \<longrightarrow> I p \<longrightarrow> I p'" and "pool_step\<^sup>*\<^sup>* p p'" and "I p"
  shows "I p'"
  using assms(2,3) by (induction rule: rtranclp_induct) (auto simp: pool_step_def assms(1))


section \<open>What users of the pool rely on\<close>

text \<open>
  Something that executes tasks: the tasks it was given, and those that are still open. A task
  becomes open only when it is given, and a task that is finished was open.
\<close>

locale task_executor =
  fixes act :: "'p \<Rightarrow> 't pool_label \<Rightarrow> 'p \<Rightarrow> bool"
    and given :: "'p \<Rightarrow> 't list"
    and open_tasks :: "'p \<Rightarrow> 't multiset"
  assumes submits: "act p (Submits t) p' \<Longrightarrow>
      given p' = given p @ [t] \<and> open_tasks p' \<subseteq># add_mset t (open_tasks p)"
    and finishes: "act p (Finishes t) p' \<Longrightarrow> given p' = given p \<and> add_mset t (open_tasks p') \<subseteq># open_tasks p"
    and internal: "act p Internal p' \<Longrightarrow> given p' = given p \<and> open_tasks p' \<subseteq># open_tasks p"
begin

definition accounted :: "'t list \<Rightarrow> 'p \<Rightarrow> bool" where
  "accounted finished p \<longleftrightarrow> mset finished + open_tasks p \<subseteq># mset (given p)"

lemma accounted_submits: "act p (Submits t) p' \<Longrightarrow> accounted finished p \<Longrightarrow> accounted finished p'"
  unfolding accounted_def
proof (drule submits, elim conjE)
  assume "given p' = given p @ [t]" "open_tasks p' \<subseteq># add_mset t (open_tasks p)"
    and i: "mset finished + open_tasks p \<subseteq># mset (given p)"
  then have "mset finished + open_tasks p' \<subseteq># add_mset t (mset finished + open_tasks p)"
    using subset_mset.add_left_mono by fastforce
  also have "\<dots> \<subseteq># add_mset t (mset (given p))" using i by simp
  finally show "mset finished + open_tasks p' \<subseteq># mset (given p')" using \<open>given p' = given p @ [t]\<close> by simp
qed

lemma accounted_finishes: "act p (Finishes t) p' \<Longrightarrow> accounted finished p \<Longrightarrow> accounted (finished @ [t]) p'"
  unfolding accounted_def
proof (drule finishes, elim conjE)
  assume "given p' = given p" "add_mset t (open_tasks p') \<subseteq># open_tasks p"
    and i: "mset finished + open_tasks p \<subseteq># mset (given p)"
  then have "mset finished + add_mset t (open_tasks p') \<subseteq># mset finished + open_tasks p"
    by (intro subset_mset.add_left_mono)
  also note i
  finally show "mset (finished @ [t]) + open_tasks p' \<subseteq># mset (given p')" using \<open>given p' = given p\<close> by simp
qed

lemma accounted_internal: "act p Internal p' \<Longrightarrow> accounted finished p \<Longrightarrow> accounted finished p'"
  unfolding accounted_def
  using internal subset_mset.add_left_mono subset_mset.order_trans by metis

lemma accounted_given: "accounted finished p \<Longrightarrow> mset finished \<subseteq># mset (given p)"
  unfolding accounted_def using mset_subset_eq_add_left subset_mset.order_trans by blast

end

fun held_pc :: "'t worker_pc \<Rightarrow> 't list" where
  "held_pc (HasTask x) = opt_list x"
| "held_pc (Running x) = opt_list x"
| "held_pc _ = []"

definition held :: "'t worker_pc list \<Rightarrow> 't multiset" where
  "held ws = (\<Sum>pc\<leftarrow>ws. mset (held_pc pc))"

definition unfinished :: "'t ThreadPool \<Rightarrow> 't multiset" where
  "unfinished p = mset (pending p) + held (worker_pool p)"

lemma held_update:
  "i < length ws \<Longrightarrow> held (ws[i := pc]) + mset (held_pc (ws ! i)) = held ws + mset (held_pc pc)"
proof (induction ws arbitrary: i)
  case (Cons w ws)
  then show ?case by (cases i) (auto simp: held_def ac_simps)
qed simp

lemma held_woken: "held (map (\<lambda>pc. if pc = Waiting then Woken else pc) ws) = held ws"
  by (induction ws) (auto simp: held_def)

lemma worker_moves:
  assumes "worker_at p i pc0" and "held_pc pc0 = []" and "held_pc pc = []"
  shows "held ((worker_pool p)[i := pc]) = held (worker_pool p)"
  using held_update [of i "worker_pool p" pc] assms by simp

interpretation pool: task_executor pool_action submitted unfinished
proof
  fix p :: "'t ThreadPool" and t p'
  show "pool_action p (Submits t) p' \<Longrightarrow> submitted p' = submitted p @ [t] \<and> unfinished p' \<subseteq># add_mset t (unfinished p)"
    by (cases rule: pool_action.cases) (auto simp: unfinished_def pending_def)
  show "pool_action p (Finishes t) p' \<Longrightarrow> submitted p' = submitted p \<and> add_mset t (unfinished p') \<subseteq># unfinished p"
  proof (erule pool_action.cases; simp)
    fix q :: "'t ThreadPool" and i u
    assume "i < length (worker_pool q) \<and> worker_pool q ! i = Running (Some u)"
    then show "add_mset u (unfinished (set_pc i AtLoop q)) \<subseteq># unfinished q"
      using held_update [of i "worker_pool q" AtLoop] by (simp add: unfinished_def pending_def)
  qed
next
  fix p p' :: "'t ThreadPool"
  assume "pool_action p Internal p'"
  then show "submitted p' = submitted p \<and> unfinished p' \<subseteq># unfinished p"
  proof (cases rule: pool_action.cases)
    case (move_front i x rest)
    then show ?thesis using held_update [of i "worker_pool p" "HasTask x"]
      by (cases x) (auto simp: unfinished_def pending_def)
  next
    case (pop_front i x y rest)
    then show ?thesis using held_update [of i "worker_pool p" "Running x"]
      by (cases y) (auto simp: unfinished_def pending_def)
  qed (auto simp: unfinished_def pending_def held_woken worker_moves)
qed

section \<open>A single worker is a queue\<close>

text \<open>
  What users see of a queue of tasks that are executed one at a time: the tasks submitted and not yet
  finished after a sequence of steps, or \<open>None\<close> when a task finishes that is not the next.
\<close>

fun fifo_run :: "'t list \<Rightarrow> 't pool_label list \<Rightarrow> 't list option" where
  "fifo_run q [] = Some q"
| "fifo_run q (Submits t # ls) = fifo_run (q @ [t]) ls"
| "fifo_run [] (Finishes t # ls) = None"
| "fifo_run (u # q) (Finishes t # ls) = (if u = t then fifo_run q ls else None)"
| "fifo_run q (Internal # ls) = fifo_run q ls"

inductive pool_trace :: "'t ThreadPool \<Rightarrow> 't pool_label list \<Rightarrow> 't ThreadPool \<Rightarrow> bool" where
  trace_refl: "pool_trace p [] p"
| trace_step: "pool_error p = None \<Longrightarrow> pool_action p l q \<Longrightarrow> pool_trace q ls r \<Longrightarrow> pool_trace p (l # ls) r"

text \<open>The task at the worker, then those in the queue.\<close>

definition open_in_order :: "'t ThreadPool \<Rightarrow> 't list" where
  "open_in_order p = concat (map held_pc (worker_pool p)) @ pending p"

lemma alone_simulates:
  assumes "pool_action p l p'" and "alone p"
  shows "fifo_run (open_in_order p) (l # ls) = fifo_run (open_in_order p') ls"
  using assms by (cases rule: pool_action.cases) (auto simp: alone_def open_in_order_def pending_def)

lemma trace_simulates: "pool_trace p ls p' \<Longrightarrow> alone p \<Longrightarrow> fifo_run (open_in_order p) ls = Some (open_in_order p')"
proof (induction rule: pool_trace.induct)
  case (trace_step p l q ls r)
  then show ?case using alone_simulates [OF trace_step(2)] alone_action [OF trace_step(2)] by simp
qed simp

text \<open>C34. A pool with one worker refines a queue: whatever the interleaving of submissions, spurious
  wake-ups, lost notifications and the destructor, each task that finishes is the first of those
  submitted and not yet finished, and these are at every moment the task at the worker and those in the
  queue.\<close>

theorem single_worker_refines_queue:
  fixes ls :: "'t pool_label list"
  assumes "pool_trace (ThreadPool_new 1) ls p"
  shows "fifo_run [] ls = Some (open_in_order p)"
proof -
  have "alone (ThreadPool_new 1 :: 't ThreadPool)" "open_in_order (ThreadPool_new 1 :: 't ThreadPool) = []"
    by (simp_all add: alone_def open_in_order_def pending_def ThreadPool_new_def)
  with trace_simulates [OF assms] show ?thesis by simp
qed

section \<open>Races\<close>

text \<open>Runs with two workers, up to the point where both have tested the queue of two tasks.\<close>

definition two_workers :: "'t option list \<Rightarrow> 't worker_pc \<Rightarrow> 't worker_pc \<Rightarrow> nat \<Rightarrow> 't list \<Rightarrow> 't list \<Rightarrow> 't list \<Rightarrow>
    't ThreadPool" where
  "two_workers q u v k sub tk dr =
     \<lparr>running_flag = True, task_queue = q, worker_pool = [u, v], notifications = k, notify_all_due = False,
      pool_joined = False, pool_error = None, submitted = sub, taken = tk, dropped = dr\<rparr>"

lemma two_workers_new: "ThreadPool_new 2 = two_workers [] AtLoop AtLoop 0 [] [] []"
proof -
  have "unat (2 :: u8) = Suc (Suc 0)" by simp
  then show ?thesis by (simp only: ThreadPool_new_def two_workers_def replicate.simps)
qed

lemma two_submit:
  "\<not> shares u \<Longrightarrow> \<not> shares v \<Longrightarrow>
     pool_step (two_workers q u v k sub tk dr) (two_workers (q @ [Some t]) u v (Suc k) (sub @ [t]) tk dr)"
  using pool_stepI [OF submit_push [of "two_workers q u v k sub tk dr" t]] by (simp add: two_workers_def)

text \<open>A worker goes from the loop to the pop when there is a task; both workers can.\<close>

lemma first_sees_task:
  assumes "q \<noteq> []" and "v \<noteq> SawEmpty"
  shows "pool_step\<^sup>*\<^sup>* (two_workers q AtLoop v k sub tk dr) (two_workers q SawTask v k sub tk dr)"
proof -
  let ?s = "\<lambda>u. two_workers q u v k sub tk dr"
  have "pool_step (?s AtLoop) (?s AtCheck)" "pool_step (?s AtCheck) (?s AtPop)"
    "pool_step (?s AtPop) (?s InPop)" "pool_step (?s InPop) (?s SawTask)"
    using pool_stepI [OF loop_on [where p = "?s AtLoop" and i = 0]] pool_stepI [OF check_task [where p = "?s AtCheck" and i = 0]] pool_stepI [OF lock_shared [where p = "?s AtPop" and i = 0]]
      pool_stepI [OF test_task [where p = "?s InPop" and i = 0]] assms
    by (simp_all add: two_workers_def)
  then show ?thesis by (meson converse_rtranclp_into_rtranclp rtranclp.rtrancl_refl)
qed

lemma second_sees_task:
  assumes "q \<noteq> []" and "u \<noteq> SawEmpty"
  shows "pool_step\<^sup>*\<^sup>* (two_workers q u AtLoop k sub tk dr) (two_workers q u SawTask k sub tk dr)"
proof -
  let ?s = "\<lambda>v. two_workers q u v k sub tk dr"
  have "pool_step (?s AtLoop) (?s AtCheck)" "pool_step (?s AtCheck) (?s AtPop)"
    "pool_step (?s AtPop) (?s InPop)" "pool_step (?s InPop) (?s SawTask)"
    using pool_stepI [OF loop_on [where p = "?s AtLoop" and i = 1]] pool_stepI [OF check_task [where p = "?s AtCheck" and i = 1]] pool_stepI [OF lock_shared [where p = "?s AtPop" and i = 1]]
      pool_stepI [OF test_task [where p = "?s InPop" and i = 1]] assms
    by (simp_all add: two_workers_def)
  then show ?thesis by (meson converse_rtranclp_into_rtranclp rtranclp.rtrancl_refl)
qed

lemma both_see_task:
  "pool_step\<^sup>*\<^sup>* (ThreadPool_new 2) (two_workers [Some a, Some b] SawTask SawTask 2 [a, b] [] [])"
proof -
  let ?s = "\<lambda>q u v k sub. two_workers q u v k sub [] []"
  have "pool_step (?s [] AtLoop AtLoop 0 []) (?s [Some a] AtLoop AtLoop 1 [a])"
    "pool_step (?s [Some a] AtLoop AtLoop 1 [a]) (?s [Some a, Some b] AtLoop AtLoop 2 [a, b])"
    using two_submit [of AtLoop AtLoop "[]" 0 "[]" "[]" "[]" a]
      two_submit [of AtLoop AtLoop "[Some a]" 1 "[a]" "[]" "[]" b] by (simp_all add: numeral_2_eq_2)
  then have "pool_step\<^sup>*\<^sup>* (?s [] AtLoop AtLoop 0 []) (?s [Some a, Some b] AtLoop AtLoop 2 [a, b])"
    by (meson converse_rtranclp_into_rtranclp rtranclp.rtrancl_refl)
  also have "pool_step\<^sup>*\<^sup>* \<dots> (?s [Some a, Some b] SawTask AtLoop 2 [a, b])" by (rule first_sees_task) simp_all
  also have "pool_step\<^sup>*\<^sup>* \<dots> (?s [Some a, Some b] SawTask SawTask 2 [a, b])" by (rule second_sees_task) simp_all
  finally show ?thesis by (simp add: two_workers_new)
qed

text \<open>C35. Two workers can take one task: since they take tasks under a shared lock, there is a run in
  which both find the first of two tasks, one moves it out and the other the empty function that is
  left; both pop, so that the second task is lost without having been run, and calling the empty
  function ends the program.\<close>

theorem pool_race_loses_task:
  "\<exists>p. pool_step\<^sup>*\<^sup>* (ThreadPool_new 2) p \<and> submitted p = [a, b] \<and> taken p = [a] \<and> task_queue p = [] \<and>
     dropped p = [b] \<and> pool_error p = Some BadFunctionCall"
proof -
  let ?s = "\<lambda>q u v tk dr. two_workers q u v 2 [a, b] tk dr"
  let ?p = "(?s [] (Running (Some a)) (Running None) [a] [b])\<lparr>pool_error := Some BadFunctionCall\<rparr>"
  note both_see_task
  also have "pool_step (?s [Some a, Some b] SawTask SawTask [] []) (?s [None, Some b] (HasTask (Some a)) SawTask [a] [])"
    using pool_stepI [OF move_front [where p = "?s [Some a, Some b] SawTask SawTask [] []" and i = 0]] by (simp add: two_workers_def)
  also have "pool_step (?s [None, Some b] (HasTask (Some a)) SawTask [a] [])
      (?s [None, Some b] (HasTask (Some a)) (HasTask None) [a] [])"
    using pool_stepI [OF move_front [where p = "?s [None, Some b] (HasTask (Some a)) SawTask [a] []" and i = 1]] by (simp add: two_workers_def)
  also have "pool_step (?s [None, Some b] (HasTask (Some a)) (HasTask None) [a] [])
      (?s [Some b] (Running (Some a)) (HasTask None) [a] [])"
    using pool_stepI [OF pop_front [where p = "?s [None, Some b] (HasTask (Some a)) (HasTask None) [a] []" and i = 0]] by (simp add: two_workers_def)
  also have "pool_step (?s [Some b] (Running (Some a)) (HasTask None) [a] [])
      (?s [] (Running (Some a)) (Running None) [a] [b])"
    using pool_stepI [OF pop_front [where p = "?s [Some b] (Running (Some a)) (HasTask None) [a] []" and i = 1 and y = "Some b"]] by (simp add: two_workers_def)
  also have "pool_step (?s [] (Running (Some a)) (Running None) [a] [b]) ?p"
    using pool_stepI [OF call_empty [where p = "?s [] (Running (Some a)) (Running None) [a] [b]" and i = 1]] by (simp add: two_workers_def)
  finally show ?thesis by (intro exI [of _ ?p]) (simp add: two_workers_def)
qed

section \<open>Lost wake-ups\<close>

definition one_worker :: "bool \<Rightarrow> 't list \<Rightarrow> 't worker_pc \<Rightarrow> nat \<Rightarrow> bool \<Rightarrow> 't ThreadPool" where
  "one_worker flag q pc k due =
     \<lparr>running_flag = flag, task_queue = map Some q, worker_pool = [pc], notifications = k, notify_all_due = due,
      pool_joined = False, pool_error = None, submitted = q, taken = [], dropped = []\<rparr>"

lemma one_worker_tests: "pool_step\<^sup>*\<^sup>* (ThreadPool_new 1) (one_worker True [] SawEmpty 0 False)"
proof -
  let ?s = "\<lambda>pc. one_worker True [] pc 0 False"
  have "pool_step (?s AtLoop) (?s AtCheck)" "pool_step (?s AtCheck) (?s SawEmpty)"
    using pool_stepI [OF loop_on [where p = "?s AtLoop" and i = 0]] pool_stepI [OF check_empty [where p = "?s AtCheck" and i = 0]] by (simp_all add: one_worker_def)
  then have "pool_step\<^sup>*\<^sup>* (?s AtLoop) (?s SawEmpty)"
    by (meson converse_rtranclp_into_rtranclp rtranclp.rtrancl_refl)
  then show ?thesis by (simp add: ThreadPool_new_def one_worker_def)
qed

lemma submission_missed: "pool_step\<^sup>*\<^sup>* (ThreadPool_new 1) (one_worker True [t] Waiting 0 False)"
proof -
  let ?s = "\<lambda>q pc k. one_worker True q pc k False"
  note one_worker_tests
  also have "pool_step (?s [] SawEmpty 0) (?s [t] SawEmpty 1)"
    using pool_stepI [OF submit_push [of "?s [] SawEmpty 0" t]] by (simp add: one_worker_def)
  also have "pool_step (?s [t] SawEmpty 1) (?s [t] SawEmpty 0)"
    using pool_stepI [OF notify_lost [of "?s [t] SawEmpty 1" 0]] by (simp add: one_worker_def)
  also have "pool_step (?s [t] SawEmpty 0) (?s [t] Waiting 0)"
    using pool_stepI [OF wait [where p = "?s [t] SawEmpty 0" and i = 0]] by (simp add: one_worker_def)
  finally show ?thesis .
qed

lemma destruction_missed: "pool_step\<^sup>*\<^sup>* (ThreadPool_new 1) (one_worker False [] Waiting 0 False)"
proof -
  let ?s = "\<lambda>flag pc due. one_worker flag [] pc 0 due"
  note one_worker_tests
  also have "pool_step (?s True SawEmpty False) (?s False SawEmpty True)"
    using pool_stepI [OF destroy_flag [of "?s True SawEmpty False"]] by (simp add: one_worker_def)
  also have "pool_step (?s False SawEmpty True) (?s False SawEmpty False)"
    using pool_stepI [OF destroy_notify [of "?s False SawEmpty True"]] by (simp add: one_worker_def)
  also have "pool_step (?s False SawEmpty False) (?s False Waiting False)"
    using pool_stepI [OF wait [where p = "?s False SawEmpty False" and i = 0]] by (simp add: one_worker_def)
  finally show ?thesis .
qed

text \<open>What can happen to a pool whose only worker waits and has no notification due.\<close>

lemma waiting_steps:
  assumes "pool_step (one_worker flag q Waiting 0 False) p'"
  shows "p' = one_worker flag q Woken 0 False \<or> (\<exists>u. p' = one_worker flag (q @ [u]) Waiting 1 False) \<or>
    flag \<and> p' = one_worker False q Waiting 0 True"
  using assms unfolding pool_step_def
  by (auto simp: one_worker_def elim!: pool_action.cases)

text \<open>C36. Wake-ups can be lost: with one worker, a task can be submitted, or the pool be destroyed,
  between the worker's test of the queue and its wait. Then the task stays queued, or the destructor
  waits for the worker, with no notification due: from there the only steps are a wake-up without
  cause, another submission and, in the first case, the destructor.\<close>

theorem pool_loses_wakeup:
  "pool_step\<^sup>*\<^sup>* (ThreadPool_new 1) (one_worker True [t] Waiting 0 False) \<and>
   pool_step\<^sup>*\<^sup>* (ThreadPool_new 1) (one_worker False [] Waiting 0 False) \<and>
   {p'. pool_step (one_worker flag q Waiting 0 False) p'} \<subseteq>
     {one_worker flag q Woken 0 False} \<union> range (\<lambda>u. one_worker flag (q @ [u]) Waiting 1 False) \<union>
     (if flag then {one_worker False q Waiting 0 True} else {})"
  using submission_missed destruction_missed waiting_steps [of flag q] by (intro conjI subsetI) fastforce+


text \<open>One worker takes the only task of the queue.\<close>

definition busy_pool :: "'t option list \<Rightarrow> 't worker_pc \<Rightarrow> 't list \<Rightarrow> 't \<Rightarrow> 't ThreadPool" where
  "busy_pool q pc tk t =
     \<lparr>running_flag = True, task_queue = q, worker_pool = [pc], notifications = 1, notify_all_due = False,
      pool_joined = False, pool_error = None, submitted = [t], taken = tk, dropped = []\<rparr>"

definition works :: "'t ThreadPool \<Rightarrow> 't ThreadPool \<Rightarrow> bool" where
  "works p p' \<longleftrightarrow> pool_error p = None \<and> pool_action p Internal p'"

lemma worker_takes_task: "works\<^sup>*\<^sup>* (busy_pool [Some t] AtLoop [] t) (busy_pool [] (Running (Some t)) [t] t)"
proof -
  let ?s = "\<lambda>pc. busy_pool [Some t] pc [] t"
  have "works (?s AtLoop) (?s AtCheck)" "works (?s AtCheck) (?s AtPop)" "works (?s AtPop) (?s InPop)"
    "works (?s InPop) (?s SawTask)" "works (?s SawTask) (busy_pool [None] (HasTask (Some t)) [t] t)"
    "works (busy_pool [None] (HasTask (Some t)) [t] t) (busy_pool [] (Running (Some t)) [t] t)"
    using loop_on [where p = "?s AtLoop" and i = 0] check_task [where p = "?s AtCheck" and i = 0]
      lock_shared [where p = "?s AtPop" and i = 0] test_task [where p = "?s InPop" and i = 0]
      move_front [where p = "?s SawTask" and i = 0 and x = "Some t" and rest = "[]"]
      pop_front [where p = "busy_pool [None] (HasTask (Some t)) [t] t" and i = 0 and y = None and rest = "[]"]
    by (simp_all add: works_def busy_pool_def)
  then show ?thesis by (meson converse_rtranclp_into_rtranclp rtranclp.rtrancl_refl)
qed

lemma pool_trace_append: "pool_trace p ls q \<Longrightarrow> pool_trace q ls' r \<Longrightarrow> pool_trace p (ls @ ls') r"
  by (induction rule: pool_trace.induct) (auto intro: trace_step)

lemma works_trace: "works\<^sup>*\<^sup>* p q \<Longrightarrow> \<exists>k. pool_trace p (replicate k Internal) q"
proof (induction rule: converse_rtranclp_induct)
  case base
  then show ?case using trace_refl [of q] by (intro exI [of _ 0]) simp
next
  case (step p p1)
  then obtain k where "pool_trace p1 (replicate k Internal) q" by blast
  with step(1) have "pool_trace p (replicate (Suc k) Internal) q" by (auto simp: works_def intro: trace_step)
  then show ?case by blast
qed

theorem single_worker_refines_queue_witness:
  "\<exists>k. fifo_run [] (Submits (7 :: nat) # replicate k Internal @ [Finishes 7, Submits 8]) = Some [8]"
proof -
  let ?new = "ThreadPool_new 1 :: nat ThreadPool" and ?done = "busy_pool [] AtLoop [7] 7 :: nat ThreadPool"
  let ?next = "?done\<lparr>task_queue := [Some 8], submitted := [7, 8], notifications := Suc 1\<rparr>"
  obtain k where k: "pool_trace (busy_pool [Some 7] AtLoop [] 7) (replicate k Internal) (busy_pool [] (Running (Some 7)) [7] (7 :: nat))"
    using works_trace [OF worker_takes_task [of "7 :: nat"]] by (elim exE) (rule that)
  have first: "pool_error ?new = None" "pool_action ?new (Submits 7) (busy_pool [Some 7] AtLoop [] 7)"
    using submit_push [of ?new 7] by (simp_all add: ThreadPool_new_def busy_pool_def)
  have errors: "pool_error (busy_pool q pc tk t) = None" for q pc tk and t :: nat by (simp add: busy_pool_def)
  have finish: "pool_action (busy_pool [] (Running (Some 7)) [7] 7) (Finishes 7) ?done"
    using task_done [where p = "busy_pool [] (Running (Some 7)) [7] 7" and i = 0] by (simp add: busy_pool_def)
  have again: "pool_action ?done (Submits 8) ?next" using submit_push [of ?done 8] by (simp add: busy_pool_def)
  have "pool_trace (busy_pool [] (Running (Some 7)) [7] 7) [Finishes 7, Submits 8] ?next"
    by (rule trace_step [OF errors finish trace_step [OF errors again trace_refl]])
  from trace_step [OF first pool_trace_append [OF k this]]
  have "pool_trace ?new (Submits 7 # replicate k Internal @ [Finishes 7, Submits 8]) ?next" .
  from single_worker_refines_queue [OF this]
  have "fifo_run [] (Submits 7 # replicate k Internal @ [Finishes 7, Submits 8]) = Some (open_in_order ?next)" .
  moreover have "open_in_order ?next = [8]" by (simp add: open_in_order_def pending_def busy_pool_def)
  ultimately show ?thesis by metis
qed

end
