(* ===== verification/Cas_Queue.thy ===== *)
theory Cas_Queue
  imports P2P_Prelude
begin

text \<open>
  The lock-free queue, \<open>daemon/utils/data_struct/cas_queue.h\<close>, run by one thread on an explicit
  heap of nodes. The member \<open>_tail\<close> is a reference to \<open>_head\<close>, so both names are the one field
  \<open>q_head\<close>. The loops are partial functions; \<open>None\<close> is a call that does not return.
\<close>

section \<open>The code\<close>

record 't Node =
  node_data :: 't
  node_ref :: u32
  node_next :: "nat option"

definition Node_new :: "'t \<Rightarrow> 't Node" where
  "Node_new object_ptr = \<lparr>node_data = object_ptr, node_ref = 0, node_next = None\<rparr>"

text \<open>
  \<open>Node::next()\<close>: \<open>ret\<close> is a reference to \<open>_next\<close>, so the loop is left in its first round, after the
  count of references has been incremented when there is a next node.
\<close>

definition Node_next :: "'t Node \<Rightarrow> nat option \<times> 't Node" where
  "Node_next n =
     (if node_next n = None then (node_next n, n)
      else let n = n\<lparr>node_ref := node_ref n + 1\<rparr> in (node_next n, n))"

record 't CASQueue =
  q_head :: "nat option"
  q_heap :: "nat \<rightharpoonup> 't Node"

definition CASQueue_new :: "'t CASQueue" where
  "CASQueue_new = \<lparr>q_head = None, q_heap = Map.empty\<rparr>"

text \<open>\<open>p->next().load()\<close>\<close>

definition load_next :: "nat option \<Rightarrow> 't CASQueue \<Rightarrow> (nat option \<times> 't CASQueue) result" where
  "load_next p q =
     (case p of
        None \<Rightarrow> Inl NullDeref
      | Some a \<Rightarrow>
          (case q_heap q a of
             None \<Rightarrow> Inl UseAfterFree
           | Some n \<Rightarrow> (case Node_next n of (next, n) \<Rightarrow> Inr (next, q\<lparr>q_heap := (q_heap q)(a \<mapsto> n)\<rparr>))))"

text \<open>\<open>p->next().compare_exchange_strong(expected, desired)\<close>\<close>

definition cas_next :: "nat option \<Rightarrow> nat option \<Rightarrow> nat option \<Rightarrow> 't CASQueue \<Rightarrow> (bool \<times> 't CASQueue) result" where
  "cas_next p expected desired q =
     bind_result (load_next p q) (\<lambda>(next, q).
       if next = expected
       then case p of
              None \<Rightarrow> Inl NullDeref
            | Some a \<Rightarrow>
                (case q_heap q a of
                   None \<Rightarrow> Inl UseAfterFree
                 | Some n \<Rightarrow> Inr (True, q\<lparr>q_heap := (q_heap q)(a \<mapsto> n\<lparr>node_next := desired\<rparr>)\<rparr>))
       else Inr (False, q))"

text \<open>\<open>compare_exchange_strong\<close> on \<open>_tail\<close>: the expected value is overwritten on failure.\<close>

definition cas_head :: "nat option \<Rightarrow> nat option \<Rightarrow> 't CASQueue \<Rightarrow> bool \<times> nat option \<times> 't CASQueue" where
  "cas_head expected desired q =
     (if q_head q = expected then (True, expected, q\<lparr>q_head := desired\<rparr>)
      else (False, q_head q, q))"

text \<open>The loop of \<open>push\<close> with the new node at address \<open>node\<close>.\<close>

partial_function (option) push_loop :: "nat \<Rightarrow> 't CASQueue \<Rightarrow> 't CASQueue result option" where
  "push_loop node q =
     (let tail = q_head q
      in case load_next (q_head q) q of
           Inl e \<Rightarrow> Some (Inl e)
         | Inr (next, q) \<Rightarrow>
             (if tail = q_head q \<and> next = None
              then (case cas_next (q_head q) next (Some node) q of
                      Inl e \<Rightarrow> Some (Inl e)
                    | Inr (exchanged, q) \<Rightarrow>
                        (if exchanged then Some (Inr q)
                         else push_loop node (snd (snd (cas_head tail (Some node) q)))))
              else if tail = q_head q
              then (case cas_head tail next q of
                      (exchanged, tail, q) \<Rightarrow> push_loop node (snd (snd (cas_head tail (Some node) q))))
              else push_loop node (snd (snd (cas_head tail (Some node) q)))))"

definition push :: "nat \<Rightarrow> 't \<Rightarrow> 't CASQueue \<Rightarrow> 't CASQueue result option" where
  "push node data q = push_loop node (q\<lparr>q_heap := (q_heap q)(node \<mapsto> Node_new data)\<rparr>)"

text \<open>
  \<open>pop\<close>: \<open>head\<close> is a reference to \<open>_head\<close>, and \<open>tail\<close> the value of the same variable; the data of
  the next node is returned only when they differ.
\<close>

partial_function (option) pop :: "'t CASQueue \<Rightarrow> ('t option \<times> 't CASQueue) result option" where
  "pop q =
     (let tail = q_head q
      in case load_next (q_head q) q of
           Inl e \<Rightarrow> Some (Inl e)
         | Inr (next, q) \<Rightarrow>
             (if q_head q = tail
              then (if q_head q = None then Some (Inr (None, q))
                    else case cas_head tail next q of (exchanged, tail, q) \<Rightarrow> pop q)
              else case next of
                     None \<Rightarrow> Some (Inl NullDeref)
                   | Some a \<Rightarrow>
                       (case q_heap q a of
                          None \<Rightarrow> Some (Inl UseAfterFree)
                        | Some n \<Rightarrow>
                            Some (Inr (Some (node_data n), q\<lparr>q_head := next, q_heap := (q_heap q)(a := None)\<rparr>)))))"

definition queue_empty :: "'t CASQueue \<Rightarrow> bool" where
  "queue_empty q \<longleftrightarrow> q_head q = q_head q"

section \<open>The queue cannot be used\<close>

lemma load_next_head: "load_next p q = Inr (nx, q') \<Longrightarrow> q_head q' = q_head q \<and> p \<noteq> None"
  by (auto simp: load_next_def split: option.splits prod.splits)

lemma pop_no_value: "pop q = Some r \<Longrightarrow> \<exists>e. r = Inl e"
proof (erule pop.raw_induct [where P = "\<lambda>q r. \<exists>e. r = Inl e", rotated])
  fix f :: "'a CASQueue \<Rightarrow> ('a option \<times> 'a CASQueue) result option" and q r
  assume IH: "\<And>q r. f q = Some r \<Longrightarrow> \<exists>e. r = Inl e"
    and body: "(let tail = q_head q
      in case load_next (q_head q) q of
           Inl e \<Rightarrow> Some (Inl e)
         | Inr (next, q) \<Rightarrow>
             (if q_head q = tail
              then (if q_head q = None then Some (Inr (None, q))
                    else case cas_head tail next q of (exchanged, tail, q) \<Rightarrow> f q)
              else case next of
                     None \<Rightarrow> Some (Inl NullDeref)
                   | Some a \<Rightarrow>
                       (case q_heap q a of
                          None \<Rightarrow> Some (Inl UseAfterFree)
                        | Some n \<Rightarrow>
                            Some (Inr (Some (node_data n), q\<lparr>q_head := next, q_heap := (q_heap q)(a := None)\<rparr>))))) = Some r"
  show "\<exists>e. r = Inl e"
  proof (cases "load_next (q_head q) q")
    case (Inl e)
    with body show ?thesis by auto
  next
    case (Inr x)
    then obtain nx q' where x: "load_next (q_head q) q = Inr (nx, q')" by (cases x) auto
    with load_next_head [OF x] body have "f (q'\<lparr>q_head := nx\<rparr>) = Some r" by (auto simp: Let_def cas_head_def)
    with IH show ?thesis by blast
  qed
qed

text \<open>The queue cannot be used: pushing to a new queue dereferences its null head, \<open>pop\<close> never
  returns an element or \<open>nullptr\<close> (it fails or does not return, whatever the queue holds), and
  \<open>empty\<close> is always true, because \<open>_tail\<close> is \<open>_head\<close> itself.\<close>

theorem cas_queue_unusable:
  "push node data CASQueue_new = Some (Inl NullDeref) \<and> pop CASQueue_new = Some (Inl NullDeref) \<and>
   pop q \<noteq> Some (Inr answer) \<and> queue_empty q"
proof -
  have "pop q \<noteq> Some (Inr answer)" using pop_no_value [of q "Inr answer"] by auto
  then show ?thesis
    by (simp add: push_def push_loop.simps pop.simps CASQueue_new_def load_next_def queue_empty_def)
qed

end
