(* ===== verification/File_Model.thy ===== *)
theory File_Model
  imports P2P_Prelude
begin

text \<open>
  Files and their blocks: \<open>daemon/file/models/file.cc\<close>, \<open>data_block.cc\<close> and \<open>i_node.cc\<close>. A shared
  pointer is an option (\<open>None\<close> for null); where pointers are compared, objects are named by their
  addresses. An argument taken by reference and moved from is returned as it is left. A
  \<open>std::string_view\<close> shows the characters it refers to until their owner is gone.
\<close>

section \<open>The code\<close>

subsection \<open>Blocks\<close>

datatype string_view = View string | Dangling

record DataBlock =
  block_index :: int
  block_size :: u32
  block_hash :: string_view
  next_block_ref :: "nat option"
  prev_block_ref :: "nat option"

type_synonym block_ptr = "DataBlock option"

text \<open>
  The constructor moves \<open>prev_block\<close> into the member and then uses it to link the blocks.
\<close>

definition DataBlock_new :: "(string \<Rightarrow> string) \<Rightarrow> string \<Rightarrow> u32 \<Rightarrow> int \<Rightarrow> block_ptr \<Rightarrow> DataBlock result" where
  "DataBlock_new sha256 data sz index prev_block =
     (let prev_block_ref = prev_block; prev_block = None :: block_ptr
      in case prev_block of
           None \<Rightarrow> Inl NullDeref
         | Some prev \<Rightarrow> Inl BadWeakPtr)"

text \<open>
  The loop of \<open>set_next_block\<close>, which exchanges the member for \<open>next_block\<close> if it equals
  \<open>next_block\<close>, and otherwise loads the member into \<open>next_block\<close>. Pointers are compared.
\<close>

partial_function (option) set_next_loop :: "nat option \<Rightarrow> nat option \<Rightarrow> nat option option" where
  "set_next_loop stored next_block =
     (if stored = next_block then Some next_block else set_next_loop stored stored)"

definition set_next_block :: "nat option \<Rightarrow> DataBlock \<Rightarrow> DataBlock option" where
  "set_next_block next_block b =
     map_option (\<lambda>stored. b\<lparr>next_block_ref := stored\<rparr>) (set_next_loop (next_block_ref b) next_block)"

definition DataBlock_size :: "DataBlock \<Rightarrow> u32" where
  "DataBlock_size b = block_size b"

definition get_block_index :: "DataBlock \<Rightarrow> int" where
  "get_block_index b = block_index b"

definition get_prev_block :: "DataBlock \<Rightarrow> nat option" where
  "get_prev_block b = prev_block_ref b"

definition get_next_block :: "DataBlock \<Rightarrow> nat option" where
  "get_next_block b = next_block_ref b"

definition get_block_hash :: "DataBlock \<Rightarrow> string_view" where
  "get_block_hash b = block_hash b"

subsection \<open>Files\<close>

text \<open>\<open>_file_size\<close> is not initialized: a new file has an arbitrary value there.\<close>

record FileNode =
  file_size :: u64
  file_inode :: "nat option"
  versions :: "string list"
  blocks :: "block_ptr list"

text \<open>The constructor calls \<open>shared_from_this\<close> before any pointer owns the object.\<close>

definition FileNode_new :: "'inode option \<Rightarrow> FileNode result" where
  "FileNode_new parent_node =
     (case parent_node of None \<Rightarrow> Inl NullDeref | Some inode \<Rightarrow> Inl BadWeakPtr)"

definition add_block :: "string \<Rightarrow> block_ptr \<Rightarrow> FileNode \<Rightarrow> block_ptr \<times> FileNode" where
  "add_block commit_id data_block f =
     (None, f\<lparr>blocks := blocks f @ [data_block], versions := versions f @ [commit_id]\<rparr>)"

definition add_blocks :: "string \<Rightarrow> block_ptr list \<Rightarrow> FileNode \<Rightarrow> FileNode" where
  "add_blocks commit_id data_blocks f =
     f\<lparr>blocks := blocks f @ data_blocks, versions := versions f @ [commit_id]\<rparr>"

definition replace_block :: "string \<Rightarrow> nat \<Rightarrow> block_ptr \<Rightarrow> FileNode \<Rightarrow> bool \<times> block_ptr \<times> FileNode" where
  "replace_block commit_id index block f =
     (if index \<ge> length (blocks f) then (False, block, f)
      else (True, None,
        f\<lparr>blocks := (blocks f)[index := block], versions := versions f @ [commit_id]\<rparr>))"

text \<open>\<open>p->size()\<close> widened to the type of \<open>_file_size\<close>.\<close>

definition ptr_size :: "block_ptr \<Rightarrow> u64 result" where
  "ptr_size p = (case p of None \<Rightarrow> Inl NullDeref | Some b \<Rightarrow> Inr (ucast (DataBlock_size b)))"

definition swap_block :: "nat \<Rightarrow> block_ptr \<Rightarrow> FileNode \<Rightarrow> FileNode result" where
  "swap_block i block f =
     bind_result (ptr_size block) (\<lambda>new_size.
       bind_result (ptr_size (blocks f ! i)) (\<lambda>old_size.
         Inr (f\<lparr>file_size := file_size f + new_size - old_size, blocks := (blocks f)[i := block]\<rparr>)))"

fun replace_loop :: "(nat \<times> block_ptr) list \<Rightarrow> FileNode \<Rightarrow> FileNode result" where
  "replace_loop [] f = Inr f"
| "replace_loop ((i, b) # rest) f =
     (if i > 0 \<or> i \<le> length (blocks f)
      then bind_result (swap_block i b f) (replace_loop rest)
      else replace_loop rest f)"

definition replace_blocks :: "string \<Rightarrow> (nat \<times> block_ptr) list \<Rightarrow> FileNode \<Rightarrow> (bool \<times> FileNode) result" where
  "replace_blocks commit_id block f =
     (if list_ex (\<lambda>(i, b). i \<ge> length (blocks f)) block then Inr (False, f)
      else bind_result (replace_loop block f) (\<lambda>f.
        Inr (True, f\<lparr>versions := versions f @ [commit_id]\<rparr>)))"

fun add_replace_loop :: "nat \<Rightarrow> block_ptr list \<Rightarrow> FileNode \<Rightarrow> FileNode result" where
  "add_replace_loop i [] f = Inr f"
| "add_replace_loop i (b # rest) f =
     (if i < length (blocks f)
      then bind_result (swap_block i b f) (add_replace_loop (Suc i) rest)
      else bind_result (ptr_size b) (\<lambda>new_size.
        add_replace_loop (Suc i) rest
          (f\<lparr>file_size := file_size f + new_size, blocks := blocks f @ [b]\<rparr>)))"

definition add_and_replace_block ::
    "string \<Rightarrow> nat \<Rightarrow> block_ptr list \<Rightarrow> FileNode \<Rightarrow> (bool \<times> FileNode) result" where
  "add_and_replace_block commit_id index new_blocks f =
     (if index \<ge> length (blocks f) then Inr (False, f)
      else bind_result (add_replace_loop index new_blocks f) (\<lambda>f.
        Inr (True, f\<lparr>versions := versions f @ [commit_id]\<rparr>)))"

subsection \<open>Directory nodes\<close>

datatype INodeType = kINodeTypeFile | kINodeTypeDirectory | kINodeTypeFileHardLink

text \<open>The children are keyed by views of their names.\<close>

record INode =
  inode_size :: u64
  mtime :: u64
  ctime :: u64
  atime :: u64
  inode_name :: string_view
  inode_parent :: "nat option"
  file_block :: "nat option"
  inode_children :: "(string_view \<times> nat) list"

definition is_root :: "INode \<Rightarrow> bool" where
  "is_root n \<longleftrightarrow> inode_parent n = None"

text \<open>\<open>find\<close> compares the keys with the path.\<close>

fun find_child :: "string \<Rightarrow> (string_view \<times> nat) list \<Rightarrow> nat option result" where
  "find_child path [] = Inr None"
| "find_child path ((View key, child) # rest) = (if key = path then Inr (Some child) else find_child path rest)"
| "find_child path ((Dangling, child) # rest) = Inl UseAfterFree"

text \<open>The key that is stored is a view of the string in the pair given to \<open>emplace\<close>, a temporary.\<close>

definition add_child :: "string \<Rightarrow> nat \<Rightarrow> INode \<Rightarrow> (bool \<times> INode) result" where
  "add_child path new_child n =
     bind_result (find_child path (inode_children n)) (\<lambda>ret.
       case ret of
         None \<Rightarrow> Inr (True, n\<lparr>inode_children := inode_children n @ [(Dangling, new_child)]\<rparr>)
       | Some child \<Rightarrow> if child \<noteq> new_child then Inr (False, n) else Inr (True, n))"

text \<open>
  Only a root can be constructed: for any other node \<open>shared_from_this\<close> throws. The name is a view of
  the parameter, which is gone when the constructor has returned. The arguments from \<open>mode\<close> on are
  not used.
\<close>

definition INode_new :: "nat option \<Rightarrow> string \<Rightarrow> u64 \<Rightarrow> u64 \<Rightarrow> u64 \<Rightarrow> u64 \<Rightarrow> u64 \<Rightarrow> u64 \<Rightarrow> u64 \<Rightarrow> u64 \<Rightarrow> u64 \<Rightarrow> u64 \<Rightarrow>
    INode result" where
  "INode_new parent name sz mtim ctim atim mode uid gid nlink inode dev =
     (let n = \<lparr>inode_size = sz, mtime = mtim, ctime = ctim, atime = atim, inode_name = View name,
               inode_parent = parent, file_block = None, inode_children = []\<rparr>
      in if \<not> is_root n then Inl BadWeakPtr else Inr (n\<lparr>inode_name := Dangling\<rparr>))"

section \<open>Contents and sizes\<close>

definition all_present :: "block_ptr list \<Rightarrow> bool" where
  "all_present bs \<longleftrightarrow> list_all (\<lambda>b. b \<noteq> None) bs"

definition total_size :: "block_ptr list \<Rightarrow> u64" where
  "total_size bs = sum_list (map (\<lambda>b. case b of None \<Rightarrow> 0 | Some b \<Rightarrow> ucast (block_size b)) bs)"

text \<open>The recorded size less the size of the blocks.\<close>

definition size_error :: "FileNode \<Rightarrow> u64" where
  "size_error f = file_size f - total_size (blocks f)"

lemma total_size_append [simp]: "total_size (xs @ ys) = total_size xs + total_size ys"
  by (simp add: total_size_def)

lemma total_size_update:
  "i < length bs \<Longrightarrow> total_size (bs[i := b]) = total_size bs - total_size [bs ! i] + total_size [b]"
proof (induction bs arbitrary: i)
  case (Cons x bs)
  then show ?case by (cases i) (simp_all add: total_size_def algebra_simps)
qed simp

lemma ptr_size_present: "b \<noteq> None \<Longrightarrow> ptr_size b = Inr (total_size [b])"
  by (auto simp: ptr_size_def total_size_def DataBlock_size_def)

lemma all_present_nth: "all_present bs \<Longrightarrow> i < length bs \<Longrightarrow> bs ! i \<noteq> None"
  by (simp add: all_present_def list_all_length)

lemma all_present_update: "all_present bs \<Longrightarrow> b \<noteq> None \<Longrightarrow> all_present (bs[i := b])"
  unfolding all_present_def list_all_iff by (metis insertE set_update_subset_insert subsetD)

lemma swap_block_present:
  assumes "all_present (blocks f)" "i < length (blocks f)" "b \<noteq> None"
  shows "\<exists>f'. swap_block i b f = Inr f' \<and> blocks f' = (blocks f)[i := b] \<and>
    size_error f' = size_error f \<and> versions f' = versions f"
proof -
  have sizes: "ptr_size b = Inr (total_size [b])" "ptr_size (blocks f ! i) = Inr (total_size [blocks f ! i])"
    using assms all_present_nth [OF assms(1,2)] by (auto intro!: ptr_size_present simp del: not_None_eq)
  have cancel: "(a + n - m) - (t - m + n) = a - t" for a n m t :: u64 by simp
  show ?thesis unfolding swap_block_def sizes
    by (simp add: size_error_def total_size_update [OF assms(2)] cancel)
qed

text \<open>The blocks that an overwriting run from \<open>i\<close> leaves.\<close>

definition spliced :: "nat \<Rightarrow> 'a list \<Rightarrow> 'a list \<Rightarrow> 'a list" where
  "spliced i new bs = take i bs @ new @ drop (i + length new) bs"

lemma spliced_Nil [simp]: "spliced i [] bs = bs"
  by (simp add: spliced_def)

lemma spliced_step: "i < length bs \<Longrightarrow> spliced (Suc i) new (bs[i := b]) = spliced i (b # new) bs"
  by (simp add: spliced_def take_Suc_conv_app_nth)

lemma add_replace_loop_correct:
  "all_present (blocks f) \<Longrightarrow> all_present new \<Longrightarrow> i \<le> length (blocks f) \<Longrightarrow>
     \<exists>f'. add_replace_loop i new f = Inr f' \<and> blocks f' = spliced i new (blocks f) \<and>
       size_error f' = size_error f \<and> versions f' = versions f"
proof (induction i new f rule: add_replace_loop.induct)
  case (2 i b rest f)
  have b: "b \<noteq> None" "all_present rest" using 2 by (simp_all add: all_present_def)
  show ?case
  proof (cases "i < length (blocks f)")
    case True
    obtain f1 where f1: "swap_block i b f = Inr f1" "blocks f1 = (blocks f)[i := b]"
        "size_error f1 = size_error f" "versions f1 = versions f"
      using swap_block_present [OF 2(3) True b(1)] by blast
    have "all_present (blocks f1)" using f1 2(3) b(1) by (simp add: all_present_update)
    then show ?thesis
      using 2(1) [OF True] True f1 b(2) by (simp add: spliced_step)
  next
    case False
    let ?f = "f\<lparr>file_size := file_size f + total_size [b], blocks := blocks f @ [b]\<rparr>"
    have i: "i = length (blocks f)" using False 2(5) by simp
    have "all_present (blocks ?f)" using 2(3) b(1) by (simp add: all_present_def)
    moreover have "size_error ?f = size_error f" by (simp add: size_error_def)
    moreover have "spliced (Suc i) rest (blocks ?f) = spliced i (b # rest) (blocks f)"
      using i by (simp add: spliced_def)
    ultimately show ?thesis
      using 2(2) [OF False ptr_size_present [OF b(1)]] False b(2) ptr_size_present [OF b(1)] i by simp
  qed
qed simp

lemma replace_loop_correct:
  "all_present (blocks f) \<Longrightarrow> list_all (\<lambda>(i, b). i < length (blocks f) \<and> b \<noteq> None) changes \<Longrightarrow>
     \<exists>f'. replace_loop changes f = Inr f' \<and>
       blocks f' = foldl (\<lambda>bs (i, b). bs[i := b]) (blocks f) changes \<and>
       size_error f' = size_error f \<and> versions f' = versions f"
proof (induction changes arbitrary: f)
  case (Cons c changes)
  obtain i b where c: "c = (i, b)" by (cases c)
  obtain f1 where f1: "swap_block i b f = Inr f1" "blocks f1 = (blocks f)[i := b]"
      "size_error f1 = size_error f" "versions f1 = versions f"
    using swap_block_present [of f i b] Cons.prems c by auto
  have "all_present (blocks f1)" using f1 Cons.prems c by (simp add: all_present_update)
  then show ?case using Cons.IH [of f1] Cons.prems f1 c by auto
qed simp

text \<open>C39. Overwriting from an index: when all blocks exist, \<open>add_and_replace_block\<close> succeeds, the
  file's blocks are the old ones with the new run in place from the index on and extended if it
  is longer, one version is recorded, and the recorded file size changes by exactly the change of
  the blocks' total size (modulo \<open>2 ^ 64\<close>); an index out of range changes nothing.\<close>

theorem add_and_replace_block_correct:
  assumes "all_present (blocks f)" and "all_present new"
  shows "\<exists>f'. add_and_replace_block commit index new f = Inr (index < length (blocks f), f') \<and>
    (if index < length (blocks f)
     then blocks f' = take index (blocks f) @ new @ drop (index + length new) (blocks f) \<and>
       versions f' = versions f @ [commit]
     else f' = f) \<and>
    file_size f' - total_size (blocks f') = file_size f - total_size (blocks f)"
  using add_replace_loop_correct [OF assms, of index]
  by (auto simp: add_and_replace_block_def spliced_def size_error_def)

definition block_of :: "u32 \<Rightarrow> block_ptr" where
  "block_of n = Some \<lparr>block_index = 0, block_size = n, block_hash = Dangling,
    next_block_ref = None, prev_block_ref = None\<rparr>"

theorem add_and_replace_block_correct_witness:
  "\<exists>f'. add_and_replace_block ''c'' 1 [block_of 3, block_of 4]
      \<lparr>file_size = 10, file_inode = None, versions = [], blocks = [block_of 1, block_of 9]\<rparr> = Inr (True, f') \<and>
    blocks f' = [block_of 1, block_of 3, block_of 4]"
  using add_and_replace_block_correct
    [of "\<lparr>file_size = 10, file_inode = None, versions = [], blocks = [block_of 1, block_of 9]\<rparr>"
      "[block_of 3, block_of 4]" "''c''" 1]
  by (auto simp: all_present_def block_of_def)



text \<open>Linking blocks has no effect: \<open>set_next_block\<close> returns for every argument and leaves the
  block as it was, and no block with a predecessor pointer can be constructed, since the
  constructor uses the pointer it has moved away.\<close>

theorem set_next_block_no_effect:
  "set_next_block next b = Some b \<and> DataBlock_new sha256 data sz index prev = Inl NullDeref"
  by (simp add: set_next_block_def set_next_loop.simps DataBlock_new_def)

text \<open>A directory takes one child: after the first its keys refer to strings that are gone, and every
  further call, for whatever path, compares with such a key.\<close>

theorem second_child_reads_freed_key:
  assumes "INode_new None name sz mtim ctim atim mode uid gid nlink inode dev = Inr n"
  shows "\<exists>n1. add_child path child n = Inr (True, n1) \<and> inode_name n1 = Dangling \<and>
    add_child path2 child2 n1 = Inl UseAfterFree"
  using assms by (auto simp: INode_new_def is_root_def add_child_def Let_def)

theorem second_child_reads_freed_key_witness:
  "\<exists>n n1. INode_new None ''/'' 0 0 0 0 0 0 0 0 0 0 = Inr n \<and> add_child ''a'' 1 n = Inr (True, n1) \<and>
    add_child ''b'' 2 n1 = Inl UseAfterFree"
proof -
  obtain n where n: "INode_new None ''/'' 0 0 0 0 0 0 0 0 0 0 = Inr n" by (simp add: INode_new_def is_root_def Let_def)
  with second_child_reads_freed_key [OF n, of "''a''" 1 "''b''" 2] show ?thesis by blast
qed

end
