(* ===== verification/Storage.thy ===== *)
theory Storage
  imports Management
begin

text \<open>
  Key pairs on disk and the data folder: \<open>daemon/utils/cert/cert_utils_ecdsa.cc\<close> and the constructor
  of \<open>daemon/file_database.cc\<close>. OpenSSL's key generation and PEM encoding are parameters.
\<close>

section \<open>The code\<close>

record 'key ec_library =
  EC_KEY_generate_key :: "'key option"
  EC_KEY_check_key :: "'key \<Rightarrow> bool"
  PEM_public :: "'key \<Rightarrow> string"
  PEM_private :: "'key \<Rightarrow> string"

text \<open>A file that \<open>fopen\<close> cannot open for writing is a null pointer for the writer.\<close>

definition write_pem :: "libraries \<Rightarrow> string \<Rightarrow> string \<Rightarrow> files \<Rightarrow> files result" where
  "write_pem L path pem fs = (if lib_writable L path then Inr (fs(path \<mapsto> pem)) else Inl NullDeref)"

definition generate_key_pair :: "'key ec_library \<Rightarrow> libraries \<Rightarrow> string \<Rightarrow> string \<Rightarrow> files \<Rightarrow> ('key option \<times> files) result" where
  "generate_key_pair ec L pub_key_location priv_key_location fs =
     (case EC_KEY_generate_key ec of
        None \<Rightarrow> Inr (None, fs)
      | Some key \<Rightarrow>
          if \<not> EC_KEY_check_key ec key then Inr (None, fs)
          else bind_result (write_pem L pub_key_location (PEM_public ec key) fs) (\<lambda>fs.
               bind_result (write_pem L priv_key_location (PEM_private ec key) fs) (\<lambda>fs.
                 Inr (Some key, fs))))"

text \<open>The folders that exist; \<open>create_directories\<close> creates those above the path too.\<close>

definition path_folders :: "string \<Rightarrow> string list" where
  "path_folders path =
     path # map (\<lambda>i. take i path) (filter (\<lambda>i. 0 < i \<and> path ! i = CHR ''/'') [0..<length path])"

record StorageContext =
  current_head_commit_id :: string
  data_storage_path :: string
  storage_pool :: "nat option"

definition StorageContext_new :: "(string \<Rightarrow> bool) \<Rightarrow> string \<Rightarrow> nat option \<Rightarrow> string set \<Rightarrow>
    (StorageContext \<times> string set) result" where
  "StorageContext_new can_create path thread_pool folders =
     (let ctx = \<lparr>current_head_commit_id = [], data_storage_path = path, storage_pool = thread_pool\<rparr>
      in if path \<notin> folders
         then (if can_create path then Inr (ctx, folders \<union> set (path_folders path))
               else Inl (RuntimeError ''filesystem_error''))
         else Inr (ctx, folders))"

section \<open>Properties\<close>

text \<open>Key pairs: a key is returned only if it was generated and passed the check; then, when the
  two locations differ, the files hold its public and its private encoding; with the same location
  for both the private key has replaced the public one. Without a key no file changes.\<close>

theorem generate_key_pair_files:
  assumes "generate_key_pair ec L pub priv fs = Inr (r, fs')"
  shows "case r of
      None \<Rightarrow> fs' = fs
    | Some key \<Rightarrow> EC_KEY_generate_key ec = Some key \<and> EC_KEY_check_key ec key \<and>
        fs' priv = Some (PEM_private ec key) \<and> fs' pub = Some (if pub = priv then PEM_private ec key else PEM_public ec key) \<and>
        (\<forall>p. p \<noteq> pub \<and> p \<noteq> priv \<longrightarrow> fs' p = fs p)"
  using assms
  by (auto simp: generate_key_pair_def write_pem_def result_simps split: option.splits if_splits)

lemma StorageContext_folder:
  "StorageContext_new can_create path pool folders = Inr (ctx, folders') \<Longrightarrow>
     data_storage_path ctx = path \<and> path \<in> folders' \<and> folders \<subseteq> folders' \<and>
     (folders' \<noteq> folders \<longrightarrow> path \<notin> folders \<and> folders' = folders \<union> set (path_folders path))"
  by (auto simp: StorageContext_new_def path_folders_def Let_def split: if_splits)

end
