(* ===== verification/Commands.thy ===== *)
theory Commands
  imports Management P2P_Server Command_Parser
begin

text \<open>
  The commands of the management interface: \<open>connection_session.cc\<close>, \<open>command_factory.cc\<close> and the
  command classes of \<open>daemon/interface/command/\<close>. A command object keeps a reference to a shared
  pointer variable; the variables that are alive are a set of addresses, and reading one that is not
  is \<open>UseAfterFree\<close>. The clock, the iteration order of hash maps and the answers to HTTP requests are
  parameters.
\<close>

section \<open>The code\<close>

subsection \<open>Sessions\<close>

datatype any = AnyEmpty | AnyInt int | AnyOther

record ConnectionSession =
  user_session :: "UserContextImpl option"
  session_storage :: "string \<rightharpoonup> any"

definition ConnectionSession_new :: "management \<Rightarrow> ConnectionSession" where
  "ConnectionSession_new g = \<lparr>user_session = usr_ctx g, session_storage = Map.empty\<rparr>"

text \<open>\<open>operator[]\<close> inserts an empty value for a key that is absent.\<close>

definition get_option :: "(any \<Rightarrow> 'a option) \<Rightarrow> string \<Rightarrow> ConnectionSession \<Rightarrow> 'a result \<times> ConnectionSession" where
  "get_option any_cast key s =
     (let v = (case session_storage s key of None \<Rightarrow> AnyEmpty | Some v \<Rightarrow> v);
          s' = s\<lparr>session_storage := (session_storage s)(key \<mapsto> v)\<rparr>
      in (case any_cast v of Some x \<Rightarrow> Inr x | None \<Rightarrow> Inl (RuntimeError ''bad any_cast''), s'))"

definition get_option_int :: "string \<Rightarrow> ConnectionSession \<Rightarrow> int result \<times> ConnectionSession" where
  "get_option_int key s = get_option (\<lambda>v. case v of AnyInt i \<Rightarrow> Some i | _ \<Rightarrow> None) key s"

definition del_option :: "string \<Rightarrow> ConnectionSession \<Rightarrow> ConnectionSession" where
  "del_option key s = s\<lparr>session_storage := (session_storage s)(key := None)\<rparr>"

definition exist_option :: "string \<Rightarrow> ConnectionSession \<Rightarrow> bool" where
  "exist_option key s \<longleftrightarrow> session_storage s key \<noteq> None"

definition store_option :: "string \<Rightarrow> any \<Rightarrow> ConnectionSession \<Rightarrow> ConnectionSession" where
  "store_option key v s = s\<lparr>session_storage := (session_storage s)(key \<mapsto> v)\<rparr>"

subsection \<open>Command objects\<close>

datatype command_kind = FileCommand | InfoCommand | PeerCommand | TimeCommand | UserCommand

record Command =
  command_class :: command_kind
  session_ref :: nat

text \<open>The addresses of the shared pointer variables that are alive, and a fresh address.\<close>

record variables =
  alive :: "nat set"
  fresh :: nat

text \<open>\<open>Command\<close> keeps a reference to the variable it is given.\<close>

definition Command_new :: "command_kind \<Rightarrow> nat \<Rightarrow> Command" where
  "Command_new kind connectionSession = \<lparr>command_class = kind, session_ref = connectionSession\<rparr>"

text \<open>
  The constructor of \<open>AutoRegCommand\<close>: its parameter is a variable of its own, \<open>Command\<close> keeps a
  reference to it, and it dies when the constructor returns.
\<close>

definition AutoRegCommand_new :: "command_kind \<Rightarrow> variables \<Rightarrow> Command \<times> variables" where
  "AutoRegCommand_new kind vs =
     (let parameter = fresh vs;
          entered = \<lparr>alive = insert parameter (alive vs), fresh = Suc parameter\<rparr>;
          object = Command_new kind parameter
      in (object, entered\<lparr>alive := alive entered - {parameter}\<rparr>))"

definition session :: "Command \<Rightarrow> variables \<Rightarrow> ConnectionSession \<Rightarrow> ConnectionSession result" where
  "session c vs s = (if session_ref c \<in> alive vs then Inr s else Inl UseAfterFree)"

subsection \<open>Factory\<close>

text \<open>The constructor map: name to description and class.\<close>

type_synonym registry = "string \<rightharpoonup> string \<times> command_kind"

definition reg_command_internal :: "string \<Rightarrow> string \<times> command_kind \<Rightarrow> registry \<Rightarrow> bool \<times> registry" where
  "reg_command_internal command obj reg =
     (if reg command \<noteq> None then (False, reg) else (True, reg(command \<mapsto> obj)))"

definition reg_command :: "string \<Rightarrow> string \<Rightarrow> command_kind \<Rightarrow> registry \<Rightarrow> bool \<times> registry" where
  "reg_command cmd desc obj reg = reg_command_internal cmd (desc, obj) reg"

definition setw :: "nat \<Rightarrow> string \<Rightarrow> string" where
  "setw n s = replicate (n - length s) (CHR '' '') @ s"

definition setw_left :: "nat \<Rightarrow> string \<Rightarrow> string" where
  "setw_left n s = s @ replicate (n - length s) (CHR '' '')"

definition get_help_msg :: "(registry \<Rightarrow> (string \<times> string \<times> command_kind) list) \<Rightarrow> registry \<Rightarrow> string" where
  "get_help_msg order reg =
     concat (map (\<lambda>(name, description, kind). setw 15 name @ setw 0 description @ [newline]) (order reg))"

definition get_command_obj :: "string \<Rightarrow> registry \<Rightarrow> variables \<Rightarrow> Command option \<times> variables" where
  "get_command_obj command_name reg vs =
     (case reg command_name of
        None \<Rightarrow> (None, vs)
      | Some (description, kind) \<Rightarrow> (case AutoRegCommand_new kind vs of (c, vs') \<Rightarrow> (Some c, vs')))"

definition COMMAND_NAME :: "command_kind \<Rightarrow> string" where
  "COMMAND_NAME kind =
     (case kind of FileCommand \<Rightarrow> ''FILE'' | InfoCommand \<Rightarrow> ''INFO'' | PeerCommand \<Rightarrow> ''PEER''
      | TimeCommand \<Rightarrow> ''TIME'' | UserCommand \<Rightarrow> ''USER'')"

definition COMMAND_DESCRIPTION :: "command_kind \<Rightarrow> string" where
  "COMMAND_DESCRIPTION kind = ''DEFAULT''"

text \<open>The registrations of static initialisation, in any order of the classes.\<close>

fun reg_commands :: "command_kind list \<Rightarrow> registry \<Rightarrow> registry" where
  "reg_commands [] reg = reg"
| "reg_commands (kind # kinds) reg =
     reg_commands kinds (snd (reg_command (COMMAND_NAME kind) (COMMAND_DESCRIPTION kind) kind reg))"

subsection \<open>Commands\<close>

text \<open>
  What a command runs in: the libraries, the machine and its interfaces, the answers to the requests
  it makes (in their order), the time of day as text, and the order in which a hash map is iterated.
\<close>

record surroundings =
  sur_libraries :: libraries
  sur_machine :: machine
  sur_interfaces :: "(string \<times> sockaddr_in option) list option"
  sur_web :: "nat \<Rightarrow> curl_lib"
  sur_ctime :: string
  sur_iteration :: "(string \<rightharpoonup> IPAddress route) \<Rightarrow> (string \<times> IPAddress route) list"

definition time_exec :: "surroundings \<Rightarrow> string list \<Rightarrow> string" where
  "time_exec E args =
     (if args \<noteq> [] then ''na command does not need any arguments!'' else []) @ sur_ctime E"

definition file_exec :: "surroundings \<Rightarrow> ConnectionSession result \<Rightarrow> string list \<Rightarrow> string result" where
  "file_exec E sess args =
     bind_result sess (\<lambda>s.
       let out = (if args = [] then ''Usage: file <command> [args]'' @ [newline] else [])
       in case user_session s of
            None \<Rightarrow> Inl NullDeref
          | Some user_ctx \<Rightarrow>
              if \<not> is_logged_in user_ctx then Inr (out @ ''You are not logged in.'' @ [newline])
              else Inr (out @ sur_ctime E))"

definition show_bool :: "bool \<Rightarrow> string" where
  "show_bool b = (if b then ''true'' else ''false'')"

definition info_exec :: "surroundings \<Rightarrow> string list \<Rightarrow> management \<Rightarrow> management \<times> string result" where
  "info_exec E args g =
     (if args \<noteq> [] then (g, Inr ''INFO command does not need any arguments!'')
      else case dev_ctx (sur_libraries E) (sur_web E 0) (sur_machine E) (sur_interfaces E) g of
             (g', r) \<Rightarrow>
               (g', bind_result r (\<lambda>device_ctx.
                 case device_ctx of
                   None \<Rightarrow> Inl NullDeref
                 | Some d \<Rightarrow>
                     bind_result (device_info (sur_libraries E) (sur_web E 1) d) (\<lambda>info.
                       case info of
                         None \<Rightarrow> Inl NullDeref
                       | Some i \<Rightarrow>
                           bind_result (info_device_id i) (\<lambda>id.
                           bind_result (is_enabled (sur_libraries E) (sur_web E 2) d) (\<lambda>enabled.
                           bind_result (info_machine_id i) (\<lambda>hardware.
                           bind_result (info_device_ip i) (\<lambda>ip.
                           bind_result (info_register_user i) (\<lambda>user.
                             Inr (''Device info: '' @ [newline] @ ''  Device id: '' @ id @ [newline] @
                                  ''  Device status: '' @ show_bool enabled @ [newline] @
                                  ''  Device hardware id: '' @ hardware @ [newline] @
                                  ''  Device Registered ip: '' @ ip @ [newline] @
                                  ''  Device Register User: '' @ user))))))))))"

text \<open>The width applies to the first item that an address prints, its string.\<close>

fun peer_lines :: "(string \<times> IPAddress route) list \<Rightarrow> string result" where
  "peer_lines [] = Inr []"
| "peer_lines ((peer, ip, route_ttl) # rest) =
     (case ip of
        None \<Rightarrow> Inl NullDeref
      | Some a \<Rightarrow>
          bind_result (peer_lines rest) (\<lambda>out.
            Inr (setw_left 37 peer @ '' '' @
                 setw_left 20 (ip_address_str a) @ '':'' @ show_nat (unat (port_number a)) @ '' '' @
                 setw_left 15 (show_nat (unat route_ttl)) @ [newline] @ out)))"

definition peer_exec :: "surroundings \<Rightarrow> string list \<Rightarrow> ('k, 'c) P2PServerContext option \<Rightarrow> string result" where
  "peer_exec E args server =
     (case server of
        None \<Rightarrow> Inl NullDeref
      | Some s \<Rightarrow>
          bind_result (peer_lines (sur_iteration E (get_online_peers s))) (\<lambda>out.
            Inr ((if args \<noteq> [] then ''PEER command does not need any arguments!'' else []) @
                 setw_left 37 ''Peer ID'' @ '' '' @ setw_left 20 ''Next Jump Node'' @ '' '' @
                 setw_left 15 ''TTL'' @ [newline] @ out)))"

definition user_info :: "JsonModel \<Rightarrow> string result" where
  "user_info info =
     bind_result (user_name info) (\<lambda>name.
     bind_result (user_detail_email info) (\<lambda>email.
       Inr (''User info:'' @ [newline] @ ''  name: '' @ name @ [newline] @ ''  email: '' @ email @ [newline] @
            ''  group: '' @ [newline] @
            ''    '' @ setw_left 5 ''id'' @ setw_left 15 ''name'' @ setw_left 20 ''description'' @ [newline])))"

definition user_exec :: "surroundings \<Rightarrow> ConnectionSession result \<Rightarrow> string list \<Rightarrow>
    (string \<times> ConnectionSession option) result" where
  "user_exec E sess args =
     (if args = [] then Inr (''Usage: USER [COMMAND] [OPTIONS]'', None)
      else bind_result sess (\<lambda>s.
        let user_ctx = user_session s;
            with_user = (\<lambda>f. case user_ctx of None \<Rightarrow> Inl NullDeref | Some u \<Rightarrow> f u);
            put = (\<lambda>u. Some (s\<lparr>user_session := Some u\<rparr>))
        in if args ! 0 = ''LOGIN'' then
             if length args < 3 then Inr (''Usage: USER LOGIN <email> <password>'', None)
             else with_user (\<lambda>u.
               if is_logged_in u then Inr (''You are already logged in.'', None)
               else bind_result (login (sur_libraries E) (sur_web E 0) (args ! 1) (args ! 2) u) (\<lambda>((ok, msg), u').
                 Inr (if ok then ''Login successful.'' else ''login failed: '' @ msg, put u')))
           else if args ! 0 = ''INFO'' then
             if length args \<noteq> 1 then Inr (''Usage: USER INFO'', None)
             else with_user (\<lambda>u.
               if \<not> is_logged_in u then Inr (''You are not logged in.'', None)
               else bind_result (user_detail (sur_libraries E) (sur_web E 0) u) (\<lambda>info.
                 case info of
                   None \<Rightarrow> Inl NullDeref
                 | Some i \<Rightarrow> bind_result (user_info i) (\<lambda>out. Inr (out, None))))
           else if args ! 0 = ''LOGOUT'' then
             if length args \<noteq> 1 then Inr (''Usage: USER LOGOUT'', None)
             else with_user (\<lambda>u.
               if \<not> is_logged_in u then Inr (''You are not logged in.'', None)
               else bind_result (logout (sur_libraries E) (sur_web E 0) u) (\<lambda>u'. Inr ([], put u')))
           else Inr (''Unknown command: '' @ args ! 0, None)))"

text \<open>\<open>exec\<close> of a command object: what the program holds afterwards, and the output.\<close>

record ('k, 'c) daemon =
  dm_management :: management
  dm_server :: "('k, 'c) P2PServerContext option"

definition exec :: "surroundings \<Rightarrow> Command \<Rightarrow> variables \<Rightarrow> string list \<Rightarrow> ConnectionSession \<Rightarrow> ('k, 'c) daemon \<Rightarrow>
    (string \<times> ConnectionSession \<times> ('k, 'c) daemon) result" where
  "exec E c vs args s D =
     (case command_class c of
        TimeCommand \<Rightarrow> Inr (time_exec E args, s, D)
      | FileCommand \<Rightarrow> bind_result (file_exec E (session c vs s) args) (\<lambda>out. Inr (out, s, D))
      | InfoCommand \<Rightarrow>
          (case info_exec E args (dm_management D) of
             (g, r) \<Rightarrow> bind_result r (\<lambda>out. Inr (out, s, D\<lparr>dm_management := g\<rparr>)))
      | PeerCommand \<Rightarrow> bind_result (peer_exec E args (dm_server D)) (\<lambda>out. Inr (out, s, D))
      | UserCommand \<Rightarrow>
          bind_result (user_exec E (session c vs s) args) (\<lambda>(out, s').
            Inr (out, case s' of None \<Rightarrow> s | Some t \<Rightarrow> t, D)))"

section \<open>Sessions\<close>

text \<open>Stored options: reading gives the last value stored; a missing one fails and is then there.\<close>

lemma option_round_trip:
  "fst (get_option_int key (store_option key (AnyInt i) s)) = Inr i"
  "\<not> exist_option key (del_option key s)"
  "\<not> exist_option key s \<Longrightarrow> get_option_int key s = (Inl (RuntimeError ''bad any_cast''), store_option key AnyEmpty s)"
  by (auto simp: get_option_int_def get_option_def store_option_def exist_option_def del_option_def Let_def)

section \<open>Registration\<close>

interpretation factory: insert_once reg_command_internal "\<lambda>reg. reg" "\<lambda>obj. obj"
  by unfold_locales (auto simp: reg_command_internal_def simp del: not_None_eq)

lemma COMMAND_NAME_inj: "COMMAND_NAME k = COMMAND_NAME k' \<longleftrightarrow> k = k'"
  by (cases k; cases k') (simp_all add: COMMAND_NAME_def)

lemma reg_commands_run:
  "reg_commands kinds reg = snd (run_adds reg_command_internal
     (map (\<lambda>k. (COMMAND_NAME k, (COMMAND_DESCRIPTION k, k))) kinds) reg)"
  by (induction kinds arbitrary: reg) (simp_all add: split_beta reg_command_def)

text \<open>The order in which the command classes are registered during static initialisation does
  not matter: whenever each of the five classes occurs in it, every class is found under its own
  name, and no other name is found.\<close>

theorem registration_order_irrelevant:
  assumes "set kinds = UNIV"
  shows "reg_commands kinds Map.empty name =
    (if name \<in> range COMMAND_NAME then Some (''DEFAULT'', inv COMMAND_NAME name) else None)"
proof -
  have inj: "inj COMMAND_NAME" by (rule injI) (simp add: COMMAND_NAME_inj)
  have "reg_commands kinds Map.empty name =
      map_of (map (\<lambda>k. (COMMAND_NAME k, (COMMAND_DESCRIPTION k, k))) kinds) name"
    by (simp add: reg_commands_run factory.entry_run_adds case_prod_unfold comp_def)
  also have "\<dots> = (if name \<in> COMMAND_NAME ` set kinds then Some (''DEFAULT'', inv COMMAND_NAME name) else None)"
    by (induction kinds) (auto simp: inj COMMAND_DESCRIPTION_def inv_f_f)
  finally show ?thesis using assms by simp
qed

theorem registration_order_irrelevant_witness:
  "reg_commands [UserCommand, TimeCommand, PeerCommand, InfoCommand, FileCommand] Map.empty ''PEER'' =
     Some (''DEFAULT'', PeerCommand)"
proof -
  have all: "set [UserCommand, TimeCommand, PeerCommand, InfoCommand, FileCommand] = UNIV"
    using command_kind.exhaust by auto
  have "inv COMMAND_NAME (COMMAND_NAME PeerCommand) = PeerCommand"
    by (rule inv_f_f) (simp add: inj_def COMMAND_NAME_inj)
  moreover have "COMMAND_NAME PeerCommand = ''PEER''" by (simp add: COMMAND_NAME_def)
  ultimately show ?thesis
    using registration_order_irrelevant [OF all, of "''PEER''"] by (metis rangeI)
qed

section \<open>Lost sessions\<close>

text \<open>Addresses of variables that are alive are not fresh.\<close>

definition vars_ok :: "variables \<Rightarrow> bool" where
  "vars_ok vs \<longleftrightarrow> (\<forall>a \<in> alive vs. a < fresh vs)"

lemma AutoRegCommand_dangling:
  assumes "vars_ok vs" and "AutoRegCommand_new kind vs = (c, vs')"
  shows "vars_ok vs'" and "alive vs' = alive vs" and "session_ref c \<notin> alive vs'" and "session_ref c < fresh vs'"
    and "command_class c = kind" and "fresh vs < fresh vs'"
  using assms by (auto simp: AutoRegCommand_new_def Command_new_def vars_ok_def Let_def less_Suc_eq)

lemma get_command_obj_dangling:
  assumes "vars_ok vs" and "get_command_obj name reg vs = (Some c, vs')"
  shows "vars_ok vs' \<and> alive vs' = alive vs \<and> session_ref c \<notin> alive vs' \<and> session_ref c < fresh vs'
    \<and> (\<exists>d. reg name = Some (d, command_class c))"
proof -
  from assms(2) obtain d kind where "reg name = Some (d, kind)" and "AutoRegCommand_new kind vs = (c, vs')"
    by (auto simp: get_command_obj_def split: option.splits prod.splits)
  with AutoRegCommand_dangling [OF assms(1) this(2)] show ?thesis by auto
qed

lemma session_lost: "session_ref c \<notin> alive vs \<Longrightarrow> session c vs s = Inl UseAfterFree"
  by (simp add: session_def)

text \<open>No command can reach the session of its connection: the object that the factory makes keeps a
  reference to a parameter that is gone when it is used. So \<open>FILE\<close> with any arguments and \<open>USER\<close> with
  at least one always read a dead variable, while \<open>USER\<close> alone, \<open>TIME\<close>, \<open>INFO\<close> and \<open>PEER\<close> do not use
  the session and leave it as it is.\<close>

theorem commands_lose_session:
  assumes "vars_ok vs" and "get_command_obj name reg vs = (Some c, vs')"
  shows "(command_class c = FileCommand \<or> command_class c = UserCommand \<and> args \<noteq> [] \<longrightarrow>
      exec E c vs' args s D = Inl UseAfterFree) \<and>
    (\<forall>out s' D'. exec E c vs' args s D = Inr (out, s', D') \<longrightarrow> s' = s)"
proof -
  have "session c vs' s = Inl UseAfterFree"
    using get_command_obj_dangling [OF assms] by (intro session_lost) blast
  then show ?thesis
    by (cases "command_class c")
      (auto simp: exec_def file_exec_def user_exec_def result_simps split: prod.splits if_splits)
qed

definition no_variables :: variables where
  "no_variables = \<lparr>alive = {0}, fresh = 1\<rparr>"

theorem commands_lose_session_witness:
  "\<exists>c vs'. get_command_obj ''USER'' [''USER'' \<mapsto> (''DEFAULT'', UserCommand)] no_variables = (Some c, vs') \<and>
    (\<forall>E s (D :: (unit, unit) daemon). exec E c vs' [''LOGOUT''] s D = Inl UseAfterFree)"
proof -
  have ok: "vars_ok no_variables" by (simp add: vars_ok_def no_variables_def)
  obtain c vs' where c: "get_command_obj ''USER'' [''USER'' \<mapsto> (''DEFAULT'', UserCommand)] no_variables = (Some c, vs')"
    and "command_class c = UserCommand"
    by (auto simp: get_command_obj_def AutoRegCommand_new_def Command_new_def Let_def)
  with commands_lose_session [OF ok c, of "[''LOGOUT'']"] show ?thesis by blast
qed

end
