(* ===== verification/Connection.thy ===== *)
theory Connection
  imports Commands
begin

text \<open>
  A connection to the management interface, \<open>daemon/interface/connection_container.cc\<close>: reading
  command lines byte by byte, parsing and executing them, answering. The socket is the list of
  results of \<open>read\<close>; when it is used up the next \<open>read\<close> blocks, and the round has the value \<open>None\<close>.
  The calls of \<open>write\<close> are recorded; what the system does with them, such as a signal on a closed
  socket, is not part of the model. The time in which the thread already runs while the constructor
  still initialises the members declared after it is the subject of \<open>Thread_Starts\<close>.
  The keys of the instance map are views of the command string of the round that added them, so
  that a later round reads a dead string when it compares one.
\<close>

section \<open>The code\<close>

definition kTerminalMessage :: string where "kTerminalMessage = ''P2PFileSync>''"

text \<open>An entry of the instance map: the hash of its name, the round whose string the key views, the object.\<close>

record instance_entry =
  key_hash :: nat
  key_round :: nat
  instance_command :: Command

record ConnectionContainer =
  cc_session :: ConnectionSession
  cc_variables :: variables
  cc_round :: nat
  cc_instances :: "instance_entry list"
  cc_callback_alive :: bool

text \<open>
  A new container; \<open>_session\<close> is the one variable that is alive. The callback is kept by reference,
  to a temporary of the caller unless \<open>callback_outlives\<close>.
\<close>

definition ConnectionContainer_new :: "management \<Rightarrow> bool \<Rightarrow> ConnectionContainer" where
  "ConnectionContainer_new g callback_outlives =
     \<lparr>cc_session = ConnectionSession_new g, cc_variables = \<lparr>alive = {0}, fresh = 1\<rparr>, cc_round = 0,
      cc_instances = [], cc_callback_alive = callback_outlives\<rparr>"

text \<open>
  The lookup in the instance map. An entry with another hash is skipped; the key of an entry with the
  same hash is read, which needs the string it views to be alive. In the round of the string itself
  the key is the name that is looked up.
\<close>

fun find_instance :: "nat \<Rightarrow> nat \<Rightarrow> instance_entry list \<Rightarrow> Command option result" where
  "find_instance h now [] = Inr None"
| "find_instance h now (e # es) =
     (if key_hash e \<noteq> h then find_instance h now es
      else if key_round e \<noteq> now then Inl UseAfterFree
      else Inr (Some (instance_command e)))"

type_synonym order = "registry \<Rightarrow> (string \<times> string \<times> command_kind) list"

record factory_env =
  fe_registry :: registry
  fe_order :: order
  fe_hash :: "string \<Rightarrow> nat"

definition execute_command :: "factory_env \<Rightarrow> surroundings \<Rightarrow> ParsedCommand \<Rightarrow> ConnectionContainer \<Rightarrow> ('k, 'c) daemon \<Rightarrow>
    (bool \<times> string \<times> ConnectionContainer \<times> ('k, 'c) daemon) result" where
  "execute_command F E command cc D =
     (if fst command = ''help'' then Inr (True, get_help_msg (fe_order F) (fe_registry F), cc, D)
      else
        bind_result (find_instance (fe_hash F (fst command)) (cc_round cc) (cc_instances cc)) (\<lambda>command_ptr.
          case command_ptr of
            Some c \<Rightarrow>
              bind_result (exec E c (cc_variables cc) (snd command) (cc_session cc) D) (\<lambda>(out, s, D').
                Inr (True, out @ [newline], cc\<lparr>cc_session := s\<rparr>, D'))
          | None \<Rightarrow>
              (case get_command_obj (fst command) (fe_registry F) (cc_variables cc) of
                 (None, vs) \<Rightarrow>
                   Inr (False, ''Command not found'' @ [newline] @ ''available commands: '' @
                     get_help_msg (fe_order F) (fe_registry F), cc\<lparr>cc_variables := vs\<rparr>, D)
               | (Some c, vs) \<Rightarrow>
                   bind_result (exec E c vs (snd command) (cc_session cc) D) (\<lambda>(out, s, D').
                     Inr (True, out @ [newline],
                       cc\<lparr>cc_session := s, cc_variables := vs,
                          cc_instances := cc_instances cc @
                            [\<lparr>key_hash = fe_hash F (fst command), key_round = cc_round cc, instance_command = c\<rparr>]\<rparr>,
                       D')))))"

text \<open>
  The results of \<open>read\<close> for one byte: a byte, the end of the stream, or an error such as the time-out.
  The error -1 is stored in a \<open>size_t\<close> and so is greater than zero, but it is not 1.
\<close>

datatype read_result = Byte char | EndOfStream | ReadError

fun read_line :: "read_result list \<Rightarrow> string \<Rightarrow> (string \<times> read_result list) option" where
  "read_line [] buf = None"
| "read_line (Byte c # reads) buf =
     (if c = newline then Some (buf @ [c], reads) else read_line reads (buf @ [c]))"
| "read_line (EndOfStream # reads) buf = Some (buf, reads)"
| "read_line (ReadError # reads) buf = read_line reads buf"

text \<open>What is done with a line: the answer that is written to the socket.\<close>

definition answer_line :: "factory_env \<Rightarrow> surroundings \<Rightarrow> string \<Rightarrow> ConnectionContainer \<Rightarrow> ('k, 'c) daemon \<Rightarrow>
    (string \<times> ConnectionContainer \<times> ('k, 'c) daemon) result option" where
  "answer_line F E line cc D =
     (case parse_command line ([], []) of
        None \<Rightarrow> None
      | Some r \<Rightarrow>
          Some (bind_result r (\<lambda>(status, command).
            if \<not> Status_ok status then Inr (Status_message status, cc, D)
            else bind_result (execute_command F E command cc D) (\<lambda>(ok, out, cc', D'). Inr (out, cc', D')))))"

text \<open>One round of the loop of \<open>run\<close>: what is written, and the reads that are left.\<close>

definition serve_round :: "factory_env \<Rightarrow> surroundings \<Rightarrow> read_result list \<Rightarrow> ConnectionContainer \<Rightarrow> ('k, 'c) daemon \<Rightarrow>
    ((string list \<times> ConnectionContainer \<times> ('k, 'c) daemon) result \<times> read_result list) option" where
  "serve_round F E reads cc D =
     (case read_line reads [] of
        None \<Rightarrow> None
      | Some (line, rest) \<Rightarrow>
          if line = [] then Some (Inr ([kTerminalMessage], cc\<lparr>cc_round := Suc (cc_round cc)\<rparr>, D), rest)
          else map_option (\<lambda>r. (bind_result r (\<lambda>(out, cc', D').
                 Inr ([kTerminalMessage, out], cc'\<lparr>cc_round := Suc (cc_round cc')\<rparr>, D')), rest))
               (answer_line F E line cc D))"

text \<open>
  \<open>run\<close>: \<open>rounds\<close> is the number of rounds before which the flag was found set. Then the socket is closed
  and the callback is called.
\<close>

fun run :: "factory_env \<Rightarrow> surroundings \<Rightarrow> nat \<Rightarrow> read_result list \<Rightarrow> ConnectionContainer \<Rightarrow> ('k, 'c) daemon \<Rightarrow>
    (string list \<times> ('k, 'c) daemon) result option" where
  "run F E 0 reads cc D = Some (if cc_callback_alive cc then Inr ([], D) else Inl UseAfterFree)"
| "run F E (Suc rounds) reads cc D =
     (case serve_round F E reads cc D of
        None \<Rightarrow> None
      | Some (Inl e, rest) \<Rightarrow> Some (Inl e)
      | Some (Inr (out, cc', D'), rest) \<Rightarrow>
          map_option (\<lambda>r. bind_result r (\<lambda>(outs, D''). Inr (out @ outs, D''))) (run F E rounds rest cc' D'))"

section \<open>Reading a line\<close>

text \<open>Time-outs between the bytes of a line do not change it.\<close>

definition received :: "read_result list \<Rightarrow> string" where
  "received reads = concat (map (\<lambda>r. case r of Byte c \<Rightarrow> [c] | _ \<Rightarrow> []) reads)"

lemma read_line_received:
  assumes "received reads = s" and "EndOfStream \<notin> set reads" and "newline \<notin> set s"
  shows "read_line (reads @ Byte newline # rest) buf = Some (buf @ s @ [newline], rest)"
  using assms
proof (induction reads arbitrary: buf s)
  case Nil
  then show ?case by (simp add: received_def)
next
  case (Cons r reads)
  then show ?case by (cases r) (auto simp: received_def)
qed

text \<open>The newline that ends a line is removed before parsing.\<close>

lemma trim_input_newline:
  assumes "s \<noteq> []" "hd s \<noteq> CHR '' ''" "last s \<noteq> newline"
  shows "trim_input (s @ [newline]) = s"
proof -
  have start: "(case find_first_not_of (CHR '' '') (s @ [newline]) of None \<Rightarrow> [] | Some i \<Rightarrow> drop i (s @ [newline]))
      = s @ [newline]"
    using assms by (cases s) auto
  have l: "find_last_not_of c t = (if last t \<noteq> c then Some (length t - 1) else find_last_not_of c (butlast t))"
    if "t \<noteq> []" for c and t :: string
    using find_last_not_of_append [of c "butlast t" "[last t]"] that by simp
  have "find_last_not_of (CHR '' '') (s @ [newline]) = Some (length s)"
    using l [of "s @ [newline]"] by (simp add: newline_def)
  moreover have "find_last_not_of newline (s @ [newline]) = Some (length s - 1)"
    using l [of "s @ [newline]"] l [OF assms(1)] assms(3) by simp
  ultimately show ?thesis using start assms(1) by (simp add: trim_input_def)
qed

text \<open>
  The flag is not looked at while a line is read: a peer that sends nothing keeps the round, and with
  it the destructor that waits for the thread, blocked through any number of time-outs.
\<close>

lemma silent_peer_blocks: "serve_round F E (replicate n ReadError) cc D = None"
proof -
  have "read_line (replicate n ReadError) [] = None" by (induction n) auto
  then show ?thesis by (simp add: serve_round_def)
qed

lemma parse_line: "trim_input s = trim_input t \<Longrightarrow> parse_command s out = parse_command t out"
  by (simp add: parse_command_def)

lemma parse_received_line:
  assumes "command_line (command # args)" and "list_all (\<lambda>w. \<not> opens_quote w) (butlast args)"
  shows "parse_command (join_words (command # args) @ [newline]) out = Some (Inr (Status_OK, (command, args)))"
proof -
  let ?s = "join_words (command # args)"
  have words: "command # args \<noteq> []" "hd (command # args) \<noteq> []" "last (command # args) \<noteq> []"
    "last (last (command # args)) \<noteq> newline" "is_word command"
    using assms(1) unfolding command_line_def by auto
  then have "?s \<noteq> []" "last ?s \<noteq> newline" using last_join_words [of "command # args"] by (metis, metis)
  moreover have "hd ?s \<noteq> CHR '' ''"
    using words hd_join_words [of "command # args"] word_ends [of command] by simp
  ultimately have "trim_input (?s @ [newline]) = trim_input ?s"
    using trim_command_line [OF assms(1)] by (simp add: trim_input_newline)
  then have "parse_command (?s @ [newline]) out = parse_command ?s out" by (rule parse_line)
  then show ?thesis
    using assms by (simp add: parse_command_is_spec parse_spec_command_line args_spec_plain del: join_words.simps)
qed

section \<open>Rounds\<close>


definition plain_factory :: factory_env where
  "plain_factory = \<lparr>fe_registry = Map.empty, fe_order = (\<lambda>reg. [(''TIME'', ''DEFAULT'', TimeCommand)]), fe_hash = length\<rparr>"


section \<open>Repeated commands\<close>

text \<open>Every key in the instance map views the string of an earlier round.\<close>

definition keys_past :: "ConnectionContainer \<Rightarrow> bool" where
  "keys_past cc \<longleftrightarrow> (\<forall>e \<in> set (cc_instances cc). key_round e < cc_round cc)"

lemma find_instance_past:
  "\<forall>e \<in> set es. key_round e < now \<Longrightarrow>
     find_instance h now es = (if \<exists>e \<in> set es. key_hash e = h then Inl UseAfterFree else Inr None)"
  by (induction es) auto

lemma execute_adds_entry:
  assumes "keys_past cc" and "name \<noteq> ''help''" and "execute_command F E (name, args) cc D = Inr (True, out, cc', D')"
  shows "cc_round cc' = cc_round cc \<and> (\<exists>c. cc_instances cc' = cc_instances cc @
    [\<lparr>key_hash = fe_hash F name, key_round = cc_round cc, instance_command = c\<rparr>])"
  using assms
  by (auto simp: execute_command_def keys_past_def find_instance_past result_simps split: if_splits prod.splits option.splits)


definition time_factory :: factory_env where
  "time_factory = plain_factory\<lparr>fe_registry := [''TIME'' \<mapsto> (''DEFAULT'', TimeCommand)]\<rparr>"


section \<open>The end of a connection\<close>

lemma execute_keeps_callback:
  "execute_command F E command cc D = Inr (ok, out, cc', D') \<Longrightarrow> cc_callback_alive cc' = cc_callback_alive cc"
  by (auto simp: execute_command_def result_simps split: if_splits prod.splits option.splits)

text \<open>A round that returns has changed the container only by executing a command.\<close>

lemma answer_line_cases:
  assumes "answer_line F E line cc D = Some (Inr (out, cc', D'))"
  shows "cc' = cc \<or> (\<exists>command ok. execute_command F E command cc D = Inr (ok, out, cc', D'))"
proof -
  from assms obtain r where r: "parse_command line ([], []) = Some r"
    and b: "bind_result r (\<lambda>(status, command).
        if \<not> Status_ok status then Inr (Status_message status, cc, D)
        else bind_result (execute_command F E command cc D) (\<lambda>(ok, out, cc', D'). Inr (out, cc', D'))) = Inr (out, cc', D')"
    unfolding answer_line_def by (auto split: option.splits)
  from b obtain status command where "(if \<not> Status_ok status then Inr (Status_message status, cc, D)
        else bind_result (execute_command F E command cc D) (\<lambda>(ok, out, cc', D'). Inr (out, cc', D'))) = Inr (out, cc', D')"
    unfolding bind_result_eq_Inr by auto
  then show ?thesis
    by (cases "execute_command F E command cc D") (auto split: if_splits simp del: split_paired_Ex)
qed

lemma round_cases:
  assumes "serve_round F E reads cc D = Some (Inr (out, cc', D'), rest)"
  shows "cc' = cc\<lparr>cc_round := Suc (cc_round cc)\<rparr> \<or>
    (\<exists>command ok o1 c1. execute_command F E command cc D = Inr (ok, o1, c1, D') \<and>
       cc' = c1\<lparr>cc_round := Suc (cc_round c1)\<rparr>)"
proof (cases "read_line reads []")
  case (Some lr)
  obtain line r where lr: "lr = (line, r)" by (cases lr)
  show ?thesis
  proof (cases "line = []")
    case True
    then show ?thesis using assms Some lr by (auto simp: serve_round_def)
  next
    case False
    then obtain a where a: "answer_line F E line cc D = Some a"
      and "bind_result a (\<lambda>(out, cc', D').
                 Inr ([kTerminalMessage, out], cc'\<lparr>cc_round := Suc (cc_round cc')\<rparr>, D')) = Inr (out, cc', D')"
      using assms Some lr by (auto simp: serve_round_def)
    then obtain o1 c1 D1 where "a = Inr (o1, c1, D1)" and c1: "cc' = c1\<lparr>cc_round := Suc (cc_round c1)\<rparr>" "D1 = D'"
      unfolding bind_result_eq_Inr by auto
    with a have "c1 = cc \<or> (\<exists>command ok. execute_command F E command cc D = Inr (ok, o1, c1, D'))"
      by (intro answer_line_cases) simp
    with c1 show ?thesis by blast
  qed
qed (use assms in \<open>simp add: serve_round_def\<close>)

lemma round_keeps_callback:
  assumes "serve_round F E reads cc D = Some (Inr (out, cc', D'), rest)"
  shows "cc_callback_alive cc' = cc_callback_alive cc"
  using round_cases [OF assms] by (auto dest: execute_keeps_callback)

lemma run_dead_callback:
  "\<not> cc_callback_alive cc \<Longrightarrow> run F E rounds reads cc D \<noteq> Some (Inr r)"
proof (induction rounds arbitrary: reads cc D r)
  case (Suc rounds)
  show ?case
  proof (cases "serve_round F E reads cc D")
    case (Some x)
    obtain o' rest where x: "x = (o', rest)" by (cases x)
    show ?thesis
    proof (cases o')
      case (Inr y)
      obtain out cc' D' where y: "y = (out, cc', D')" by (cases y) auto
      have "\<not> cc_callback_alive cc'" using round_keeps_callback [of F E reads cc D out cc' D' rest] Some x Inr y Suc.prems by simp
      then show ?thesis using Suc.IH [of cc' rest D'] Some x Inr y by (auto simp: result_simps)
    qed (use Some x in simp)
  qed simp
qed simp

lemma run_closed:
  "run F E rounds (replicate rounds EndOfStream) cc D =
     Some (if cc_callback_alive cc then Inr (replicate rounds kTerminalMessage, D) else Inl UseAfterFree)"
  by (induction rounds arbitrary: cc) (simp_all add: serve_round_def)

text \<open>How a connection ends: after the peer has closed it every further round makes another write
  of the prompt to the closed socket, for as long as the flag is set; and when the flag is cleared, the
  callback that the interface passed, a temporary object, no longer exists, so that in no run, with
  whatever input, does the thread of a connection end normally.\<close>

theorem connection_never_ends_well:
  "run F E rounds (replicate rounds EndOfStream) (ConnectionContainer_new g True) D =
     Some (Inr (replicate rounds kTerminalMessage, D)) \<and>
   (\<nexists>r. run F E rounds reads (ConnectionContainer_new g False) D = Some (Inr r))"
  using run_dead_callback [of "ConnectionContainer_new g False" F E rounds reads D]
  by (simp add: run_closed ConnectionContainer_new_def)

end
