(* ===== verification/Manage_Interface.thy ===== *)
theory Manage_Interface
  imports Connection Singleton
begin

text \<open>
  The management interface, \<open>daemon/manage_interface.cc\<close>: opening the listening socket, accepting
  connections and the table of connections. The operating system is a parameter.
\<close>

section \<open>The code\<close>

definition AF_UNIX :: u16 where "AF_UNIX = 1"

definition htons :: "u16 \<Rightarrow> u16" where
  "htons p = push_bit 8 p OR drop_bit 8 p"

datatype bound_address =
    UnixPath string
  | InetAddress u16 u32

record listen_os =
  lo_socket :: "u16 \<Rightarrow> int option"
  lo_inet_aton :: "string \<Rightarrow> u32 option"
  lo_bind :: "int \<Rightarrow> bound_address \<Rightarrow> bool"
  lo_listen :: bool
  lo_event_base :: bool

text \<open>
  The constructor: the files that are left, since the socket file is unlinked before it is bound, and
  the bound socket. \<open>inet_aton\<close> leaves the zeroed address when it fails.
\<close>

definition ManagementInterface_new :: "listen_os \<Rightarrow> string \<Rightarrow> u16 \<Rightarrow> files \<Rightarrow> files \<times> (int \<times> bound_address) result" where
  "ManagementInterface_new os socket_addr listen_type fs =
     (if length socket_addr > 108 then (fs, Inl (Fatal ''socket file path cannot be longer than 108 character''))
      else case lo_socket os listen_type of
             None \<Rightarrow> (fs, Inl (Fatal ''can not create socket''))
           | Some socket_fd \<Rightarrow>
               (case (if listen_type = AF_UNIX then (fs(socket_addr := None), Inr (UnixPath socket_addr))
                      else if listen_type = AF_INET then
                        (fs, bind_result (IPAddress_of_string socket_addr) (\<lambda>ip_addr.
                           Inr (InetAddress (htons (port_number ip_addr))
                             (case lo_inet_aton os (ip_address_str ip_addr) of None \<Rightarrow> 0 | Some a \<Rightarrow> a))))
                      else (fs, Inl (Fatal ''unsupported listen type''))) of
                  (fs', addr) \<Rightarrow>
                    (fs', bind_result addr (\<lambda>addr.
                       if \<not> lo_bind os socket_fd addr then Inl (Fatal ''cannot bind open socket'')
                       else Inr (socket_fd, addr)))))"

text \<open>
  The calls of the interface thread; \<open>inst\<close> is the pointer of the singleton when the thread first
  reads it, after \<open>listen\<close>.
\<close>

datatype interface_call = MakeBase | NewEvent | AddEvent | Dispatch | DelEvent | CloseListen

definition manage_interface_thread :: "listen_os \<Rightarrow> 'i option \<Rightarrow> interface_call list result" where
  "manage_interface_thread os inst =
     (if \<not> lo_listen os then Inl (Fatal ''cannot set socket status to listen'')
      else if inst = None then Inl NullDeref
      else if \<not> lo_event_base os then Inl (Fatal ''libevent base event create failed!'')
      else Inr [MakeBase, NewEvent, AddEvent, Dispatch, DelEvent, CloseListen])"

text \<open>The table of connections and the list of descriptors to destroy.\<close>

record ManagementInterface =
  thread_management_container :: "int \<rightharpoonup> ConnectionContainer"
  destroy_list :: "int list"

definition schedule_destroy :: "int \<Rightarrow> ManagementInterface \<Rightarrow> ManagementInterface" where
  "schedule_destroy fd I = I\<lparr>destroy_list := destroy_list I @ [fd]\<rparr>"

text \<open>
  \<open>accept_handler\<close>; \<open>accepted\<close> is the descriptor of the new connection. A container under the same
  descriptor is destroyed first, which waits for its thread: \<open>ended\<close> says whether it ends.
\<close>

definition accept_handler :: "int option \<Rightarrow> bool \<Rightarrow> management \<Rightarrow> ManagementInterface \<Rightarrow> ManagementInterface option" where
  "accept_handler accepted ended g I =
     (case accepted of
        None \<Rightarrow> Some I
      | Some new_fd \<Rightarrow>
          let new_container = ConnectionContainer_new g False
          in if thread_management_container I new_fd \<noteq> None \<and> \<not> ended then None
             else Some (I\<lparr>thread_management_container := (thread_management_container I)(new_fd \<mapsto> new_container)\<rparr>))"

text \<open>
  The destructor's loop erases from the table while it iterates over it, and goes on from the
  erased element.
\<close>

definition ManagementInterface_destroy :: "ManagementInterface \<Rightarrow> ManagementInterface result" where
  "ManagementInterface_destroy I =
     (if thread_management_container I = Map.empty then Inr I else Inl UseAfterFree)"

section \<open>Opening the socket\<close>

lemma htons_htons: "htons (htons p) = p"
  by (rule bit_word_eqI) (auto simp: htons_def bit_simps)

text \<open>Opening the interface: it succeeds exactly for a path of at most 108 characters on a Unix
  socket, or a string that is an address on an IPv4 socket, when the socket can be created and bound.
  The bound address is the path (with the file that was there unlinked), or the port in network byte
  order, from which the port of the address is recovered.\<close>

theorem interface_opens:
  "snd (ManagementInterface_new os addr kind fs) = Inr (fd, bound) \<longleftrightarrow>
     length addr \<le> 108 \<and> lo_socket os kind = Some fd \<and> lo_bind os fd bound \<and>
     (kind = AF_UNIX \<and> bound = UnixPath addr \<or>
      kind = AF_INET \<and> (\<exists>ip. IPAddress_of_string addr = Inr ip \<and>
        (\<exists>port host. bound = InetAddress port host \<and> htons port = port_number ip \<and>
           host = (case lo_inet_aton os (ip_address_str ip) of None \<Rightarrow> 0 | Some a \<Rightarrow> a))))"
proof -
  have ne: "AF_INET \<noteq> AF_UNIX" by (simp add: AF_UNIX_def AF_INET_def)
  have port: "htons port = p \<longleftrightarrow> port = htons p" for port p by (metis htons_htons)
  show ?thesis
    unfolding port
    by (cases "IPAddress_of_string addr")
      (auto simp: ManagementInterface_new_def ne result_simps split: option.splits if_splits)
qed

text \<open>The thread that the constructor starts reads the pointer that is set when the constructor has returned.\<close>

lemma thread_before_instance:
  "lo_listen os \<Longrightarrow> manage_interface_thread os None = Inl NullDeref"
  by (simp add: manage_interface_thread_def)

section \<open>The state of the interface\<close>

text \<open>
  A container is well formed when its keys view strings of earlier rounds and its command objects
  refer to dead variables below the fresh one; \<open>_session\<close> is the only variable alive.
\<close>

definition container_ok :: "ConnectionContainer \<Rightarrow> bool" where
  "container_ok cc \<longleftrightarrow> keys_past cc \<and> alive (cc_variables cc) = {0} \<and> vars_ok (cc_variables cc) \<and>
     (\<forall>e \<in> set (cc_instances cc). 0 < session_ref (instance_command e)) \<and> \<not> cc_callback_alive cc"

text \<open>The steps: a connection is accepted, a connection serves a round, a descriptor is put on the list.\<close>

inductive interface_step :: "ManagementInterface \<times> ('k, 'c) daemon \<Rightarrow> ManagementInterface \<times> ('k, 'c) daemon \<Rightarrow> bool" where
  accept: "accept_handler accepted ended (dm_management D) I = Some I' \<Longrightarrow> interface_step (I, D) (I', D)"
| round: "thread_management_container I fd = Some cc \<Longrightarrow>
    serve_round F E reads cc D = Some (Inr (out, cc', D'), rest) \<Longrightarrow>
    interface_step (I, D) (I\<lparr>thread_management_container := (thread_management_container I)(fd \<mapsto> cc')\<rparr>, D')"
| schedule: "interface_step (I, D) (schedule_destroy fd I, D)"

definition interface_ok :: "ManagementInterface \<Rightarrow> bool" where
  "interface_ok I \<longleftrightarrow> (\<forall>fd cc. thread_management_container I fd = Some cc \<longrightarrow> container_ok cc)"

lemma container_ok_new: "container_ok (ConnectionContainer_new g False)"
  by (simp add: container_ok_def ConnectionContainer_new_def keys_past_def vars_ok_def)

lemma get_command_obj_ok:
  assumes "vars_ok vs" "alive vs = {0}" and "get_command_obj name reg vs = (c, vs')"
  shows "vars_ok vs' \<and> alive vs' = {0} \<and> (\<forall>obj. c = Some obj \<longrightarrow> 0 < session_ref obj)"
proof (cases c)
  case None
  then show ?thesis using assms by (auto simp: get_command_obj_def split: option.splits prod.splits)
next
  case (Some obj)
  then have v: "vars_ok vs'" and a: "alive vs' = {0}" and r: "session_ref obj \<notin> alive vs'"
    using get_command_obj_dangling [OF assms(1)] assms(2,3) by blast+
  from r have "0 < session_ref obj" unfolding a by simp
  with v a Some show ?thesis by simp
qed

lemma execute_command_ok:
  assumes "container_ok cc" and "execute_command F E command cc D = Inr (ok, out, cc', D')"
  shows "container_ok (cc'\<lparr>cc_round := Suc (cc_round cc')\<rparr>)"
proof (cases "fst command = ''help''")
  case True
  then show ?thesis using assms by (auto simp: execute_command_def container_ok_def keys_past_def less_Suc_eq)
next
  case False
  have past: "\<forall>e \<in> set (cc_instances cc). key_round e < cc_round cc"
    using assms(1) by (simp add: container_ok_def keys_past_def)
  obtain c vs' where c: "get_command_obj (fst command) (fe_registry F) (cc_variables cc) = (c, vs')"
    by fastforce
  have vs': "vars_ok vs'" "alive vs' = {0}" "\<And>obj. c = Some obj \<Longrightarrow> 0 < session_ref obj"
    using get_command_obj_ok [OF _ _ c] assms(1) by (auto simp: container_ok_def)
  have none: "find_instance (fe_hash F (fst command)) (cc_round cc) (cc_instances cc) = Inr None"
    using assms(2) False unfolding execute_command_def find_instance_past [OF past]
    by (auto split: if_splits)
  show ?thesis
  proof (cases c)
    case None
    then have "cc' = cc\<lparr>cc_variables := vs'\<rparr>"
      using assms(2) False c by (auto simp: execute_command_def none)
    then show ?thesis using assms(1) vs' by (auto simp: container_ok_def keys_past_def less_Suc_eq)
  next
    case (Some obj)
    then obtain s where "cc' = cc\<lparr>cc_session := s, cc_variables := vs', cc_instances := cc_instances cc @
        [\<lparr>key_hash = fe_hash F (fst command), key_round = cc_round cc, instance_command = obj\<rparr>]\<rparr>"
      using assms(2) False c by (auto simp: execute_command_def none result_simps)
    then show ?thesis using assms(1) vs' Some by (auto simp: container_ok_def keys_past_def less_Suc_eq)
  qed
qed

lemma container_ok_round: "container_ok cc \<Longrightarrow> container_ok (cc\<lparr>cc_round := Suc (cc_round cc)\<rparr>)"
  by (auto simp: container_ok_def keys_past_def less_Suc_eq)

lemma serve_round_ok:
  assumes "container_ok cc" and "serve_round F E reads cc D = Some (Inr (out, cc', D'), rest)"
  shows "container_ok cc'"
  using round_cases [OF assms(2)] assms(1) container_ok_round execute_command_ok by metis

text \<open>C14. The state of the interface is well formed in every run: however connections are accepted and
  served, in every connection of the table each key of the instance map views a string of an
  earlier round, each command object refers to a variable that is no longer alive, the session
  pointer of the container is the only one alive, and the destroy callback is gone.\<close>

theorem interface_well_formed:
  assumes "interface_step\<^sup>*\<^sup>* (\<lparr>thread_management_container = Map.empty, destroy_list = []\<rparr>, D) (I, D')"
    and "thread_management_container I fd = Some cc"
  shows "container_ok cc"
proof -
  have "interface_ok (fst y)" if "interface_step\<^sup>*\<^sup>* x y" "interface_ok (fst x)" for x y :: "ManagementInterface \<times> ('k, 'c) daemon"
    using that
  proof (induction rule: rtranclp_induct)
    case (step y z)
    then have ok: "interface_ok (fst y)" by blast
    from step.hyps(2) show ?case
    proof cases
      case (round I fd cc F E reads D out cc' D' rest)
      have "container_ok cc" using ok round(1,3) by (simp add: interface_ok_def)
      then have "container_ok cc'" using round(4) by (rule serve_round_ok)
      then show ?thesis using ok round(1,2) by (simp add: interface_ok_def)
    qed (use ok in \<open>auto simp: interface_ok_def accept_handler_def schedule_destroy_def container_ok_new Let_def
          split: option.splits if_splits\<close>)
  qed
  from this [OF assms(1)] assms(2) show ?thesis by (auto simp: interface_ok_def)
qed

theorem interface_well_formed_witness:
  "\<forall>D :: (unit, unit) daemon. container_ok (ConnectionContainer_new (dm_management D) False)"
proof
  fix D :: "(unit, unit) daemon"
  let ?I = "\<lparr>thread_management_container = Map.empty, destroy_list = []\<rparr>"
  let ?I' = "?I\<lparr>thread_management_container := [5 \<mapsto> ConnectionContainer_new (dm_management D) False]\<rparr>"
  have "interface_step (?I, D) (?I', D)"
    by (rule interface_step.accept [where accepted = "Some 5" and ended = True]) (simp add: accept_handler_def)
  then show "container_ok (ConnectionContainer_new (dm_management D) False)"
    using interface_well_formed [of D ?I' D 5] by auto
qed

end
