(* ===== verification/Daemon.thy ===== *)
theory Daemon
  imports Manage_Interface Server_Init Thread_Pool
begin

text \<open>
  The program, \<open>daemon/main.cc\<close>: the list of known hosts, the configuration, the start of the
  components in their order. The result of \<open>main\<close> is \<open>None\<close> while the program runs on waiting for the
  device to be enabled; the files it leaves are returned with every result.
\<close>

section \<open>The code\<close>

text \<open>The pieces that \<open>getline\<close> cuts a string into at a delimiter.\<close>

fun split_on :: "char \<Rightarrow> string \<Rightarrow> string list" where
  "split_on d [] = [[]]"
| "split_on d (c # cs) =
     (if c = d then [] # split_on d cs else (c # hd (split_on d cs)) # tl (split_on d cs))"

fun collect_hosts :: "string list \<Rightarrow> IPAddress list \<Rightarrow> IPAddress list result" where
  "collect_hosts [] known_host = Inr known_host"
| "collect_hosts (substr # rest) known_host =
     bind_result (IPAddress_of_string substr) (\<lambda>ip.
       if valid ip then collect_hosts rest (known_host @ [IPAddress_copy ip])
       else Inl (Fatal (''failed to parsing ip ['' @ substr @ '']'')))"

text \<open>\<open>None\<close> is the default of the flag.\<close>

definition known_hosts :: "string option \<Rightarrow> IPAddress list result" where
  "known_hosts flags_host =
     (case flags_host of None \<Rightarrow> Inr [] | Some s \<Rightarrow> collect_hosts (split_on (CHR '','') s) [])"

record ('k, 'cert, 'p12) host =
  h_libraries :: libraries
  h_emit :: "yaml \<Rightarrow> string"
  h_yaml :: "string \<Rightarrow> yaml option"
  h_stream_good :: bool
  h_folder_exists :: "string \<Rightarrow> bool"
  h_create_directories :: "string \<Rightarrow> bool"
  h_listen :: listen_os
  h_web :: curl_lib
  h_machine :: machine
  h_interfaces :: "(string \<times> sockaddr_in option) list option"
  h_platform :: "('k, 'cert, 'p12) platform"
  h_polls :: "nat \<Rightarrow> curl_lib"
  h_certificate :: "nat \<Rightarrow> nat \<Rightarrow> curl_lib"
  h_peers :: curl_lib

definition h_link :: "('k, 'cert, 'p12) host \<Rightarrow> device_link" where
  "h_link H = \<lparr>dl_libraries = h_libraries H, dl_polls = h_polls H, dl_certificate = h_certificate H, dl_peers = h_peers H\<rparr>"

definition load_or_create :: "('k, 'cert, 'p12) host \<Rightarrow> string \<Rightarrow> files \<Rightarrow> files \<times> Config result" where
  "load_or_create H path fs =
     (case fs path of
        Some bytes \<Rightarrow>
          (fs, bind_result (load_config (h_yaml H) bytes) (\<lambda>config.
             case config of
               None \<Rightarrow> Inl (Fatal (''failed to load config from '' @ path))
             | Some c \<Rightarrow> Inr c))
      | None \<Rightarrow>
          (case save_config (h_emit H) (lib_writable (h_libraries H) path) (h_stream_good H) (Some Config_default) of
             Inr (True, Some bytes) \<Rightarrow> (fs(path \<mapsto> bytes), Inr Config_default)
           | Inr r \<Rightarrow> (fs, Inl (Fatal (''failed to create config file ['' @ path @ '']'')))
           | Inl e \<Rightarrow> (fs, Inl e)))"

definition folder_ready :: "('k, 'cert, 'p12) host \<Rightarrow> Config \<Rightarrow> bool" where
  "folder_ready H config \<longleftrightarrow> h_folder_exists H (config_folder config) \<or> h_create_directories H (config_folder config)"

text \<open>Waiting for the listening thread; there is none before \<open>start\<close>.\<close>

definition block_util_server_stop :: "('k, 'c) P2PServerContext \<Rightarrow> unit result" where
  "block_util_server_stop s = (if srv_thread s then Inr () else Inl NullDeref)"

text \<open>The last part: the packet server for a device, and waiting for it.\<close>

definition start_server :: "('k, 'c, 'cert) env \<Rightarrow> ('k, 'cert, 'p12) host \<Rightarrow> Config \<Rightarrow> DeviceContextImpl \<Rightarrow>
    files \<Rightarrow> files \<times> ('k, 'c) P2PServerContext result option" where
  "start_server env H config d fs =
     apsnd (map_option (\<lambda>r. bind_result r (\<lambda>(started, sock, inst).
         if \<not> started then Inl (Fatal ''p2p server handler is filed to start'')
         else case singleton_get inst of
                None \<Rightarrow> Inl NullDeref
              | Some s \<Rightarrow> bind_result (block_util_server_stop s) (\<lambda>u. Inr s))))
       (P2PServerContext_init env (h_platform H) (h_link H) config d None fs)"

definition main :: "('k, 'c, 'cert) env \<Rightarrow> ('k, 'cert, 'p12) host \<Rightarrow> string option \<Rightarrow> string \<Rightarrow> files \<Rightarrow>
    files \<times> (packet_task ThreadPool \<times> ('k, 'c) P2PServerContext) result option" where
  "main env H flags_host flags_config fs =
     (case known_hosts flags_host of
        Inl e \<Rightarrow> (fs, Some (Inl e))
      | Inr known_host \<Rightarrow>
          (case load_or_create H flags_config fs of
             (fs, Inl e) \<Rightarrow> (fs, Some (Inl e))
           | (fs, Inr config) \<Rightarrow>
               if \<not> folder_ready H config then (fs, Some (Inl (Fatal ''failed to create config folder'')))
               else let thread_pool = ThreadPool_new (worker_thread_num config);
                        g = management_init config \<lparr>mgmt_instance = None, mgmt_files = fs\<rparr>
                    in (case ManagementInterface_new (h_listen H) (manage_sock_url config) AF_UNIX fs of
                          (fs, Inl e) \<Rightarrow> (fs, Some (Inl e))
                        | (fs, Inr manage_ctx) \<Rightarrow>
                            (case dev_ctx (h_libraries H) (h_web H) (h_machine H) (h_interfaces H)
                                    (g\<lparr>mgmt_files := fs\<rparr>) of
                               (g, Inl e) \<Rightarrow> (mgmt_files g, Some (Inl e))
                             | (g, Inr None) \<Rightarrow> (mgmt_files g, Some (Inl NullDeref))
                             | (g, Inr (Some d)) \<Rightarrow>
                                 apsnd (map_option (\<lambda>r. bind_result r (\<lambda>s. Inr (thread_pool, s))))
                                   (start_server env H config d (mgmt_files g))))))"

section \<open>Known hosts\<close>

fun join_on :: "char \<Rightarrow> string list \<Rightarrow> string" where
  "join_on d [] = []"
| "join_on d [s] = s"
| "join_on d (s # t # ts) = s @ d # join_on d (t # ts)"

lemma split_on_ne [simp]: "split_on d s \<noteq> []"
  by (induction s) auto

lemma split_on_piece: "d \<notin> set s \<Longrightarrow> split_on d (s @ d # t) = s # split_on d t"
  by (induction s) auto

lemma split_on_last: "d \<notin> set s \<Longrightarrow> split_on d s = [s]"
  by (induction s) auto

lemma split_join_on:
  "ss \<noteq> [] \<Longrightarrow> \<forall>s \<in> set ss. d \<notin> set s \<Longrightarrow> split_on d (join_on d ss) = ss"
  by (induction d ss rule: join_on.induct) (auto simp: split_on_piece split_on_last)

lemma collect_hosts_valid:
  assumes "list_all2 (\<lambda>s ip. IPAddress_of_string s = Inr ip \<and> valid ip) ss ips"
  shows "collect_hosts ss known = Inr (known @ ips)"
  using assms
  by (induction ss ips arbitrary: known rule: list_all2_induct) (auto simp: IPAddress_copy_def)

lemma known_hosts_list:
  assumes "list_all2 (\<lambda>s ip. IPAddress_of_string s = Inr ip \<and> valid ip) ss ips"
    and "ss \<noteq> []" and "\<forall>s \<in> set ss. CHR '','' \<notin> set s"
  shows "known_hosts (Some (join_on (CHR '','') ss)) = Inr ips"
  using assms by (simp add: known_hosts_def split_join_on collect_hosts_valid)

text \<open>The list is checked and then not used.\<close>

lemma known_hosts_unused:
  "known_hosts h = Inr hosts \<Longrightarrow> main env H h path fs = main env H None path fs"
  by (simp add: main_def known_hosts_def)

section \<open>Two starts\<close>

lemma register_client_files:
  "snd (register_client L web m ifaddrs (g\<lparr>mgmt_files := fs\<rparr>)) = snd (register_client L web m ifaddrs g)"
  by (simp add: register_client_def split: option.splits sum.splits)

lemma load_or_create_new:
  assumes "fs path = None" "lib_writable (h_libraries H) path" "h_stream_good H"
  obtains bytes where "load_or_create H path fs = (fs(path \<mapsto> bytes), Inr Config_default)"
    "save_config (h_emit H) True True (Some Config_default) = Inr (True, Some bytes)"
  using assms that by (simp add: load_or_create_def save_config_def)

lemma load_or_create_again:
  assumes "yaml_documented (h_emit H) (h_yaml H)" and "fs path = Some bytes"
    and "save_config (h_emit H) True True (Some config) = Inr (True, Some bytes)"
  shows "load_or_create H path fs = (fs, Inr config)"
  using load_saved_config [OF assms(1,3)] assms(2) by (simp add: load_or_create_def)

text \<open>What has to be in place on a host: the folder, the socket of the interface and the two files.\<close>

definition host_ready :: "('k, 'cert, 'p12) host \<Rightarrow> string \<Rightarrow> bool" where
  "host_ready H path \<longleftrightarrow>
     yaml_documented (h_emit H) (h_yaml H) \<and>
     rapidjson_documented (lib_writer (h_libraries H)) (lib_parse (h_libraries H)) \<and>
     lib_writable (h_libraries H) path \<and> lib_writable (h_libraries H) (server_certificate_path Config_default) \<and>
     h_stream_good H \<and> folder_ready H Config_default \<and>
     (\<exists>fd. lo_socket (h_listen H) AF_UNIX = Some fd \<and> lo_bind (h_listen H) fd (UnixPath (manage_sock_url Config_default))) \<and>
     path \<noteq> manage_sock_url Config_default \<and> path \<noteq> server_certificate_path Config_default"

lemma default_paths:
  "length (manage_sock_url Config_default) \<le> 108"
  "manage_sock_url Config_default \<noteq> server_certificate_path Config_default"
  by (simp_all add: Config_default_def path_append_def)

lemma interface_ready:
  assumes "host_ready H path"
  obtains ctx where "ManagementInterface_new (h_listen H) (manage_sock_url Config_default) AF_UNIX fs =
    (fs(manage_sock_url Config_default := None), Inr ctx)"
  using assms that default_paths(1) by (auto simp: host_ready_def ManagementInterface_new_def)

definition with_pool :: "Config \<Rightarrow> files \<times> ('k, 'c) P2PServerContext result option \<Rightarrow>
    files \<times> (packet_task ThreadPool \<times> ('k, 'c) P2PServerContext) result option" where
  "with_pool config =
     apsnd (map_option (\<lambda>r. bind_result r (\<lambda>s. Inr (ThreadPool_new (worker_thread_num config), s))))"

lemma main_configured:
  assumes "host_ready H path" and "load_or_create H path fs = (fs1, Inr Config_default)"
    and "g = management_init Config_default \<lparr>mgmt_instance = None, mgmt_files = fs1(manage_sock_url Config_default := None)\<rparr>"
    and "dev_ctx (h_libraries H) (h_web H) (h_machine H) (h_interfaces H) g = (g', r)"
  shows "main env H None path fs =
    (case r of
       Inl e \<Rightarrow> (mgmt_files g', Some (Inl e))
     | Inr None \<Rightarrow> (mgmt_files g', Some (Inl NullDeref))
     | Inr (Some d) \<Rightarrow> with_pool Config_default (start_server env H Config_default d (mgmt_files g')))"
proof -
  obtain ctx where i: "ManagementInterface_new (h_listen H) (manage_sock_url Config_default) AF_UNIX fs1 =
    (fs1(manage_sock_url Config_default := None), Inr ctx)"
    using interface_ready [OF assms(1)] by blast
  have "folder_ready H Config_default" using assms(1) by (simp add: host_ready_def)
  then show ?thesis
    using assms(2-4) i by (simp add: main_def with_pool_def known_hosts_def management_init_def split: sum.split option.split)
qed

text \<open>A start with both files in place goes on to the packet server, for the device that is configured.\<close>

definition registered_device :: "string \<Rightarrow> string \<Rightarrow> DeviceContextImpl" where
  "registered_device device key =
     \<lparr>dev_id = device, login_token = key, dev_server = management_server_url Config_default,
      dev_certificate_path = client_certificate_path Config_default,
      dev_configuration_path = client_configuration_path Config_default\<rparr>"

lemma dev_ctx_keeps_files:
  assumes "mgmt_instance g = Some c" "mc_device_ctx c = None"
    and "mgmt_files g (mc_server_certificate_path c) = Some file"
  shows "mgmt_files (fst (dev_ctx L web m ifaddrs g)) = mgmt_files g"
  using assms by (auto simp: dev_ctx_def split: sum.split)

lemma main_second_start:
  assumes "host_ready H path" and "root conf = conf_root key device"
    and "fs path = Some bytes" and "save_config (h_emit H) True True (Some Config_default) = Inr (True, Some bytes)"
    and "fs (server_certificate_path Config_default) = Some (save (lib_writer (h_libraries H)) conf)"
  shows "main env H None path fs = with_pool Config_default (start_server env H Config_default
    (registered_device device key) (fs(manage_sock_url Config_default := None)))"
proof -
  let ?L = "h_libraries H" and ?c = "ManagementContext_new Config_default"
  let ?fs = "fs(manage_sock_url Config_default := None)"
  define g where "g = management_init Config_default \<lparr>mgmt_instance = None, mgmt_files = ?fs\<rparr>"
  have docs: "yaml_documented (h_emit H) (h_yaml H)" "rapidjson_documented (lib_writer ?L) (lib_parse ?L)"
    using assms(1) by (simp_all add: host_ready_def)
  have g: "mgmt_instance g = Some ?c" "mc_device_ctx ?c = None"
    "mgmt_files g (mc_server_certificate_path ?c) = Some (save (lib_writer ?L) conf)"
    using default_paths(2) assms(5) by (simp_all add: g_def management_init_def ManagementContext_new_def)
  have d: "\<lparr>dev_id = device, login_token = key, dev_server = mc_server ?c,
      dev_certificate_path = mc_certificate_path ?c, dev_configuration_path = mc_configuration_path ?c\<rparr> =
      registered_device device key"
    by (simp add: registered_device_def ManagementContext_new_def)
  obtain g' where g': "dev_ctx ?L (h_web H) (h_machine H) (h_interfaces H) g = (g', Inr (Some (registered_device device key)))"
    using dev_ctx_registered [OF docs(2) assms(2) g] unfolding d by (metis prod.collapse)
  moreover have "mgmt_files g' = ?fs"
    using dev_ctx_keeps_files [OF g, of ?L "h_web H" "h_machine H" "h_interfaces H"] g'
    by (simp add: g_def management_init_def)
  ultimately show ?thesis
    using main_configured [where env = env, OF assms(1) load_or_create_again [of H fs path, OF docs(1) assms(3,4)] g_def]
    by simp
qed

definition plain_host :: "(string, string, string) host" where
  "plain_host =
     \<lparr>h_libraries = plain_libraries, h_emit = plain_emit, h_yaml = plain_parse, h_stream_good = True,
      h_folder_exists = (\<lambda>_. False), h_create_directories = (\<lambda>_. True),
      h_listen = \<lparr>lo_socket = (\<lambda>_. Some 3), lo_inet_aton = (\<lambda>_. None), lo_bind = (\<lambda>_ _. True), lo_listen = True,
                  lo_event_base = True\<rparr>,
      h_web = web_answering registration, h_machine = desk_machine ''id'', h_interfaces = Some [],
      h_platform = \<lparr>os_socket = True, os_inet_addr = (\<lambda>_. 0), os_bind = (\<lambda>_ _. True), os_listen = True,
        d2i_PKCS12 = Some,
        PKCS12_parse = (\<lambda>p12 device. Some \<lparr>cred_private_key = ''own'', cred_certificate = ''own'', cred_chain = []\<rparr>),
        event_base_new = True, store_ctx_init = True, store_verifies = (\<lambda>_ _. True)\<rparr>,
      h_polls = (\<lambda>n. web_answering (JObject [])), h_certificate = (\<lambda>call n. web_answering (JObject [])),
      h_peers = web_answering (JObject [(''peers'', JObject [(''friend'', JString ''10.0.0.1:90'')])])\<rparr>"

lemma plain_host_ready: "host_ready plain_host ''sync.yaml''"
  using plain_yaml_documented plain_json_documented
  by (simp add: host_ready_def plain_host_def folder_ready_def rapidjson_documented_def Config_default_def path_append_def)

text \<open>The management server of this host enables every device and lists one peer.\<close>

lemma plain_device_get:
  assumes "length (plain_writer (answer body)) < 1024"
  shows "device_get plain_libraries (web_answering body) endpoint d = Inr (Some (plain_writer (answer body)))"
  using plain_answer(2) [OF assms] by (simp add: device_get_def web_answering_def)

lemma plain_poll:
  assumes "login_token d \<noteq> []"
  shows "poll_device (h_link plain_host) d n = Inr True"
proof -
  have "length (plain_writer (answer (JObject []))) < 1024"
    by (simp add: plain_writer_def answer_def put_nat_def put_str_def)
  moreover have "c_strlen (Some (plain_writer (answer (JObject [])))) \<noteq> Inr 0"
    by (simp add: c_strlen_def plain_writer_def answer_def put_nat_def put_str_def)
  ultimately show ?thesis using assms
    by (auto simp: poll_device_def h_link_def plain_host_def is_enabled_def device_info_def plain_device_get
        c_strlen_def)
qed

lemma plain_peers: "known_peers (h_link plain_host) d = Inr (Some [(''friend'', ''10.0.0.1:90'')])"
proof -
  let ?body = "JObject [(''peers'', JObject [(''friend'', JString ''10.0.0.1:90'')])]"
  have "length (plain_writer (answer ?body)) < 1024"
    by (simp add: plain_writer_def answer_def put_nat_def put_str_def)
  moreover have "peer_list (answered ?body) = Inr [(''friend'', ''10.0.0.1:90'')]"
    by (simp add: peer_list_def get_map_string_def find_node_def body_node_def answer_def)
  ultimately show ?thesis
    by (simp add: known_peers_def device_peer_list_def h_link_def plain_host_def plain_device_get)
qed

lemma friend_address: "IPAddress_of_string ''10.0.0.1:90'' = Inr \<lparr>valid = True, port_number = 90, ip_address_str = ''10.0.0.1''\<rparr>"
  by code_simp

lemma plain_greet: "list_all (can_greet plain_env d raw_cert) [(''friend'', ''10.0.0.1:90'')]"
  by (simp add: can_greet_def friend_address Let_def plain_env_def)

lemma plain_device_ready:
  assumes "fs (dev_certificate_path d) = Some bytes"
  shows "device_ready plain_env (h_platform plain_host) config d fs"
  using assms by (simp add: device_ready_def listening_def plain_host_def plain_env_def)

end
