(* ===== verification/Packet_Node.thy ===== *)
theory Packet_Node
  imports P2P_Server Thread_Pool
begin

text \<open>
  A running daemon: the packet server together with the thread pool that executes the tasks it
  submits. The server's entry points run to their end one after another; its submissions, the
  workers and the network are interleaved in any way. A worker that has run a send task has written
  at most one frame to a peer; the handler for hello messages is a parameter, as in \<open>P2P_Server\<close>.
\<close>

section \<open>The code\<close>

record ('k, 'c) node =
  node_server :: "('k, 'c) P2PServerContext"
  node_pool :: "packet_task ThreadPool"
  node_sent :: "(IPAddress \<times> string) list"
  node_done :: "packet_task list"
  node_error :: "failure option"

definition node_new :: "('k, 'c) P2PServerContext \<Rightarrow> packet_task ThreadPool \<Rightarrow> ('k, 'c) node" where
  "node_new s p = \<lparr>node_server = s, node_pool = p, node_sent = [], node_done = [], node_error = None\<rparr>"

text \<open>What a send task leaves on the network.\<close>

fun written :: "IPAddress option \<Rightarrow> string option \<Rightarrow> (IPAddress \<times> string) list" where
  "written (Some ip) (Some bytes) = [(ip, bytes)]"
| "written _ _ = []"

text \<open>The steps of the pool: a submission reaches it, its workers go on, and tasks are executed.\<close>

inductive node_work :: "('k, 'c, 'cert) env \<Rightarrow>
    (ProtoMessage \<Rightarrow> sock_ptr \<Rightarrow> ('k, 'c) P2PServerContext \<Rightarrow> (bool \<times> ('k, 'c) P2PServerContext) result) \<Rightarrow>
    ('k, 'c) node \<Rightarrow> ('k, 'c) node \<Rightarrow> bool" for env on_hello where
  submitting: "length (submitted (node_pool n)) < length (srv_tasks (node_server n)) \<Longrightarrow>
     pool_action (node_pool n) (Submits (srv_tasks (node_server n) ! length (submitted (node_pool n)))) p' \<Longrightarrow>
     node_work env on_hello n (n\<lparr>node_pool := p'\<rparr>)"
| working: "pool_action (node_pool n) Internal p' \<Longrightarrow> node_work env on_hello n (n\<lparr>node_pool := p'\<rparr>)"
| sending: "pool_action (node_pool n) (Finishes (SendTask port m ip)) p' \<Longrightarrow>
     send_packet_tcp (pb env) net port m ip = Inr (ok, out) \<Longrightarrow>
     node_work env on_hello n (n\<lparr>node_pool := p', node_sent := node_sent n @ written ip out,
       node_done := node_done n @ [SendTask port m ip]\<rparr>)"
| send_failing: "pool_action (node_pool n) (Finishes (SendTask port m ip)) p' \<Longrightarrow>
     send_packet_tcp (pb env) net port m ip = Inl e \<Longrightarrow>
     node_work env on_hello n (n\<lparr>node_error := Some e\<rparr>)"
| handling: "pool_action (node_pool n) (Finishes (HandleTask m addr)) p' \<Longrightarrow>
     PacketHandler_handle env on_hello m addr (node_server n) = Inr s' \<Longrightarrow>
     node_work env on_hello n (n\<lparr>node_pool := p', node_server := s', node_done := node_done n @ [HandleTask m addr]\<rparr>)"
| handle_failing: "pool_action (node_pool n) (Finishes (HandleTask m addr)) p' \<Longrightarrow>
     PacketHandler_handle env on_hello m addr (node_server n) = Inl e \<Longrightarrow>
     node_work env on_hello n (n\<lparr>node_error := Some e\<rparr>)"

inductive node_step :: "('k, 'c, 'cert) env \<Rightarrow>
    (ProtoMessage \<Rightarrow> sock_ptr \<Rightarrow> ('k, 'c) P2PServerContext \<Rightarrow> (bool \<times> ('k, 'c) P2PServerContext) result) \<Rightarrow>
    ('k, 'c) node \<Rightarrow> ('k, 'c) node \<Rightarrow> bool" for env on_hello where
  entry: "server_step env (node_server n) s' \<Longrightarrow> node_step env on_hello n (n\<lparr>node_server := s'\<rparr>)"
| work: "node_work env on_hello n n' \<Longrightarrow> node_step env on_hello n n'"

text \<open>The daemon runs on while nothing has failed.\<close>

definition node_alive :: "('k, 'c) node \<Rightarrow> bool" where
  "node_alive n \<longleftrightarrow> node_error n = None \<and> pool_error (node_pool n) = None"

definition node_runs :: "('k, 'c, 'cert) env \<Rightarrow>
    (ProtoMessage \<Rightarrow> sock_ptr \<Rightarrow> ('k, 'c) P2PServerContext \<Rightarrow> (bool \<times> ('k, 'c) P2PServerContext) result) \<Rightarrow>
    ('k, 'c) node \<Rightarrow> ('k, 'c) node \<Rightarrow> bool" where
  "node_runs env on_hello n n' \<longleftrightarrow> node_alive n \<and> node_step env on_hello n n'"

text \<open>What is known of the missing member: it unpacks the message and calls the hello handler.\<close>

definition hello_forwarding :: "('k, 'c, 'cert) env \<Rightarrow>
    (ProtoMessage \<Rightarrow> sock_ptr \<Rightarrow> ('k, 'c) P2PServerContext \<Rightarrow> (bool \<times> ('k, 'c) P2PServerContext) result) \<Rightarrow> bool" where
  "hello_forwarding env on_hello \<longleftrightarrow>
     (\<forall>msg addr s. \<exists>prev_port msg_ttl. on_hello msg addr s =
        hello_handle env (unpack_hello (pb env) (pm_payload msg)) prev_port addr msg_ttl s)"

section \<open>The server's log of tasks\<close>

text \<open>No entry point takes a submission back.\<close>

definition extends :: "('k, 'c) P2PServerContext \<Rightarrow> ('k, 'c) P2PServerContext \<Rightarrow> bool" where
  "extends s s' \<longleftrightarrow> prefix (srv_tasks s) (srv_tasks s')"

lemma extends_trans: "extends a b \<Longrightarrow> extends b c \<Longrightarrow> extends a c"
  by (auto simp: extends_def)

lemma extends_send: "send_pkg env data peer s = Inr (sent, s') \<Longrightarrow> extends s s'"
  by (auto simp: send_pkg_def Let_def submit_def extends_def split: if_splits option.splits)

lemma extends_greet: "greet env hello peers s = Inr s' \<Longrightarrow> extends s s'"
proof (induction peers arbitrary: s)
  case (Cons p peers)
  then obtain ip sent s1 where "send_pkg env (package_pkg env hello (fst p)) (Some ip) s = Inr (sent, s1)"
      "greet env hello peers s1 = Inr s'"
    by (cases p) (auto simp: bind_result_eq_Inr)
  with Cons.IH show ?case using extends_send extends_trans by blast
qed (simp add: extends_def)

lemma extends_start: "start env peers s = Inr (ok, s') \<Longrightarrow> extends s s'"
proof (cases "srv_thread s")
  case False
  assume "start env peers s = Inr (ok, s')"
  with False obtain hello ps where "greet env hello ps (s\<lparr>srv_thread := True\<rparr>) = Inr s'"
    by (auto simp: start_def Let_def bind_result_eq_Inr split: option.splits)
  from extends_greet [OF this] show ?thesis by (simp add: extends_def)
qed (simp add: start_def extends_def)

lemma extends_dispatch: "dispatch env sin m s = Inr s' \<Longrightarrow> extends s s'"
  by (drule dispatch_frame) (auto simp: extends_def)

lemma extends_read: "read_callback env buf sin s = Inr s' \<Longrightarrow> extends s s'"
proof -
  assume "read_callback env buf sin s = Inr s'"
  then have "s' = s \<or> (\<exists>m. dispatch env sin m s = Inr s')" using read_callback_dispatches [of env buf sin s] by auto
  then show ?thesis using extends_dispatch by (auto simp: extends_def)
qed

lemma extends_hello: "hello_handle env message prev_port addr msg_ttl s = Inr (ok, s') \<Longrightarrow> extends s s'"
proof -
  assume h: "hello_handle env message prev_port addr msg_ttl s = Inr (ok, s')"
  obtain admitted s1 where a: "admit_peer env message s = (admitted, s1)" by fastforce
  then have t: "srv_tasks s1 = srv_tasks s" by (auto simp: admit_peer_def split: option.splits)
  show ?thesis
  proof (cases "admitted \<and> can_delivered (sender_id message) (srv_table s1)")
    case True
    then obtain ip where ip: "sockaddr_IPAddress addr prev_port = Inr ip"
      using h a by (auto simp: hello_handle_def bind_result_eq_Inr)
    obtain r tab where "try_update_table (sender_id message) (Some ip) msg_ttl (srv_table s1) = (r, tab)"
      by fastforce
    with True ip h a obtain data peer sent where "send_pkg env data peer (s1\<lparr>srv_table := tab\<rparr>) = Inr (sent, s')"
      by (auto simp: hello_handle_def bind_result_eq_Inr Let_def)
    from extends_send [OF this] t show ?thesis by (simp add: extends_def)
  next
    case False
    then have "srv_tasks s' = srv_tasks s"
      using h a t by (cases admitted) (auto simp: hello_handle_def bind_result_eq_Inr case_prod_unfold)
    then show ?thesis by (simp add: extends_def)
  qed
qed

lemma extends_message:
  assumes "pm_packet_type (parse_proto (pb env) (signed_payload m)) \<noteq> HELLO"
    and "PacketHandler_handle env on_hello m addr s = Inr s'"
  shows "extends s s'"
  using assms by (auto simp: PacketHandler_handle_def Let_def bind_result_eq_Inr extends_def split: option.splits)

lemma extends_step: "server_step env s s' \<Longrightarrow> extends s s'"
  by (induction rule: server_step.induct)
    (auto dest: extends_read extends_send extends_start extends_hello extends_message)

text \<open>A handled message is an entry point of the server, or leaves it as it is.\<close>

lemma handled_step:
  assumes "hello_forwarding env on_hello" and "PacketHandler_handle env on_hello m addr s = Inr s'"
  shows "server_step env s s'"
proof (cases "pm_packet_type (parse_proto (pb env) (signed_payload m)) = HELLO")
  case True
  let ?msg = "parse_proto (pb env) (signed_payload m)"
  obtain ok where "on_hello ?msg addr s = Inr (ok, s')"
    using True assms(2) by (auto simp: PacketHandler_handle_def Let_def bind_result_eq_Inr)
  moreover obtain prev_port msg_ttl where
      "on_hello ?msg addr s = hello_handle env (unpack_hello (pb env) (pm_payload ?msg)) prev_port addr msg_ttl s"
    using assms(1) unfolding hello_forwarding_def by blast
  ultimately show ?thesis using on_hello by metis
next
  case False
  then show ?thesis using assms(2) by (rule on_message)
qed

section \<open>What is sent\<close>

text \<open>The frame that a task may put on the network.\<close>

fun packet_of :: "protobuf \<Rightarrow> packet_task \<Rightarrow> (IPAddress \<times> string) list" where
  "packet_of p (SendTask port m (Some ip)) = [(ip, frame p (forwarded port m))]"
| "packet_of p _ = []"

definition packets :: "protobuf \<Rightarrow> packet_task list \<Rightarrow> (IPAddress \<times> string) list" where
  "packets p ts = concat (map (packet_of p) ts)"

lemma mset_packets: "mset (packets p ts) = (\<Sum>t\<in>#mset ts. mset (packet_of p t))"
  by (induction ts) (simp_all add: packets_def)

lemma packets_mset: "mset ts \<subseteq># mset us \<Longrightarrow> mset (packets p ts) \<subseteq># mset (packets p us)"
  by (auto simp: mset_packets mset_subset_eq_exists_conv)

lemma subseq_mset: "subseq xs ys \<Longrightarrow> mset xs \<subseteq># mset ys"
proof (induction rule: list_emb.induct)
  case (list_emb_Cons xs ys y)
  then show ?case by (auto intro: subset_mset.order_trans)
qed auto

lemma held_idle: "held (replicate k AtLoop) = {#}"
  by (induction k) (simp_all add: held_def)

lemma written_packet:
  assumes "send_packet_tcp p net port m ip = Inr (ok, out)"
  shows "subseq (written ip out) (packet_of p (SendTask port m ip))"
proof (cases "out = None \<or> ip = None")
  case True
  then show ?thesis by (cases ip; cases out) auto
next
  case False
  then obtain a bytes where "ip = Some a" "out = Some bytes" by auto
  then show ?thesis using send_packet_tcp_frame [of p net port m ip ok bytes] assms by simp
qed

text \<open>The pool has a first part of the server's submissions, and accounts for what was executed.\<close>

definition queue_ok :: "('k, 'c) node \<Rightarrow> bool" where
  "queue_ok n \<longleftrightarrow> prefix (submitted (node_pool n)) (srv_tasks (node_server n)) \<and>
     pool.accounted (node_done n) (node_pool n)"

lemma queue_ok_server: "queue_ok n \<Longrightarrow> extends (node_server n) s' \<Longrightarrow> queue_ok (n\<lparr>node_server := s'\<rparr>)"
  by (auto simp: queue_ok_def extends_def intro: prefix_order.trans)

lemma queue_ok_submit:
  assumes "length (submitted (node_pool n)) < length (srv_tasks (node_server n))"
    and "pool_action (node_pool n) (Submits (srv_tasks (node_server n) ! length (submitted (node_pool n)))) p'"
    and "queue_ok n"
  shows "queue_ok (n\<lparr>node_pool := p'\<rparr>)"
proof -
  let ?p = "node_pool n" and ?ts = "srv_tasks (node_server n)"
  have "submitted p' = submitted ?p @ [?ts ! length (submitted ?p)]" using pool.submits [OF assms(2)] by simp
  moreover have "submitted ?p = take (length (submitted ?p)) ?ts" using assms(3) by (auto simp: queue_ok_def prefix_def)
  ultimately have "submitted p' = take (Suc (length (submitted ?p))) ?ts"
    using assms(1) by (metis take_Suc_conv_app_nth)
  then have "prefix (submitted p') ?ts" by (metis take_is_prefix)
  then show ?thesis using assms(3) pool.accounted_submits [OF assms(2)] by (simp add: queue_ok_def)
qed

lemma queue_ok_internal: "pool_action (node_pool n) Internal p' \<Longrightarrow> queue_ok n \<Longrightarrow> queue_ok (n\<lparr>node_pool := p'\<rparr>)"
  using pool.internal [of "node_pool n" p'] pool.accounted_internal [of "node_pool n" p'] by (simp add: queue_ok_def)

lemma queue_ok_finish:
  assumes "pool_action (node_pool n) (Finishes t) p'" and "queue_ok n"
    and "node_server n' = node_server n" and "node_pool n' = p'" and "node_done n' = node_done n @ [t]"
  shows "queue_ok n'"
  using assms pool.finishes [OF assms(1)] pool.accounted_finishes [OF assms(1)] by (simp add: queue_ok_def)

text \<open>Only what the server has submitted is executed.\<close>

lemma queue_ok_task:
  assumes "pool_action (node_pool n) (Finishes t) p'" and "queue_ok n"
  shows "t \<in> set (srv_tasks (node_server n))"
proof -
  have "mset (node_done n @ [t]) \<subseteq># mset (submitted p')"
    using pool.accounted_given [OF pool.accounted_finishes [OF assms(1)]] assms(2) by (simp add: queue_ok_def)
  then have "t \<in> set (submitted (node_pool n))"
    using pool.finishes [OF assms(1)] by (metis in_set_conv_decomp mset_subset_eqD set_mset_mset)
  with assms(2) show ?thesis by (auto simp: queue_ok_def prefix_def)
qed

lemma queue_ok_done: "queue_ok n \<Longrightarrow> set (node_done n) \<subseteq> set (srv_tasks (node_server n))"
proof -
  assume q: "queue_ok n"
  then have "mset (node_done n) \<subseteq># mset (submitted (node_pool n))"
    using pool.accounted_given by (auto simp: queue_ok_def)
  from set_mset_mono [OF this] q show ?thesis by (auto simp: queue_ok_def prefix_def)
qed

definition node_inv :: "('k, 'c, 'cert) env \<Rightarrow> ('k, 'c) P2PServerContext \<Rightarrow> ('k, 'c) node \<Rightarrow> bool" where
  "node_inv env s0 n \<longleftrightarrow>
     (server_step env)\<^sup>*\<^sup>* s0 (node_server n) \<and> queue_ok n \<and>
     subseq (node_sent n) (packets (pb env) (node_done n))"

lemma node_inv_entry: "server_step env (node_server n) s' \<Longrightarrow> node_inv env s0 n \<Longrightarrow> node_inv env s0 (n\<lparr>node_server := s'\<rparr>)"
  using extends_step [of env "node_server n" s'] queue_ok_server [of n s']
  by (auto simp: node_inv_def intro: rtranclp.rtrancl_into_rtrancl)

lemma node_inv_work:
  assumes "hello_forwarding env on_hello" and "node_work env on_hello n n'" and "node_inv env s0 n"
  shows "node_inv env s0 n'"
  using assms(2,3)
proof (induction rule: node_work.induct)
  case (submitting n p')
  then show ?case using queue_ok_submit [OF submitting(1,2)] by (simp add: node_inv_def)
next
  case (working n p')
  then show ?case using queue_ok_internal [OF working(1)] by (simp add: node_inv_def)
next
  case (sending n port m ip p' net ok out)
  let ?n = "n\<lparr>node_pool := p', node_sent := node_sent n @ written ip out, node_done := node_done n @ [SendTask port m ip]\<rparr>"
  have "queue_ok ?n" using queue_ok_finish [OF sending(1)] sending.prems by (simp add: node_inv_def)
  then show ?case using sending.prems written_packet [OF sending(2)]
    by (simp add: node_inv_def packets_def list_emb_append_mono)
next
  case (handling n m addr p' s')
  let ?n = "n\<lparr>node_pool := p', node_done := node_done n @ [HandleTask m addr]\<rparr>"
  have "queue_ok ?n" using queue_ok_finish [OF handling(1)] handling.prems by (simp add: node_inv_def)
  then have "node_inv env s0 ?n" using handling.prems by (simp add: node_inv_def packets_def)
  with node_inv_entry [of env ?n s' s0] handled_step [OF assms(1) handling(2)] show ?case by (cases n) simp
qed (simp_all add: node_inv_def queue_ok_def)

lemma node_inv_step:
  assumes "hello_forwarding env on_hello" and "node_step env on_hello n n'" and "node_inv env s0 n"
  shows "node_inv env s0 n'"
  using assms(2,3) by cases (auto intro: node_inv_entry node_inv_work [OF assms(1)])

lemma node_inv_new: "node_inv env s (node_new s (ThreadPool_new k))"
  by (simp add: node_inv_def queue_ok_def node_new_def packets_def pool.accounted_def unfinished_def pending_def held_idle
      ThreadPool_new_def)

lemma node_inv_run:
  assumes "hello_forwarding env on_hello" and "(node_runs env on_hello)\<^sup>*\<^sup>* (node_new s (ThreadPool_new k)) n"
  shows "node_inv env s n"
  using assms(2)
  by (induction rule: rtranclp_induct) (auto simp: node_runs_def node_inv_new dest: node_inv_step [OF assms(1)])


section \<open>A single worker\<close>

text \<open>The tasks finished so far and the one at the worker are the tasks taken.\<close>

definition in_order :: "'t list \<Rightarrow> 't ThreadPool \<Rightarrow> bool" where
  "in_order finished p \<longleftrightarrow> alone p \<and> taken p = finished @ concat (map held_pc (worker_pool p))"

fun finished_by :: "'t pool_label \<Rightarrow> 't list" where
  "finished_by (Finishes t) = [t]"
| "finished_by _ = []"

lemma in_order_action: "pool_action p l p' \<Longrightarrow> in_order finished p \<Longrightarrow> in_order (finished @ finished_by l) p'"
proof -
  assume l: "pool_action p l p'" and i: "in_order finished p"
  from i have "alone p'" using alone_action [OF l] by (simp add: in_order_def)
  moreover from l i have "taken p' = (finished @ finished_by l) @ concat (map held_pc (worker_pool p'))"
    by (cases rule: pool_action.cases) (auto simp: in_order_def alone_def)
  ultimately show ?thesis by (simp add: in_order_def)
qed

lemma in_order_given: "in_order finished p \<Longrightarrow> prefix finished (submitted p)"
  unfolding in_order_def alone_def by (metis append.assoc prefixI)

lemma in_order_work:
  assumes "node_work env on_hello n n'" and "in_order (node_done n) (node_pool n)"
  shows "in_order (node_done n') (node_pool n')"
  using assms by (induction rule: node_work.induct) (auto dest: in_order_action)

lemma in_order_run:
  assumes "(node_runs env on_hello)\<^sup>*\<^sup>* (node_new s (ThreadPool_new 1)) n"
  shows "in_order (node_done n) (node_pool n)"
  using assms
proof (induction rule: rtranclp_induct)
  case base
  then show ?case by (simp add: in_order_def node_new_def alone_def ThreadPool_new_def pending_def)
next
  case (step n n')
  from step(2) have "node_step env on_hello n n'" by (simp add: node_runs_def)
  then show ?case using step.IH by cases (auto intro: in_order_work)
qed

lemma packets_prefix: "prefix ts us \<Longrightarrow> prefix (packets p ts) (packets p us)"
  by (auto simp: packets_def prefix_def)

text \<open>C3. A daemon with one worker keeps the order: in every interleaving of received bytes, submissions,
  the worker and network failures, the tasks executed are the first of those the server submitted, in
  the order of submission and with none left out, the frames written to peers are in the order of
  their send tasks, and the pool never fails.\<close>

theorem node_keeps_order:
  assumes "hello_forwarding env on_hello"
    and "(node_runs env on_hello)\<^sup>*\<^sup>* (node_new s (ThreadPool_new 1)) n"
  shows "prefix (node_done n) (srv_tasks (node_server n)) \<and>
    subseq (node_sent n) (packets (pb env) (srv_tasks (node_server n))) \<and> pool_error (node_pool n) = None"
proof -
  have i: "node_inv env s n" using assms by (rule node_inv_run)
  have o: "in_order (node_done n) (node_pool n)" using assms(2) by (rule in_order_run)
  then have executed: "prefix (node_done n) (srv_tasks (node_server n))"
    using in_order_given [OF o] i by (auto simp: node_inv_def queue_ok_def intro: prefix_order.trans)
  have "subseq (node_sent n) (packets (pb env) (node_done n))" using i by (simp add: node_inv_def)
  also have "subseq \<dots> (packets (pb env) (srv_tasks (node_server n)))"
    using packets_prefix [OF executed] by (rule prefix_imp_subseq)
  finally have "subseq (node_sent n) (packets (pb env) (srv_tasks (node_server n)))" .
  with executed o show ?thesis by (simp add: in_order_def alone_def)
qed

section \<open>A run\<close>

text \<open>The steps of the pool alone.\<close>

definition pool_runs :: "('k, 'c, 'cert) env \<Rightarrow>
    (ProtoMessage \<Rightarrow> sock_ptr \<Rightarrow> ('k, 'c) P2PServerContext \<Rightarrow> (bool \<times> ('k, 'c) P2PServerContext) result) \<Rightarrow>
    ('k, 'c) node \<Rightarrow> ('k, 'c) node \<Rightarrow> bool" where
  "pool_runs env on_hello n n' \<longleftrightarrow> node_alive n \<and> node_work env on_hello n n'"

lemma pool_runs_node: "(pool_runs env on_hello)\<^sup>*\<^sup>* n n' \<Longrightarrow> (node_runs env on_hello)\<^sup>*\<^sup>* n n'"
  by (rule rtranclp_mono [THEN predicate2D]) (auto simp: pool_runs_def node_runs_def intro: work)

lemma node_works:
  assumes "works\<^sup>*\<^sup>* p p'" and "node_error n = None"
  shows "(pool_runs env on_hello)\<^sup>*\<^sup>* (n\<lparr>node_pool := p\<rparr>) (n\<lparr>node_pool := p'\<rparr>)"
  using assms(1)
proof (induction rule: rtranclp_induct)
  case (step p1 p2)
  then have "pool_runs env on_hello (n\<lparr>node_pool := p1\<rparr>) (n\<lparr>node_pool := p2\<rparr>)"
    using working [of "n\<lparr>node_pool := p1\<rparr>" p2] assms(2) by (simp add: pool_runs_def node_alive_def works_def)
  with step.IH show ?case by (rule rtranclp.rtrancl_into_rtrancl)
qed simp

lemma pool_sends_one:
  assumes "srv_tasks s = [SendTask port m (Some ip)]"
    and "send_packet_tcp (pb env) net port m (Some ip) = Inr (True, Some bytes)"
  shows "\<exists>n. (pool_runs env on_hello)\<^sup>*\<^sup>* (node_new s (ThreadPool_new 1)) n \<and> node_sent n = [(ip, bytes)] \<and>
    node_server n = s"
proof -
  let ?t = "SendTask port m (Some ip)" and ?p = "ThreadPool_new 1 :: packet_task ThreadPool"
  let ?n1 = "node_new s ?p"
  let ?done = "?n1\<lparr>node_pool := busy_pool [] AtLoop [?t] ?t, node_sent := [(ip, bytes)], node_done := [?t]\<rparr>"
  have "pool_action ?p (Submits ?t) (busy_pool [Some ?t] AtLoop [] ?t)"
    using submit_push [of ?p ?t] by (simp add: ThreadPool_new_def busy_pool_def)
  then have "pool_runs env on_hello ?n1 (?n1\<lparr>node_pool := busy_pool [Some ?t] AtLoop [] ?t\<rparr>)"
    using submitting [of ?n1] assms(1) by (simp add: pool_runs_def node_alive_def node_new_def ThreadPool_new_def)
  moreover have "(pool_runs env on_hello)\<^sup>*\<^sup>* (?n1\<lparr>node_pool := busy_pool [Some ?t] AtLoop [] ?t\<rparr>)
      (?n1\<lparr>node_pool := busy_pool [] (Running (Some ?t)) [?t] ?t\<rparr>)"
    by (rule node_works [OF worker_takes_task]) (simp add: node_new_def)
  moreover have "pool_action (busy_pool [] (Running (Some ?t)) [?t] ?t) (Finishes ?t) (busy_pool [] AtLoop [?t] ?t)"
    using task_done [where p = "busy_pool [] (Running (Some ?t)) [?t] ?t" and i = 0] by (simp add: busy_pool_def)
  then have "pool_runs env on_hello (?n1\<lparr>node_pool := busy_pool [] (Running (Some ?t)) [?t] ?t\<rparr>) ?done"
    using sending [of "?n1\<lparr>node_pool := busy_pool [] (Running (Some ?t)) [?t] ?t\<rparr>" port m "Some ip" _ env net True "Some bytes" on_hello]
      assms(2) by (simp add: pool_runs_def node_alive_def node_new_def busy_pool_def)
  ultimately have "(pool_runs env on_hello)\<^sup>*\<^sup>* ?n1 ?done"
    by (meson converse_rtranclp_into_rtranclp rtranclp.rtrancl_into_rtrancl)
  then show ?thesis by (intro exI [of _ ?done]) (simp add: node_new_def)
qed

definition plain_hello where
  "plain_hello msg addr s = hello_handle plain_env (unpack_hello (pb plain_env) (pm_payload msg)) 0 addr 0 s"

lemma plain_hello_forwarding: "hello_forwarding plain_env plain_hello"
  unfolding hello_forwarding_def plain_hello_def by blast

text \<open>A server whose only task is to send a hello message to \<open>1.2.3.4\<close>.\<close>

definition plain_peer :: IPAddress where
  "plain_peer = \<lparr>valid = True, port_number = 80, ip_address_str = ''1.2.3.4''\<rparr>"

lemma plain_send:
  "\<exists>s m net bytes. send_pkg plain_env \<lparr>pm_sender = ''me'', pm_receiver = ''you'', pm_packet_type = HELLO, pm_payload = []\<rparr>
      (Some plain_peer) plain_server = Inr (True, s) \<and> srv_tasks s = [SendTask 8080 m (Some plain_peer)] \<and>
    send_packet_tcp (pb plain_env) net 8080 m (Some plain_peer) = Inr (True, Some bytes)"
proof -
  let ?net = "\<lparr>socket_opens = True, inet_pton = (\<lambda>_. True), connects = (\<lambda>_ _. True)\<rparr>"
  let ?d = "\<lparr>pm_sender = ''me'', pm_receiver = ''you'', pm_packet_type = HELLO, pm_payload = []\<rparr>"
  obtain s m where s: "send_pkg plain_env ?d (Some plain_peer) plain_server = Inr (True, s)"
      "srv_tasks s = [SendTask 8080 m (Some plain_peer)]" "m = SignedProtoMessage_new\<lparr>ttl := 10,
        signature := ''own'' @ serialize_proto plain_pb ?d, sign_algorithm := SHA_256, signed_payload := serialize_proto plain_pb ?d\<rparr>"
    by (simp add: send_pkg_def plain_env_def Let_def submit_def plain_server_def)
  have "length (serialize_signed plain_pb (forwarded 8080 m)) < 2 ^ 32"
    unfolding s(3)
    by (simp add: plain_pb_def SignedProtoMessage_new_def put_str_def put_nat_def put_int_def forwarded_def HELLO_def)
  then have "unat (of_nat (length (serialize_signed plain_pb (forwarded 8080 m))) :: u32) =
      length (serialize_signed plain_pb (forwarded 8080 m))"
    by (simp add: unat_of_nat take_bit_nat_eq_self)
  then obtain bytes where "send_packet_tcp (pb plain_env) ?net 8080 m (Some plain_peer) = Inr (True, Some bytes)"
    by (simp add: send_packet_tcp_def Let_def forwarded_def)
  with s show ?thesis by blast
qed

lemma plain_node_sends:
  "\<exists>n. (node_runs plain_env plain_hello)\<^sup>*\<^sup>* (node_new plain_server (ThreadPool_new 1)) n \<and> length (node_sent n) = 1"
proof -
  obtain s m net bytes data where s: "send_pkg plain_env data (Some plain_peer) plain_server = Inr (True, s)"
      "srv_tasks s = [SendTask 8080 m (Some plain_peer)]"
      "send_packet_tcp (pb plain_env) net 8080 m (Some plain_peer) = Inr (True, Some bytes)"
    using plain_send by blast
  let ?p = "ThreadPool_new 1 :: packet_task ThreadPool"
  have "node_runs plain_env plain_hello (node_new plain_server ?p) (node_new s ?p)"
    using entry [OF on_send, of plain_env data "Some plain_peer" "node_new plain_server ?p" True s] s(1)
    by (simp add: node_runs_def node_alive_def node_new_def ThreadPool_new_def)
  moreover obtain n where "(pool_runs plain_env plain_hello)\<^sup>*\<^sup>* (node_new s ?p) n" "node_sent n = [(plain_peer, bytes)]"
    using pool_sends_one [OF s(2,3)] by blast
  ultimately show ?thesis using pool_runs_node by (metis converse_rtranclp_into_rtranclp length_Cons list.size(3) One_nat_def)
qed


theorem node_keeps_order_witness:
  "\<exists>n :: (string, (string \<times> string) option) node. length (node_sent n) = 1 \<and> subseq (node_sent n) (packets plain_pb (srv_tasks (node_server n)))"
  using plain_node_sends node_keeps_order [OF plain_hello_forwarding, of plain_server] by fastforce

end
