(* ===== verification/Packet_Network.thy ===== *)
theory Packet_Network
  imports Packet_Node
begin

text \<open>
  Daemons that send packets to each other. Every node is a daemon of \<open>Packet_Node\<close> with its own keys
  and handlers; a send task that succeeds opens a connection to the node its address belongs to. The
  bytes on a connection arrive in pieces, and with each piece the receiver's \<open>read_callback\<close> runs on
  everything that has arrived, with the address that \<open>libev_callback\<close> has registered for it. Packets
  come only from these nodes: from \<open>send_pkg\<close> and \<open>start\<close>.
\<close>

section \<open>The code\<close>

text \<open>The bytes in the receiver's input buffer and those on their way.\<close>

record 'a connection =
  conn_to :: 'a
  conn_input :: string
  conn_flight :: string

record ('a, 'k, 'c) packet_net =
  net_nodes :: "'a \<Rightarrow> ('k, 'c) node"
  net_conns :: "'a connection list"

definition opened :: "(IPAddress \<Rightarrow> 'a option) \<Rightarrow> (IPAddress \<times> string) list \<Rightarrow> 'a connection list" where
  "opened resolve frames =
     concat (map (\<lambda>(ip, bytes).
       case resolve ip of None \<Rightarrow> [] | Some b \<Rightarrow> [\<lparr>conn_to = b, conn_input = [], conn_flight = bytes\<rparr>]) frames)"

definition set_server :: "'a \<Rightarrow> ('k, 'c) P2PServerContext \<Rightarrow> ('a, 'k, 'c) packet_net \<Rightarrow> ('a, 'k, 'c) packet_net" where
  "set_server a s w = w\<lparr>net_nodes := (net_nodes w)(a := (net_nodes w a)\<lparr>node_server := s\<rparr>)\<rparr>"

abbreviation server_of :: "('a, 'k, 'c) packet_net \<Rightarrow> 'a \<Rightarrow> ('k, 'c) P2PServerContext" where
  "server_of w a \<equiv> node_server (net_nodes w a)"

inductive packet_net_step :: "('a \<Rightarrow> ('k, 'c, 'cert) env) \<Rightarrow>
    ('a \<Rightarrow> ProtoMessage \<Rightarrow> sock_ptr \<Rightarrow> ('k, 'c) P2PServerContext \<Rightarrow> (bool \<times> ('k, 'c) P2PServerContext) result) \<Rightarrow>
    (IPAddress \<Rightarrow> 'a option) \<Rightarrow> ('a, 'k, 'c) packet_net \<Rightarrow> ('a, 'k, 'c) packet_net \<Rightarrow> bool"
  for envs hellos resolve where
  sends: "node_alive (net_nodes w a) \<Longrightarrow> send_pkg (envs a) data peer (server_of w a) = Inr (ok, s') \<Longrightarrow>
     packet_net_step envs hellos resolve w (set_server a s' w)"
| starts: "node_alive (net_nodes w a) \<Longrightarrow> start (envs a) peer_list (server_of w a) = Inr (ok, s') \<Longrightarrow>
     packet_net_step envs hellos resolve w (set_server a s' w)"
| works: "node_alive (net_nodes w a) \<Longrightarrow> node_work (envs a) (hellos a) (net_nodes w a) n' \<Longrightarrow>
     packet_net_step envs hellos resolve w
       (w\<lparr>net_nodes := (net_nodes w)(a := n'),
          net_conns := net_conns w @ opened resolve (drop (length (node_sent (net_nodes w a))) (node_sent n'))\<rparr>)"
| arrives: "i < length (net_conns w) \<Longrightarrow> net_conns w ! i = c \<Longrightarrow> conn_flight c = bytes @ rest \<Longrightarrow> bytes \<noteq> [] \<Longrightarrow>
     node_alive (net_nodes w (conn_to c)) \<Longrightarrow> libev_callback (Some addr) = Some sin \<Longrightarrow>
     read_callback (envs (conn_to c)) (conn_input c @ bytes) sin (server_of w (conn_to c)) = Inr s' \<Longrightarrow>
     packet_net_step envs hellos resolve w (set_server (conn_to c) s'
       (w\<lparr>net_conns := (net_conns w)[i := c\<lparr>conn_input := conn_input c @ bytes, conn_flight := rest\<rparr>]\<rparr>))"
| breaks: "i < length (net_conns w) \<Longrightarrow>
     packet_net_step envs hellos resolve w (w\<lparr>net_conns := take i (net_conns w) @ drop (Suc i) (net_conns w)\<rparr>)"

text \<open>The network of daemons that have just started.\<close>

definition packet_net_new :: "('a \<Rightarrow> ('k, 'c) P2PServerContext) \<Rightarrow> ('a \<Rightarrow> u8) \<Rightarrow> ('a, 'k, 'c) packet_net" where
  "packet_net_new servers workers =
     \<lparr>net_nodes = (\<lambda>a. node_new (servers a) (ThreadPool_new (workers a))), net_conns = []\<rparr>"

section \<open>What a server adds to its tasks\<close>

text \<open>A packet of the node's own: signed with its key, with the full time to live and no receiver.\<close>

definition own_packet :: "('k, 'c, 'cert) env \<Rightarrow> SignedProtoMessage \<Rightarrow> bool" where
  "own_packet env m \<longleftrightarrow> ttl m = 10 \<and> receiver m = [] \<and> sign_final env (signed_payload m) = Some (signature m) \<and>
     (\<exists>data. signed_payload m = serialize_proto (pb env) data)"

text \<open>Nothing but send tasks for messages with property \<open>P\<close> is added; routes and sessions stay.\<close>

definition adds_sends :: "(SignedProtoMessage \<Rightarrow> bool) \<Rightarrow> ('k, 'c) P2PServerContext \<Rightarrow> ('k, 'c) P2PServerContext \<Rightarrow> bool" where
  "adds_sends P s s' \<longleftrightarrow>
     srv_table s' = srv_table s \<and> srv_peers s' = srv_peers s \<and> srv_device_id s' = srv_device_id s \<and>
     (\<exists>ts. srv_tasks s' = srv_tasks s @ ts \<and> (\<forall>t \<in> set ts. \<exists>port m peer. t = SendTask port m peer \<and> P m))"

lemma adds_sends_refl: "adds_sends P s s"
  by (simp add: adds_sends_def)

lemma adds_sends_trans: "adds_sends P a b \<Longrightarrow> adds_sends P b c \<Longrightarrow> adds_sends P a c"
  unfolding adds_sends_def by (auto simp: ball_Un)

lemma send_adds: "send_pkg env data peer s = Inr (ok, s') \<Longrightarrow> adds_sends (own_packet env) s s'"
  by (auto simp: send_pkg_def Let_def submit_def adds_sends_def own_packet_def SignedProtoMessage_new_def
      split: if_splits option.splits)

lemma greet_adds: "greet env hello peers s = Inr s' \<Longrightarrow> adds_sends (own_packet env) s s'"
proof (induction peers arbitrary: s)
  case (Cons p peers)
  then obtain ip sent s1 where "send_pkg env (package_pkg env hello (fst p)) (Some ip) s = Inr (sent, s1)"
      "greet env hello peers s1 = Inr s'"
    by (cases p) (auto simp: bind_result_eq_Inr)
  with Cons.IH show ?case using send_adds adds_sends_trans by blast
qed (simp add: adds_sends_def)

lemma start_adds: "start env peers s = Inr (ok, s') \<Longrightarrow> adds_sends (own_packet env) s s'"
proof (cases "srv_thread s")
  case False
  assume "start env peers s = Inr (ok, s')"
  with False obtain hello ps where "greet env hello ps (s\<lparr>srv_thread := True\<rparr>) = Inr s'"
    by (auto simp: start_def Let_def bind_result_eq_Inr split: option.splits)
  from greet_adds [OF this] show ?thesis by (simp add: adds_sends_def)
qed (simp add: start_def adds_sends_def)

text \<open>A server that knows no route, as each is constructed.\<close>

definition lonely :: "('k, 'c, 'cert) env \<Rightarrow> ('k, 'c) P2PServerContext \<Rightarrow> bool" where
  "lonely env s \<longleftrightarrow> srv_table s = empty_table \<and> iteration env (routing_map empty_table) = []"

lemma dispatch_adds:
  assumes "dispatch env sin m s = Inr s'" and "srv_device_id s \<noteq> receiver m"
  shows "adds_sends (\<lambda>m'. m' = m \<and> ttl m \<noteq> 0 \<and> \<not> lonely env s) s s'"
proof -
  note f = dispatch_frame [OF assms(1)]
  then obtain ts where ts: "srv_tasks s' = srv_tasks s @ ts" "ts = [] \<or> ttl m \<noteq> 0 \<and> ts = dispatch_tasks env sin m s"
    by blast
  have "dispatch_tasks env sin m s = []" if "lonely env s"
    using that assms(2) by (simp add: dispatch_tasks_def lonely_def empty_table_def)
  then have "\<not> lonely env s \<and> (\<exists>port peer. t = SendTask port m peer)" if "t \<in> set (dispatch_tasks env sin m s)" for t
    using that assms(2) by (fastforce simp: dispatch_tasks_def split: if_splits option.splits)
  with ts have "\<forall>t \<in> set ts. \<exists>port m' peer. t = SendTask port m' peer \<and> m' = m \<and> ttl m \<noteq> 0 \<and> \<not> lonely env s" by auto
  with f ts(1) show ?thesis by (auto simp: adds_sends_def)
qed

lemma adds_extends: "adds_sends P s s' \<Longrightarrow> extends s s'"
  by (auto simp: adds_sends_def extends_def)

section \<open>Where packets come from\<close>

text \<open>A node has submitted the message, or the one it is a copy of, as a packet of its own.\<close>

definition sent_by :: "('a \<Rightarrow> ('k, 'c, 'cert) env) \<Rightarrow> ('a, 'k, 'c) packet_net \<Rightarrow> SignedProtoMessage \<Rightarrow> 'a \<Rightarrow> bool" where
  "sent_by envs w m a \<longleftrightarrow>
     (\<exists>port m0 peer. SendTask port m0 peer \<in> set (srv_tasks (server_of w a)) \<and> own_packet (envs a) m0 \<and>
        signed_payload m0 = signed_payload m \<and> signature m0 = signature m)"

definition genuine_packet :: "('a \<Rightarrow> ('k, 'c, 'cert) env) \<Rightarrow> ('a, 'k, 'c) packet_net \<Rightarrow> SignedProtoMessage \<Rightarrow> bool" where
  "genuine_packet envs w m \<longleftrightarrow> receiver m = [] \<and> unat (ttl m) \<le> 10 \<and> (\<exists>a. sent_by envs w m a)"

definition node_ok :: "('a \<Rightarrow> ('k, 'c, 'cert) env) \<Rightarrow> ('a \<Rightarrow> ('k, 'c) P2PServerContext) \<Rightarrow>
    ('a, 'k, 'c) packet_net \<Rightarrow> 'a \<Rightarrow> bool" where
  "node_ok envs servers w a \<longleftrightarrow> queue_ok (net_nodes w a) \<and>
     srv_table (server_of w a) = srv_table (servers a) \<and> srv_peers (server_of w a) = srv_peers (servers a) \<and>
     srv_device_id (server_of w a) = srv_device_id (servers a) \<and>
     (\<forall>t \<in> set (srv_tasks (server_of w a)). \<exists>port m peer. t = SendTask port m peer \<and> ttl m \<noteq> 0 \<and>
        genuine_packet envs w m \<and> (lonely (envs a) (servers a) \<longrightarrow> own_packet (envs a) m))"

definition conn_ok :: "('a \<Rightarrow> ('k, 'c, 'cert) env) \<Rightarrow> protobuf \<Rightarrow> ('a, 'k, 'c) packet_net \<Rightarrow> 'a connection \<Rightarrow> bool" where
  "conn_ok envs p w c \<longleftrightarrow>
     (\<exists>m. conn_input c @ conn_flight c = frame p m \<and> length (serialize_signed p m) < 2 ^ 32 \<and>
        unat (ttl m) \<le> 9 \<and> genuine_packet envs w m)"

definition packet_net_inv :: "('a \<Rightarrow> ('k, 'c, 'cert) env) \<Rightarrow> protobuf \<Rightarrow> ('a \<Rightarrow> ('k, 'c) P2PServerContext) \<Rightarrow>
    ('a, 'k, 'c) packet_net \<Rightarrow> bool" where
  "packet_net_inv envs p servers w \<longleftrightarrow>
     (\<forall>a. node_ok envs servers w a) \<and> (\<forall>c \<in> set (net_conns w). conn_ok envs p w c)"

text \<open>The invariant is about the servers' tasks only as far as they grow.\<close>

definition grows :: "('a, 'k, 'c) packet_net \<Rightarrow> ('a, 'k, 'c) packet_net \<Rightarrow> bool" where
  "grows w w' \<longleftrightarrow> (\<forall>a. set (srv_tasks (server_of w a)) \<subseteq> set (srv_tasks (server_of w' a)))"

lemma genuine_grows: "grows w w' \<Longrightarrow> genuine_packet envs w m \<Longrightarrow> genuine_packet envs w' m"
  unfolding genuine_packet_def sent_by_def grows_def by blast

lemma conn_ok_grows: "grows w w' \<Longrightarrow> conn_ok envs p w c \<Longrightarrow> conn_ok envs p w' c"
  unfolding conn_ok_def using genuine_grows by blast

lemma server_of_set [simp]: "server_of (set_server a s w) b = (if b = a then s else server_of w b)"
  by (simp add: set_server_def)

lemma conns_set [simp]: "net_conns (set_server a s w) = net_conns w"
  by (simp add: set_server_def)

lemma grows_set: "adds_sends P (server_of w a) s' \<Longrightarrow> grows w (set_server a s' w)"
  by (auto simp: grows_def adds_sends_def)

lemma inv_set_server:
  assumes "packet_net_inv envs p servers w" and "adds_sends P (server_of w a) s'"
    and new: "\<And>port m peer. P m \<Longrightarrow> SendTask port m peer \<in> set (srv_tasks s') \<Longrightarrow>
      ttl m \<noteq> 0 \<and> genuine_packet envs (set_server a s' w) m \<and> (lonely (envs a) (servers a) \<longrightarrow> own_packet (envs a) m)"
  shows "packet_net_inv envs p servers (set_server a s' w)"
proof -
  let ?w = "set_server a s' w"
  have g: "grows w ?w" using assms(2) by (rule grows_set)
  have old: "node_ok envs servers w b" for b using assms(1) by (simp add: packet_net_inv_def)
  have "node_ok envs servers ?w b" for b
  proof (cases "b = a")
    case True
    obtain ts where ts: "srv_tasks s' = srv_tasks (server_of w a) @ ts"
        "\<forall>t \<in> set ts. \<exists>port m peer. t = SendTask port m peer \<and> P m"
      using assms(2) by (auto simp: adds_sends_def)
    have "\<exists>port m peer. t = SendTask port m peer \<and> ttl m \<noteq> 0 \<and> genuine_packet envs ?w m \<and>
        (lonely (envs a) (servers a) \<longrightarrow> own_packet (envs a) m)"
      if t: "t \<in> set (srv_tasks s')" for t
    proof (cases "t \<in> set ts")
      case True
      then obtain port m peer where "t = SendTask port m peer" "P m" using ts(2) by blast
      with new t show ?thesis by blast
    next
      case False
      then have "t \<in> set (srv_tasks (server_of w a))" using t ts(1) by simp
      then show ?thesis using old [of a] genuine_grows [OF g] unfolding node_ok_def by blast
    qed
    moreover have "queue_ok ((net_nodes w a)\<lparr>node_server := s'\<rparr>)"
      using queue_ok_server [OF _ adds_extends [OF assms(2)]] old [of a] by (simp add: node_ok_def)
    ultimately show ?thesis using True assms(2) old [of a]
      by (simp add: node_ok_def adds_sends_def set_server_def)
  next
    case False
    then have "net_nodes ?w b = net_nodes w b" by (simp add: set_server_def)
    with old [of b] genuine_grows [OF g] show ?thesis unfolding node_ok_def by metis
  qed
  with assms(1) conn_ok_grows [OF g, of envs p] show ?thesis by (auto simp: packet_net_inv_def)
qed

lemma own_genuine:
  assumes "own_packet (envs a) m" and "SendTask port m peer \<in> set (srv_tasks (server_of w a))"
  shows "ttl m \<noteq> 0 \<and> genuine_packet envs w m"
  using assms unfolding genuine_packet_def sent_by_def own_packet_def by auto

lemma inv_own:
  assumes "packet_net_inv envs p servers w" and "adds_sends (own_packet (envs a)) (server_of w a) s'"
  shows "packet_net_inv envs p servers (set_server a s' w)"
  using assms
proof (rule inv_set_server)
  fix port m peer
  assume "own_packet (envs a) m" and "SendTask port m peer \<in> set (srv_tasks s')"
  then show "ttl m \<noteq> 0 \<and> genuine_packet envs (set_server a s' w) m \<and> (lonely (envs a) (servers a) \<longrightarrow> own_packet (envs a) m)"
    using own_genuine [of envs a m port peer "set_server a s' w"] by simp
qed

text \<open>What a step of the pool does to a node that has no messages to handle.\<close>

lemma quiet_work:
  assumes "node_work env on_hello n n'" and "queue_ok n"
    and "\<forall>t \<in> set (srv_tasks (node_server n)). \<exists>port m peer. t = SendTask port m peer"
  shows "node_server n' = node_server n \<and> queue_ok n' \<and>
    (node_sent n' = node_sent n \<or>
     (\<exists>port m ip. SendTask port m (Some ip) \<in> set (srv_tasks (node_server n)) \<and>
        node_sent n' = node_sent n @ [(ip, frame (pb env) (forwarded port m))] \<and>
        length (serialize_signed (pb env) (forwarded port m)) < 2 ^ 32))"
  using assms
proof (induction rule: node_work.induct)
  case (submitting n p')
  then show ?case using queue_ok_submit [OF submitting(1,2)] by simp
next
  case (working n p')
  then show ?case using queue_ok_internal [OF working(1)] by simp
next
  case (sending n port m ip p' net ok out)
  let ?n = "n\<lparr>node_pool := p', node_sent := node_sent n @ written ip out, node_done := node_done n @ [SendTask port m ip]\<rparr>"
  have q: "queue_ok ?n" using queue_ok_finish [OF sending(1)] sending.prems by simp
  have t: "SendTask port m ip \<in> set (srv_tasks (node_server n))" using queue_ok_task [OF sending(1)] sending.prems by simp
  show ?case
  proof (cases "ip = None \<or> out = None")
    case True
    then have "written ip out = []" by (cases ip; cases out) auto
    with q show ?thesis by simp
  next
    case False
    then obtain a bytes where "ip = Some a" "out = Some bytes" by auto
    then show ?thesis using q t send_packet_tcp_frame [of "pb env" net port m ip ok bytes] sending(2) by auto
  qed
next
  case (handling n m addr p' s')
  then show ?case using queue_ok_task [OF handling(1)] by fastforce
next
  case (handle_failing n m addr p' e)
  then show ?case using queue_ok_task [OF handle_failing(1)] by fastforce
qed (simp add: queue_ok_def)

lemma forwarded_genuine:
  assumes "genuine_packet envs w m" and "ttl m \<noteq> 0"
  shows "genuine_packet envs w (forwarded port m) \<and> unat (ttl (forwarded port m)) \<le> 9"
proof -
  have "unat (ttl m - 1) = unat (ttl m) - 1" using assms(2) by (simp add: unat_minus_one)
  then show ?thesis using assms(1) by (auto simp: genuine_packet_def sent_by_def forwarded_def)
qed

lemma inv_works:
  assumes "packet_net_inv envs p servers w" and "pb (envs a) = p"
    and "node_work (envs a) on_hello (net_nodes w a) n'"
  shows "packet_net_inv envs p servers
    (w\<lparr>net_nodes := (net_nodes w)(a := n'),
       net_conns := net_conns w @ opened resolve (drop (length (node_sent (net_nodes w a))) (node_sent n'))\<rparr>)"
    (is "packet_net_inv envs p servers ?w")
proof -
  let ?n = "net_nodes w a"
  have ok: "node_ok envs servers w b" for b using assms(1) by (simp add: packet_net_inv_def)
  then have "queue_ok ?n" "\<forall>t \<in> set (srv_tasks (node_server ?n)). \<exists>port m peer. t = SendTask port m peer"
    unfolding node_ok_def by blast+
  note q = quiet_work [OF assms(3) this]
  have same: "server_of ?w b = server_of w b" for b using q by simp
  then have g: "grows w ?w" by (simp add: grows_def)
  have nodes: "node_ok envs servers ?w b" for b
    using ok [of b] q genuine_grows [OF g, of envs] same unfolding node_ok_def by (cases "b = a") auto
  have conns: "conn_ok envs p ?w c"
    if "c \<in> set (opened resolve (drop (length (node_sent ?n)) (node_sent n')))" for c
  proof -
    from that q obtain port m ip b where m: "SendTask port m (Some ip) \<in> set (srv_tasks (node_server ?n))"
        "c = \<lparr>conn_to = b, conn_input = [], conn_flight = frame p (forwarded port m)\<rparr>"
        "length (serialize_signed p (forwarded port m)) < 2 ^ 32"
      using assms(2) by (auto simp: opened_def split: option.splits)
    from m(1) ok [of a] have "ttl m \<noteq> 0" "genuine_packet envs w m" by (auto simp: node_ok_def)
    from forwarded_genuine [OF this(2,1), of port] m(2,3) show ?thesis
      using genuine_grows [OF g] by (auto simp: conn_ok_def)
  qed
  have "conn_ok envs p ?w c" if "c \<in> set (net_conns w)" for c
    using that assms(1) conn_ok_grows [OF g, of envs p] by (auto simp: packet_net_inv_def)
  with nodes conns show ?thesis unfolding packet_net_inv_def by auto
qed


text \<open>Only the nodes matter for where a packet comes from.\<close>

lemma genuine_conns [simp]: "genuine_packet envs (w\<lparr>net_conns := cs\<rparr>) m = genuine_packet envs w m"
  by (simp add: genuine_packet_def sent_by_def)

lemma conn_ok_conns [simp]: "conn_ok envs p (w\<lparr>net_conns := cs\<rparr>) c = conn_ok envs p w c"
  by (simp add: conn_ok_def)

lemma inv_conns:
  "packet_net_inv envs p servers w \<Longrightarrow> (\<And>c. c \<in> set cs \<Longrightarrow> conn_ok envs p w c) \<Longrightarrow>
     packet_net_inv envs p servers (w\<lparr>net_conns := cs\<rparr>)"
  by (simp add: packet_net_inv_def node_ok_def)

text \<open>Bytes that arrive: nothing happens, or the framed message is dispatched.\<close>

lemma arrived_message:
  assumes "codec_documented (pb env)" and "input @ bytes @ rest = frame (pb env) m"
    and "length (serialize_signed (pb env) m) < 2 ^ 32" and "read_callback env (input @ bytes) sin s = Inr s'"
  shows "s' = s \<or> dispatch env sin m s = Inr s'"
proof -
  let ?k = "length (input @ bytes)"
  have "input @ bytes = take ?k (frame (pb env) m @ [])" unfolding assms(2) [symmetric] by simp
  then have "read_callback env (take ?k (frame (pb env) m @ [])) sin s = Inr s'" using assms(4) by argo
  then show ?thesis unfolding read_callback_on_frames [OF assms(1,3)] by (simp split: if_splits)
qed

lemma inv_arrives:
  assumes inv: "packet_net_inv envs p servers w" and "codec_documented p" and "pb (envs b) = p" and "srv_device_id (servers b) \<noteq> []"
    and c: "i < length (net_conns w)" "net_conns w ! i = c" "conn_flight c = bytes @ rest" "conn_to c = b"
    and cb: "read_callback (envs b) (conn_input c @ bytes) sin (server_of w b) = Inr s'"
  shows "packet_net_inv envs p servers (set_server b s'
    (w\<lparr>net_conns := (net_conns w)[i := c\<lparr>conn_input := conn_input c @ bytes, conn_flight := rest\<rparr>]\<rparr>))"
    (is "packet_net_inv envs p servers (set_server b s' ?w)")
proof -
  let ?c = "c\<lparr>conn_input := conn_input c @ bytes, conn_flight := rest\<rparr>"
  have "c \<in> set (net_conns w)" using c(1,2) by auto
  then have ok: "conn_ok envs p w c" using inv by (simp add: packet_net_inv_def)
  then obtain m where m: "conn_input c @ bytes @ rest = frame p m" "length (serialize_signed p m) < 2 ^ 32"
      "genuine_packet envs w m"
    using c(3) by (auto simp: conn_ok_def)
  have new: "s' = server_of w b \<or> dispatch (envs b) sin m (server_of w b) = Inr s'"
    using arrived_message [of "envs b", OF _ _ _ cb] assms(2,3) m(1,2) by blast
  have b: "node_ok envs servers w b" using inv by (simp add: packet_net_inv_def)
  then have "srv_device_id (server_of w b) \<noteq> receiver m"
    using assms(4) m(3) by (simp add: node_ok_def genuine_packet_def)
  with new have adds: "adds_sends (\<lambda>m'. m' = m \<and> ttl m \<noteq> 0 \<and> \<not> lonely (envs b) (server_of ?w b)) (server_of ?w b) s'"
    using dispatch_adds adds_sends_refl by auto
  have "packet_net_inv envs p servers ?w"
  proof (rule inv_conns [OF inv])
    fix d
    assume "d \<in> set ((net_conns w)[i := ?c])"
    then have "d = ?c \<or> d \<in> set (net_conns w)" using set_update_subset_insert by fastforce
    moreover have "conn_ok envs p w ?c" using ok c(3) by (simp add: conn_ok_def)
    ultimately show "conn_ok envs p w d" using inv by (auto simp: packet_net_inv_def)
  qed
  from this adds show ?thesis
  proof (rule inv_set_server)
    fix port m' peer
    assume "m' = m \<and> ttl m \<noteq> 0 \<and> \<not> lonely (envs b) (server_of ?w b)"
    moreover have "lonely (envs b) (server_of ?w b) = lonely (envs b) (servers b)"
      using b by (simp add: lonely_def node_ok_def)
    ultimately show "ttl m' \<noteq> 0 \<and> genuine_packet envs (set_server b s' ?w) m' \<and>
        (lonely (envs b) (servers b) \<longrightarrow> own_packet (envs b) m')"
      using genuine_grows [OF grows_set [OF adds], of envs m] m(3) by simp
  qed
qed

text \<open>What is assumed of the nodes: they use the same encoding, have names, and start without tasks.\<close>

definition nodes_documented :: "('a \<Rightarrow> ('k, 'c, 'cert) env) \<Rightarrow> protobuf \<Rightarrow> ('a \<Rightarrow> ('k, 'c) P2PServerContext) \<Rightarrow> bool" where
  "nodes_documented envs p servers \<longleftrightarrow> codec_documented p \<and>
     (\<forall>a. pb (envs a) = p \<and> srv_device_id (servers a) \<noteq> [] \<and> srv_tasks (servers a) = [])"

lemma inv_step:
  assumes "packet_net_step envs hellos resolve w w'" and "nodes_documented envs p servers"
    and "packet_net_inv envs p servers w"
  shows "packet_net_inv envs p servers w'"
  using assms(1)
proof cases
  case (sends a data peer ok s')
  then show ?thesis using inv_own [OF assms(3) send_adds] by blast
next
  case (starts a peer_list ok s')
  then show ?thesis using inv_own [OF assms(3) start_adds] by blast
next
  case (works a n')
  then show ?thesis using inv_works [OF assms(3) _ works(3)] assms(2) by (simp add: nodes_documented_def)
next
  case (arrives i c bytes rest addr sin s')
  then show ?thesis using inv_arrives [OF assms(3) _ _ _ arrives(2,3,4) refl arrives(8)] assms(2)
    by (simp add: nodes_documented_def)
next
  case (breaks i)
  have "packet_net_inv envs p servers (w\<lparr>net_conns := take i (net_conns w) @ drop (Suc i) (net_conns w)\<rparr>)"
    using assms(3) by (intro inv_conns) (auto simp: packet_net_inv_def dest: in_set_takeD in_set_dropD)
  with breaks show ?thesis by simp
qed

lemma inv_run:
  assumes "(packet_net_step envs hellos resolve)\<^sup>*\<^sup>* (packet_net_new servers workers) w"
    and "nodes_documented envs p servers"
  shows "packet_net_inv envs p servers w"
  using assms(1)
proof (induction rule: rtranclp_induct)
  case base
  then show ?case using assms(2)
    by (simp add: packet_net_inv_def packet_net_new_def node_ok_def queue_ok_def node_new_def ThreadPool_new_def
        nodes_documented_def pool.accounted_def unfinished_def pending_def held_idle)
qed (rule inv_step [OF _ assms(2)])

text \<open>C4. Packets come from where they are signed: in a network of daemons, whatever the routing tables,
  the numbers of workers, the order of events and the losses, every connection carries exactly one
  frame, of a message that some node has submitted with \<open>send_pkg\<close> and signed with its key, with
  payload and signature unchanged; and its time to live is at most 9.\<close>

theorem network_carries_signed_packets:
  assumes "(packet_net_step envs hellos resolve)\<^sup>*\<^sup>* (packet_net_new servers workers) w"
    and "nodes_documented envs p servers" and "c \<in> set (net_conns w)"
  shows "\<exists>m a. conn_input c @ conn_flight c = frame p m \<and> unat (ttl m) \<le> 9 \<and> sent_by envs w m a"
proof -
  have "packet_net_inv envs p servers w" using assms(1,2) by (rule inv_run)
  with assms(3) have "conn_ok envs p w c" by (simp add: packet_net_inv_def)
  then show ?thesis by (auto simp: conn_ok_def genuine_packet_def)
qed

text \<open>C5. A network of these daemons learns nothing. No node ever executes a task that handles a message,
  so that no route and no session is ever added, however many hello messages are sent. When the nodes
  start without routes, as the constructor leaves them, no packet is forwarded either: every task of a
  node sends a packet of its own.\<close>

theorem network_learns_nothing:
  assumes "(packet_net_step envs hellos resolve)\<^sup>*\<^sup>* (packet_net_new servers workers) w"
    and "nodes_documented envs p servers"
  shows "srv_table (server_of w a) = srv_table (servers a) \<and> srv_peers (server_of w a) = srv_peers (servers a) \<and>
    HandleTask m addr \<notin> set (node_done (net_nodes w a)) \<and>
    (lonely (envs a) (servers a) \<longrightarrow>
      (\<forall>t \<in> set (srv_tasks (server_of w a)). \<exists>port m peer. t = SendTask port m peer \<and> own_packet (envs a) m))"
proof -
  have "node_ok envs servers w a" using inv_run [OF assms] by (simp add: packet_net_inv_def)
  then have ok: "queue_ok (net_nodes w a)" "srv_table (server_of w a) = srv_table (servers a)"
      "srv_peers (server_of w a) = srv_peers (servers a)"
      "\<forall>t \<in> set (srv_tasks (server_of w a)). \<exists>port m peer. t = SendTask port m peer \<and>
        (lonely (envs a) (servers a) \<longrightarrow> own_packet (envs a) m)"
    unfolding node_ok_def by blast+
  from queue_ok_done [OF ok(1)] ok(2-) show ?thesis by blast
qed

section \<open>A run\<close>

lemma work_sent: "node_work env on_hello n n' \<Longrightarrow> prefix (node_sent n) (node_sent n')"
  by (induction rule: node_work.induct) auto

lemma opened_append: "opened resolve (xs @ ys) = opened resolve xs @ opened resolve ys"
  by (simp add: opened_def)

lemma net_works:
  assumes "(pool_runs (envs a) (hellos a))\<^sup>*\<^sup>* (net_nodes w a) n'"
  shows "(packet_net_step envs hellos resolve)\<^sup>*\<^sup>* w
     (w\<lparr>net_nodes := (net_nodes w)(a := n'),
        net_conns := net_conns w @ opened resolve (drop (length (node_sent (net_nodes w a))) (node_sent n'))\<rparr>) \<and>
    prefix (node_sent (net_nodes w a)) (node_sent n')"
  using assms
proof (induction rule: rtranclp_induct)
  case base
  then show ?case by (simp add: opened_def)
next
  case (step n1 n2)
  let ?net = "\<lambda>n. w\<lparr>net_nodes := (net_nodes w)(a := n),
    net_conns := net_conns w @ opened resolve (drop (length (node_sent (net_nodes w a))) (node_sent n))\<rparr>"
  have n: "node_alive n1" "node_work (envs a) (hellos a) n1 n2" using step(2) by (simp_all add: pool_runs_def)
  obtain xs where xs: "node_sent n1 = node_sent (net_nodes w a) @ xs" using conjunct2 [OF step.IH] by (auto simp: prefix_def)
  obtain ys where ys: "node_sent n2 = node_sent n1 @ ys" using work_sent [OF n(2)] by (auto simp: prefix_def)
  have "packet_net_step envs hellos resolve (?net n1) (?net n2)"
    using packet_net_step.works [of "?net n1" a envs hellos n2 resolve] n xs ys by (simp add: opened_append)
  from conjunct1 [OF step.IH] this have "(packet_net_step envs hellos resolve)\<^sup>*\<^sup>* w (?net n2)"
    by (rule rtranclp.rtrancl_into_rtrancl)
  moreover have "prefix (node_sent (net_nodes w a)) (node_sent n2)" using xs ys by simp
  ultimately show ?case by blast
qed

text \<open>Two nodes, one of which sends a hello message to the other.\<close>

lemma plain_network:
  "\<exists>w c. (packet_net_step (\<lambda>_. plain_env) (\<lambda>_. plain_hello) (\<lambda>_. Some False))\<^sup>*\<^sup>*
      (packet_net_new (\<lambda>_ :: bool. plain_server) (\<lambda>_. 1)) w \<and> net_conns w = [c] \<and> srv_tasks (server_of w True) \<noteq> []"
proof -
  let ?step = "packet_net_step (\<lambda>_ :: bool. plain_env) (\<lambda>_. plain_hello) (\<lambda>_. Some False)"
  let ?w = "packet_net_new (\<lambda>_ :: bool. plain_server) (\<lambda>_. 1)"
  obtain s m net bytes data where s: "send_pkg plain_env data (Some plain_peer) plain_server = Inr (True, s)"
      "srv_tasks s = [SendTask 8080 m (Some plain_peer)]"
      "send_packet_tcp (pb plain_env) net 8080 m (Some plain_peer) = Inr (True, Some bytes)"
    using plain_send by blast
  let ?w1 = "set_server True s ?w"
  have first: "?step ?w ?w1"
    using packet_net_step.sends [of ?w True "\<lambda>_. plain_env" data "Some plain_peer" True s] s(1)
    by (simp add: packet_net_new_def node_alive_def node_new_def ThreadPool_new_def)
  have n1: "net_nodes ?w1 True = node_new s (ThreadPool_new 1)"
    by (simp add: set_server_def packet_net_new_def node_new_def)
  obtain n where n: "(pool_runs plain_env plain_hello)\<^sup>*\<^sup>* (net_nodes ?w1 True) n" "node_sent n = [(plain_peer, bytes)]"
      "node_server n = s"
    using pool_sends_one [OF s(2,3)] n1 by metis
  let ?w2 = "?w1\<lparr>net_nodes := (net_nodes ?w1)(True := n),
    net_conns := net_conns ?w1 @ opened (\<lambda>_. Some False) (drop (length (node_sent (net_nodes ?w1 True))) (node_sent n))\<rparr>"
  have "?step\<^sup>*\<^sup>* ?w1 ?w2" using net_works [of "\<lambda>_. plain_env" True "\<lambda>_. plain_hello" ?w1 n] n(1) by simp
  with first have "?step\<^sup>*\<^sup>* ?w ?w2" by (rule converse_rtranclp_into_rtranclp)
  moreover have "net_conns ?w2 = [\<lparr>conn_to = False, conn_input = [], conn_flight = bytes\<rparr>]"
    using n(2) n1 by (simp add: packet_net_new_def [of _ "\<lambda>_. 1"] set_server_def opened_def node_new_def)
  moreover have "srv_tasks (server_of ?w2 True) \<noteq> []" using n(3) s(2) by simp
  ultimately show ?thesis by blast
qed

lemma plain_nodes: "nodes_documented (\<lambda>_ :: bool. plain_env) plain_pb (\<lambda>_. plain_server)"
  by (simp add: nodes_documented_def plain_pb_documented plain_server_def)

theorem network_carries_signed_packets_witness:
  "\<exists>(w :: (bool, string, (string \<times> string) option) packet_net) c m a.
     net_conns w = [c] \<and> conn_input c @ conn_flight c = frame plain_pb m \<and> unat (ttl m) \<le> 9 \<and>
     sent_by (\<lambda>_. plain_env) w m a"
proof -
  obtain w c where w: "(packet_net_step (\<lambda>_. plain_env) (\<lambda>_. plain_hello) (\<lambda>_. Some False))\<^sup>*\<^sup>*
      (packet_net_new (\<lambda>_ :: bool. plain_server) (\<lambda>_. 1)) w" "net_conns w = [c]"
    using plain_network by blast
  from network_carries_signed_packets [OF w(1) plain_nodes, of c] w(2) show ?thesis by auto
qed

theorem network_learns_nothing_witness:
  "\<exists>w :: (bool, string, (string \<times> string) option) packet_net. srv_tasks (server_of w True) \<noteq> [] \<and>
     srv_table (server_of w False) = empty_table \<and> srv_peers (server_of w False) = empty_pool \<and>
     (\<forall>t \<in> set (srv_tasks (server_of w True)). \<exists>port m peer. t = SendTask port m peer \<and> own_packet plain_env m)"
proof -
  obtain w where w: "(packet_net_step (\<lambda>_. plain_env) (\<lambda>_. plain_hello) (\<lambda>_. Some False))\<^sup>*\<^sup>*
      (packet_net_new (\<lambda>_ :: bool. plain_server) (\<lambda>_. 1)) w" "srv_tasks (server_of w True) \<noteq> []"
    using plain_network by blast
  have "lonely plain_env plain_server" by (simp add: lonely_def plain_server_def plain_env_def)
  with network_learns_nothing [OF w(1) plain_nodes, of True] network_learns_nothing [OF w(1) plain_nodes, of False] w(2)
  show ?thesis by (intro exI [of _ w]) (simp add: plain_server_def)
qed

end
