(* ===== verification/Packet_Routing.thy ===== *)
theory Packet_Routing
  imports P2P_Server
begin

text \<open>
  Delivery along routes, in the network of servers of \<open>P2P_Server\<close>: a message whose receiver is named is
  handed from server to server by the routing tables until it reaches the server with that name.
\<close>

section \<open>Routes\<close>

definition next_hop :: "(IPAddress \<Rightarrow> 'a option) \<Rightarrow> ('k, 'c) P2PServerContext \<Rightarrow> string \<Rightarrow> 'a option" where
  "next_hop resolve s dest =
     (case routing_map (srv_table s) dest of
        Some (Some ip, t) \<Rightarrow> resolve ip
      | _ \<Rightarrow> None)"

text \<open>The routing tables of the servers of a path lead from each to the next, and the last is the receiver.\<close>

fun routed :: "(IPAddress \<Rightarrow> 'a option) \<Rightarrow> ('a \<Rightarrow> ('k, 'c) P2PServerContext) \<Rightarrow> string \<Rightarrow> 'a list \<Rightarrow> bool" where
  "routed resolve nodes dest [] = False"
| "routed resolve nodes dest [a] = (srv_device_id (nodes a) = dest)"
| "routed resolve nodes dest (a # b # path) =
     (srv_device_id (nodes a) \<noteq> dest \<and> next_hop resolve (nodes a) dest = Some b \<and> routed resolve nodes dest (b # path))"

text \<open>A server that has not seen the message.\<close>

definition unseen :: "SignedProtoMessage \<Rightarrow> ('k, 'c) P2PServerContext \<Rightarrow> bool" where
  "unseen m s \<longleftrightarrow> (\<exists>c. is_cached (signature m) (srv_cache s) = Inr (False, c))"

lemma routed_other: "a \<notin> set path \<Longrightarrow> routed resolve (nodes(a := s)) dest path = routed resolve nodes dest path"
  by (induction path rule: induct_list012) auto

lemma dispatch_here:
  assumes "unseen m s" and "ttl m \<noteq> 0" and "srv_device_id s = receiver m"
  shows "\<exists>s'. dispatch env sin m s = Inr s' \<and> srv_tasks s' = srv_tasks s @ [HandleTask m sin]"
  using assms by (auto simp: unseen_def dispatch_eq dispatch_tasks_def)

lemma dispatch_on:
  assumes "unseen m s" and "1 < ttl m" and "srv_device_id s \<noteq> receiver m" and "next_hop resolve s (receiver m) = Some b"
  shows "\<exists>s' ip. dispatch env sin m s = Inr s' \<and> srv_tasks s' = srv_tasks s @ [SendTask (srv_port s) m (Some ip)] \<and>
    resolve ip = Some b"
proof -
  obtain ip t where "routing_map (srv_table s) (receiver m) = Some (Some ip, t)" "resolve ip = Some b"
    using assms(4) by (auto simp: next_hop_def split: option.splits)
  moreover have "ttl m \<noteq> 0" using assms(2) by auto
  ultimately show ?thesis using assms(1,2,3) by (auto simp: unseen_def dispatch_eq dispatch_tasks_def)
qed

section \<open>Delivery\<close>

lemma delivered_along:
  assumes "routed resolve nodes (receiver m) path" and "distinct path" and "length path \<le> unat (ttl m)"
    and "\<forall>a \<in> set path. unseen m (nodes a)"
  shows "\<exists>nodes' m'. (net_step env resolve)\<^sup>*\<^sup>* (nodes, {#(hd path, m)#}) (nodes', {#}) \<and>
    HandleTask m' DeadStack \<in> set (srv_tasks (nodes' (last path))) \<and> signed_payload m' = signed_payload m \<and>
    signature m' = signature m \<and> unat (ttl m') + length path = Suc (unat (ttl m))"
  using assms
proof (induction path arbitrary: nodes m rule: induct_list012)
  case (2 a)
  then have "ttl m \<noteq> 0" by auto
  with 2 obtain s' where s': "dispatch env DeadStack m (nodes a) = Inr s'" "srv_tasks s' = srv_tasks (nodes a) @ [HandleTask m DeadStack]"
    using dispatch_here [of m "nodes a" env DeadStack] by auto
  then have "net_step env resolve (nodes, add_mset (a, m) {#}) (nodes(a := s'), {#} + {#})"
    by (intro arrive) (simp_all add: new_tasks_def)
  then have "(net_step env resolve)\<^sup>*\<^sup>* (nodes, {#(hd [a], m)#}) (nodes(a := s'), {#})" by (simp add: r_into_rtranclp del: fun_upd_apply)
  moreover have "HandleTask m DeadStack \<in> set (srv_tasks ((nodes(a := s')) (last [a])))" using s'(2) by simp
  ultimately show ?case by (intro exI [of _ "nodes(a := s')"] exI [of _ m]) (simp del: fun_upd_apply)
next
  case (3 a b path)
  have u: "Suc (Suc 0) \<le> unat (ttl m)" using 3(5) by simp
  then have ttl: "1 < ttl m" by (simp add: word_less_nat_alt)
  have "ttl m \<noteq> 0" using ttl by auto
  then have less: "unat (ttl m - 1) = unat (ttl m) - 1" by (simp add: unat_minus_one)
  have hop: "srv_device_id (nodes a) \<noteq> receiver m" "next_hop resolve (nodes a) (receiver m) = Some b"
    using 3(3) by simp_all
  have "unseen m (nodes a)" using 3(6) by simp
  from dispatch_on [OF this ttl hop, of env DeadStack] obtain s' ip where
      s': "dispatch env DeadStack m (nodes a) = Inr s'" "srv_tasks s' = srv_tasks (nodes a) @ [SendTask (srv_port (nodes a)) m (Some ip)]"
      "resolve ip = Some b"
    by blast
  let ?m = "forwarded (srv_port (nodes a)) m" and ?nodes = "nodes(a := s')"
  have "net_step env resolve (nodes, add_mset (a, m) {#}) (?nodes, {#} + {#(b, ?m)#})"
    using s' by (intro arrive) (simp_all add: new_tasks_def)
  then have first: "net_step env resolve (nodes, {#(hd (a # b # path), m)#}) (?nodes, {#(hd (b # path), ?m)#})" by simp
  have fresh: "a \<notin> set (b # path)" "distinct (b # path)" using 3(4) by simp_all
  have m: "receiver ?m = receiver m" "signature ?m = signature m" "signed_payload ?m = signed_payload m"
      "Suc (unat (ttl ?m)) = unat (ttl m)"
    using u less by (simp_all add: forwarded_def)
  have "routed resolve ?nodes (receiver ?m) (b # path)"
    unfolding m(1) routed_other [OF fresh(1)] using 3(3) by simp
  moreover have "length (b # path) \<le> unat (ttl ?m)" using 3(5) m(4) by simp
  moreover have "\<forall>c \<in> set (b # path). unseen ?m (?nodes c)" using 3(6) fresh(1) m(2) by (auto simp: unseen_def)
  ultimately obtain nodes' m' where "(net_step env resolve)\<^sup>*\<^sup>* (?nodes, {#(hd (b # path), ?m)#}) (nodes', {#})"
      "HandleTask m' DeadStack \<in> set (srv_tasks (nodes' (last (b # path))))" "signed_payload m' = signed_payload m"
      "signature m' = signature m" "unat (ttl m') + length (b # path) = Suc (unat (ttl ?m))"
    using 3(2) [of ?nodes ?m] fresh(2) m by metis
  moreover from first this(1) have "(net_step env resolve)\<^sup>*\<^sup>* (nodes, {#(hd (a # b # path), m)#}) (nodes', {#})"
    by (rule converse_rtranclp_into_rtranclp)
  moreover have "unat (ttl m') + length (a # b # path) = Suc (unat (ttl m))" using calculation(5) m(4) by simp
  ultimately show ?case by (intro exI [of _ nodes'] exI [of _ m']) (simp del: fun_upd_apply)
qed simp

text \<open>C6. Delivery along routes: when the routing tables of distinct servers lead from one to the next up to
  the server the message is for, none of them has seen its signature, and its time to live is at
  least the number of these servers, then the message can travel to the end of the path, where the
  task to handle it is submitted, with payload and signature unchanged and the time to live decreased
  by one per hop; and nothing else is left on the network.\<close>

theorem routed_message_is_delivered:
  assumes "routed resolve nodes (receiver m) path" and "distinct path" and "length path \<le> unat (ttl m)"
    and "\<forall>a \<in> set path. unseen m (nodes a)"
  shows "\<exists>nodes' m'. (net_step env resolve)\<^sup>*\<^sup>* (nodes, {#(hd path, m)#}) (nodes', {#}) \<and>
    HandleTask m' DeadStack \<in> set (srv_tasks (nodes' (last path))) \<and> signed_payload m' = signed_payload m \<and>
    signature m' = signature m \<and> unat (ttl m') + length path = Suc (unat (ttl m))"
  using assms by (rule delivered_along)

definition hub_server :: "(string, (string \<times> string) option) P2PServerContext" where
  "hub_server = plain_server\<lparr>srv_device_id := ''hub'', srv_table := empty_table\<lparr>routing_map :=
     [''me'' \<mapsto> (Some \<lparr>valid = True, port_number = 80, ip_address_str = ''1.2.3.4''\<rparr>, 3)]\<rparr>\<rparr>"

theorem routed_message_is_delivered_witness:
  "\<exists>nodes' m'. HandleTask m' DeadStack \<in> set (srv_tasks (nodes' False)) \<and> unat (ttl m') = 2 \<and>
     (net_step plain_env (\<lambda>_. Some False))\<^sup>*\<^sup>*
       (\<lambda>a. if a then hub_server else plain_server, {#(True, plain_message)#}) (nodes', {#})"
proof -
  let ?nodes = "\<lambda>a. if a then hub_server else plain_server"
  have fresh: "is_cached ''sig'' (FIFOCache_new [] 2) =
      Inr (False, \<lparr>max_cache_size = 2, cache = [[], ''sig''], cache_map = {''sig''}\<rparr>)"
    by (simp add: is_cached_def FIFOCache_new_def numeral_2_eq_2)
  have m: "receiver plain_message = ''me''" "signature plain_message = ''sig''" "unat (ttl plain_message) = 3"
    by (simp_all add: plain_message_def SignedProtoMessage_new_def)
  have "routed (\<lambda>_. Some False) ?nodes (receiver plain_message) [True, False]"
    by (simp add: m next_hop_def hub_server_def plain_server_def)
  moreover have "\<forall>a \<in> set [True, False]. unseen plain_message (?nodes a)"
    using fresh by (simp add: unseen_def m hub_server_def plain_server_def)
  ultimately show ?thesis
    using routed_message_is_delivered [of "\<lambda>_. Some False" ?nodes plain_message "[True, False]" plain_env] m(3)
    by auto
qed

end
