(* ===== verification/Thread_Starts.thy ===== *)
theory Thread_Starts
  imports P2P_Prelude
begin

text \<open>
  Objects that start a thread on themselves: the life of a \<open>ConnectionContainer\<close>
  (\<open>daemon/interface/connection_container.cc\<close>), whose thread runs while its constructor still
  initialises members and is joined by its destructor, and the two singletons whose threads read
  the pointer to the instance (\<open>daemon/manage_interface.cc\<close>, \<open>daemon/p2p_server_context.cc\<close>). Each rule
  is one access of the constructing thread or of the thread that was started.
\<close>

section \<open>The life of a connection\<close>

text \<open>The members, initialised in the order of their declaration.\<close>

datatype cc_member = RunningThread | RunningFlag | Session | DestroyCallback | InstanceMap

definition cc_members :: "cc_member list" where
  "cc_members = [RunningThread, RunningFlag, Session, DestroyCallback, InstanceMap]"

datatype run_pc = NotStarted | AtFlag | InRound | AtClose | AtCallback | Ended

record cc_life =
  life_built :: "cc_member list"
  life_flag :: bool
  life_pc :: run_pc
  life_joining :: bool
  life_destroyed :: bool
  life_error :: "failure option"

definition cc_life_new :: cc_life where
  "cc_life_new =
     \<lparr>life_built = [], life_flag = False, life_pc = NotStarted, life_joining = False,
      life_destroyed = False, life_error = None\<rparr>"

fun init_member :: "cc_member \<Rightarrow> cc_life \<Rightarrow> cc_life" where
  "init_member RunningThread c = c\<lparr>life_pc := AtFlag\<rparr>"
| "init_member RunningFlag c = c\<lparr>life_flag := True\<rparr>"
| "init_member _ c = c"

text \<open>
  A round that executes a command uses the instance map and the session; one without a line uses no
  member. \<open>callback\<close> says whether the callback, kept by reference, still lives.
\<close>

inductive life_action :: "bool \<Rightarrow> cc_life \<Rightarrow> cc_life \<Rightarrow> bool" for callback where
  build: "life_built c @ m # ms = cc_members \<Longrightarrow>
     life_action callback c (init_member m (c\<lparr>life_built := life_built c @ [m]\<rparr>))"
| flag_on: "life_pc c = AtFlag \<Longrightarrow> RunningFlag \<in> set (life_built c) \<Longrightarrow> life_flag c \<Longrightarrow>
     life_action callback c (c\<lparr>life_pc := InRound\<rparr>)"
| flag_off: "life_pc c = AtFlag \<Longrightarrow> RunningFlag \<in> set (life_built c) \<Longrightarrow> \<not> life_flag c \<Longrightarrow>
     life_action callback c (c\<lparr>life_pc := AtClose\<rparr>)"
| flag_unset: "life_pc c = AtFlag \<Longrightarrow> RunningFlag \<notin> set (life_built c) \<Longrightarrow>
     life_action callback c (c\<lparr>life_error := Some Uninitialised\<rparr>)"
| idle_round: "life_pc c = InRound \<Longrightarrow> life_action callback c (c\<lparr>life_pc := AtFlag\<rparr>)"
| command_round: "life_pc c = InRound \<Longrightarrow> {Session, InstanceMap} \<subseteq> set (life_built c) \<Longrightarrow>
     life_action callback c (c\<lparr>life_pc := AtFlag\<rparr>)"
| command_unset: "life_pc c = InRound \<Longrightarrow> \<not> {Session, InstanceMap} \<subseteq> set (life_built c) \<Longrightarrow>
     life_action callback c (c\<lparr>life_error := Some Uninitialised\<rparr>)"
| close_socket: "life_pc c = AtClose \<Longrightarrow> life_action callback c (c\<lparr>life_pc := AtCallback\<rparr>)"
| call_back: "life_pc c = AtCallback \<Longrightarrow> DestroyCallback \<in> set (life_built c) \<Longrightarrow> callback \<Longrightarrow>
     life_action callback c (c\<lparr>life_pc := Ended\<rparr>)"
| call_dead: "life_pc c = AtCallback \<Longrightarrow> DestroyCallback \<in> set (life_built c) \<Longrightarrow> \<not> callback \<Longrightarrow>
     life_action callback c (c\<lparr>life_error := Some UseAfterFree\<rparr>)"
| call_unset: "life_pc c = AtCallback \<Longrightarrow> DestroyCallback \<notin> set (life_built c) \<Longrightarrow>
     life_action callback c (c\<lparr>life_error := Some Uninitialised\<rparr>)"
| destroy: "life_built c = cc_members \<Longrightarrow> \<not> life_joining c \<Longrightarrow>
     life_action callback c (c\<lparr>life_flag := False, life_joining := True\<rparr>)"
| join: "life_joining c \<Longrightarrow> life_pc c = Ended \<Longrightarrow> life_action callback c (c\<lparr>life_destroyed := True\<rparr>)"

definition life_step :: "bool \<Rightarrow> cc_life \<Rightarrow> cc_life \<Rightarrow> bool" where
  "life_step callback c c' \<longleftrightarrow> life_error c = None \<and> \<not> life_destroyed c \<and> life_action callback c c'"

definition life_inv :: "bool \<Rightarrow> cc_life \<Rightarrow> bool" where
  "life_inv callback c \<longleftrightarrow>
     (\<exists>ms. life_built c @ ms = cc_members) \<and>
     (life_pc c = NotStarted \<longleftrightarrow> life_built c = []) \<and>
     (life_joining c \<longrightarrow> life_built c = cc_members \<and> \<not> life_flag c) \<and>
     (\<not> life_joining c \<and> RunningFlag \<in> set (life_built c) \<longrightarrow> life_flag c) \<and>
     (life_pc c \<in> {AtClose, AtCallback, Ended} \<longrightarrow> life_joining c) \<and>
     (life_pc c = Ended \<longrightarrow> callback) \<and>
     (life_destroyed c \<longrightarrow> life_pc c = Ended \<and> life_error c = None) \<and>
     (life_error c = Some Uninitialised \<longrightarrow> life_built c \<noteq> cc_members) \<and>
     (life_error c = Some UseAfterFree \<longrightarrow> \<not> callback) \<and>
     life_error c \<in> {None, Some Uninitialised, Some UseAfterFree}"

lemma init_member_sel [simp]:
  "life_built (init_member m c) = life_built c" "life_joining (init_member m c) = life_joining c"
  "life_error (init_member m c) = life_error c" "life_destroyed (init_member m c) = life_destroyed c"
  "life_pc (init_member m c) = (if m = RunningThread then AtFlag else life_pc c)"
  "life_flag (init_member m c) = (m = RunningFlag \<or> life_flag c)"
  by (cases m; simp)+

lemma members_next:
  assumes "built @ m # ms = cc_members"
  shows "m = RunningThread \<longleftrightarrow> built = []" and "built \<noteq> cc_members"
  using assms by (auto simp: cc_members_def Cons_eq_append_conv append_eq_Cons_conv)

lemma life_inv_action:
  assumes "life_action callback c c'" and "life_error c = None" and "\<not> life_destroyed c" and "life_inv callback c"
  shows "life_inv callback c'"
  using assms
proof (induction rule: life_action.induct)
  case (build c m ms)
  from members_next [OF build(1)] build show ?case
    by (auto simp: life_inv_def)
next
  case (flag_unset c)
  then have "life_built c \<noteq> cc_members" by (auto simp: cc_members_def)
  with flag_unset show ?case by (simp add: life_inv_def)
next
  case (command_unset c)
  then have "life_built c \<noteq> cc_members" by (auto simp: cc_members_def)
  with command_unset show ?case by (simp add: life_inv_def)
next
  case (call_unset c)
  then have "life_built c \<noteq> cc_members" by (auto simp: cc_members_def)
  with call_unset show ?case by (auto simp: life_inv_def)
qed (auto simp: life_inv_def cc_members_def)

lemma life_inv_run:
  assumes "(life_step callback)\<^sup>*\<^sup>* cc_life_new c"
  shows "life_inv callback c"
  using assms
proof (induction rule: rtranclp_induct)
  case base
  show ?case by (simp add: life_inv_def cc_life_new_def cc_members_def)
next
  case (step c c')
  then show ?case unfolding life_step_def by (blast intro: life_inv_action)
qed


definition flag_read_early :: cc_life where
  "flag_read_early = cc_life_new\<lparr>life_built := [RunningThread], life_pc := AtFlag, life_error := Some Uninitialised\<rparr>"

lemma early_read: "(life_step callback)\<^sup>*\<^sup>* cc_life_new flag_read_early"
proof -
  let ?c = "cc_life_new\<lparr>life_built := [RunningThread], life_pc := AtFlag\<rparr>"
  have "life_step callback cc_life_new ?c"
    using build [of cc_life_new RunningThread "[RunningFlag, Session, DestroyCallback, InstanceMap]" callback]
    by (simp add: life_step_def cc_life_new_def cc_members_def)
  moreover have "life_step callback ?c flag_read_early"
    using flag_unset [of ?c callback] by (simp add: life_step_def cc_life_new_def flag_read_early_def)
  ultimately show ?thesis by (meson converse_rtranclp_into_rtranclp rtranclp.rtrancl_refl)
qed


text \<open>Once the destructor has cleared the flag, the thread takes at most one more round: what is left to
  happen is bounded, so that the destructor waits forever only inside a round.\<close>

definition life_left :: "cc_life \<Rightarrow> nat" where
  "life_left c = (if life_error c \<noteq> None \<or> life_destroyed c then 0 else
     case life_pc c of InRound \<Rightarrow> 5 | AtFlag \<Rightarrow> 4 | AtClose \<Rightarrow> 3 | AtCallback \<Rightarrow> 2 | _ \<Rightarrow> 1)"

theorem destructor_terminates:
  assumes "(life_step callback)\<^sup>*\<^sup>* cc_life_new c" and "life_joining c" and "life_step callback c c'"
  shows "life_left c' < life_left c \<and> life_joining c'"
proof -
  have i: "life_inv callback c" using assms(1) by (rule life_inv_run)
  from assms(3) have "life_action callback c c'" "life_error c = None" "\<not> life_destroyed c"
    by (simp_all add: life_step_def)
  then show ?thesis using i assms(2)
    by cases (auto simp: life_inv_def life_left_def cc_members_def)
qed

section \<open>Singletons with a thread\<close>

text \<open>
  The order in which the pointer to the instance is stored and the thread is started. The management
  interface starts its thread in the constructor, and \<open>init\<close> stores the pointer when that has
  returned; the packet server is stored by \<open>create\<close> before \<open>start\<close> is called.
\<close>

datatype start_event = StoreInstance | StartThread

definition interface_start :: "start_event list" where
  "interface_start = [StartThread, StoreInstance]"

definition server_start :: "start_event list" where
  "server_start = [StoreInstance, StartThread]"

record singleton_start =
  starts_left :: "start_event list"
  stored :: bool
  thread_running :: bool
  start_error :: "failure option"

definition singleton_start_new :: "start_event list \<Rightarrow> singleton_start" where
  "singleton_start_new order =
     \<lparr>starts_left = order, stored = False, thread_running = False, start_error = None\<rparr>"

text \<open>The thread may call \<open>get()\<close> at any time once it has been started, and uses the object.\<close>

inductive start_action :: "singleton_start \<Rightarrow> singleton_start \<Rightarrow> bool" where
  store: "starts_left x = StoreInstance # es \<Longrightarrow> start_action x (x\<lparr>starts_left := es, stored := True\<rparr>)"
| start_thread: "starts_left x = StartThread # es \<Longrightarrow> start_action x (x\<lparr>starts_left := es, thread_running := True\<rparr>)"
| get_instance: "thread_running x \<Longrightarrow> stored x \<Longrightarrow> start_action x x"
| get_null: "thread_running x \<Longrightarrow> \<not> stored x \<Longrightarrow> start_action x (x\<lparr>start_error := Some NullDeref\<rparr>)"

text \<open>The packet server's thread always finds the instance; the management interface's thread can come too early.\<close>

theorem start_order_matters:
  "(\<forall>x. start_action\<^sup>*\<^sup>* (singleton_start_new server_start) x \<longrightarrow> start_error x = None) \<and>
   (\<exists>x. start_action\<^sup>*\<^sup>* (singleton_start_new interface_start) x \<and> start_error x = Some NullDeref)"
proof (intro conjI allI impI)
  fix x
  assume "start_action\<^sup>*\<^sup>* (singleton_start_new server_start) x"
  then have "start_error x = None \<and> (thread_running x \<longrightarrow> stored x) \<and>
      (starts_left x = server_start \<or> stored x \<and> starts_left x \<in> {[StartThread], []})"
  proof (induction rule: rtranclp_induct)
    case (step x y)
    from step.hyps(2) step.IH show ?case by cases (auto simp: server_start_def)
  qed (simp add: singleton_start_new_def)
  then show "start_error x = None" by simp
next
  let ?x = "singleton_start_new interface_start"
  have "start_action ?x (?x\<lparr>starts_left := [StoreInstance], thread_running := True\<rparr>)"
    by (rule start_thread) (simp add: singleton_start_new_def interface_start_def)
  moreover have "start_action (?x\<lparr>starts_left := [StoreInstance], thread_running := True\<rparr>)
      (?x\<lparr>starts_left := [StoreInstance], thread_running := True, start_error := Some NullDeref\<rparr>)"
    using get_null [of "?x\<lparr>starts_left := [StoreInstance], thread_running := True\<rparr>"]
    by (simp add: singleton_start_new_def)
  ultimately show "\<exists>x. start_action\<^sup>*\<^sup>* ?x x \<and> start_error x = Some NullDeref"
    by (intro exI [of _ "?x\<lparr>starts_left := [StoreInstance], thread_running := True, start_error := Some NullDeref\<rparr>"])
      (auto intro: converse_rtranclp_into_rtranclp)
qed

end
