(* ===== verification/Spec2Isabelle.thy ===== *)
theory Spec2Isabelle
  imports Bitops Rabin Base64 Command_Parser Server_Init Thread_Pool Cas_Queue File_Model Curl_Utils Json_Model
    Device_Identity Management Storage Commands Connection Manage_Interface Daemon Packet_Network
    Packet_Routing Thread_Starts Unit_Tests
begin

text \<open>
  P2PFileSync: a daemon that keeps connections to the other devices of a user, forwards and handles
  signed packets between them, talks to a management server over HTTP, and takes commands on a local
  socket. The sources are under \<open>src/daemon/\<close>.

  \<^bold>\<open>The parts and how they interact.\<close> \<open>main.cc\<close> reads the configuration, makes the thread pool and the
  management context, opens the management interface, obtains the device context (registering the
  device at the server when there is none) and starts the packet server. The packet server polls the
  device until it is enabled, loads its certificate, listens, greets the peers it is told of, and
  then for each packet decides between dropping, forwarding, broadcasting and handling; it uses the
  packet id cache, the routing table and the pool of peer sessions, and submits its work to the
  thread pool. The management interface accepts connections; each connection reads command lines,
  parses them, and executes command objects that use the user context, the device context and the
  packet server. The file model and the fingerprint are separate libraries.

  \<^bold>\<open>How the code is modelled.\<close> Structures are records, operations are functions that take and return
  them, and every way in which a call can end other than by returning (exceptions, \<open>LOG(FATAL)\<close>,
  assertions, null and dangling pointers, accesses out of bounds) is a value of \<open>failure\<close> in the sum
  type \<open>result\<close> (\<open>P2P_Prelude\<close>). Machine integers are words of their width. A loop that need not end is a
  \<open>partial_function (option)\<close>, \<open>None\<close> meaning that the call does not return: the argument loop of the
  parser, the poll of \<open>init\<close>, \<open>push\<close> and \<open>pop\<close> of the queue. The certificate loop counts down its three
  rounds; the loop of a connection takes the number of rounds for which its flag is set, and its input
  is the list of results of \<open>read\<close>, with \<open>None\<close> when the next \<open>read\<close> blocks. Concurrent parts are
  step relations over program points: the routing table under its shared mutex, the workers of the
  thread pool, accepting and serving in the interface, the life of a connection from the first member
  that its constructor initialises to the end of its destructor, and the whole packet server with its
  pool, where the steps of the pool carry labels for what they do for its user; there an entry point of
  the server is one step, and the workers interleave between them. A network is a family of such nodes
  with the connections between them, on which bytes arrive in pieces. Pointers whose life time matters
  are explicit: a socket address on a dead stack frame, the set of live variables that command objects
  refer to, the round whose string a map key views, a string view whose owner is gone.

  \<^bold>\<open>Theories.\<close>
  \<^item> \<open>P2P_Prelude\<close>: types, failures, string searches, shared lemmas and fact collections. \<open>Decimal\<close>: regular
    expressions with their languages, and decimal numbers. \<open>Codec\<close>: concrete serializers for witnesses.
  \<^item> \<open>Bitops\<close> (\<open>utils/bitpos.h\<close>), \<open>Gf2_Poly\<close> and \<open>Rabin\<close> (\<open>utils/rabin_checksum.cc\<close>): the binary search
    for the highest bit is the logarithm; the fingerprint is the remainder of the buffer as a
    polynomial, and the rolling update agrees with recomputing a window of 256 bytes.
  \<^item> \<open>Base64\<close>, \<open>Command_Parser\<close> (with \<open>utils/status.h\<close>), \<open>Ip_Address\<close>: equivalence of the routines with
    reference definitions, round trips, and the inputs on which they fail or do not return.
  \<^item> \<open>Fifo_Cache\<close>, \<open>Instance_Pool\<close>, \<open>Routing_Table\<close>, \<open>Thread_Pool\<close>, \<open>Cas_Queue\<close>, \<open>Singleton\<close> (\<open>utils/data_struct/\<close>,
    \<open>utils/singleton_helper.h\<close>): the locales \<open>fifo_window\<close>, \<open>insert_once\<close> and \<open>task_executor\<close> with their
    interpretations, the invariants of the concurrent runs, the pool with one worker as a refinement of
    a queue, the data races and the lost wake-ups.
  \<^item> \<open>Peer_Session\<close>, \<open>Packet\<close>, \<open>P2P_Server\<close>, \<open>Server_Init\<close> (\<open>peer_session.cc\<close>, \<open>packet/\<close>, \<open>p2p_server_context.cc\<close>):
    the invariant of the server over all its entry points, termination of flooding, framing and
    transport, duplicates, the poll for the device, the outcome of the start and its greetings.
  \<^item> \<open>Packet_Node\<close>: the packet server and the thread pool together; what is executed and sent was
    submitted, once, in every interleaving, and with one worker in order. It rests on the laws of
    \<open>task_executor\<close>. \<open>Packet_Network\<close>: many such nodes; what travels was signed and submitted by a node, and
    no node ever learns a route. \<open>Packet_Routing\<close>: a message that names its receiver is delivered along
    the routes of the servers on its way.
  \<^item> \<open>Thread_Starts\<close> (\<open>connection_container.cc\<close>, \<open>manage_interface.cc\<close>, \<open>p2p_server_context.cc\<close>): objects that start
    threads on themselves, and what those threads can find.
  \<^item> \<open>Unit_Tests\<close>: the repository's own unit tests, run on the model.
  \<^item> \<open>Config\<close> (\<open>configuration.h\<close>, \<open>config_reader.cc\<close>): saving and loading.
  \<^item> \<open>File_Model\<close> (\<open>file/models/\<close>): blocks of a file and its recorded size, directory nodes and the views
    they keep. \<open>Storage\<close>: key pairs and the constructor of the storage context.
  \<^item> \<open>Curl_Utils\<close>, \<open>Json_Model\<close>, \<open>Device_Identity\<close>, \<open>Management\<close> (\<open>management_api/\<close>): bounds of the download
    buffer, documents, the identity of a device, registration, certificate download, and the user
    session as an instance of the locale \<open>observed_context\<close>.
  \<^item> \<open>Commands\<close>, \<open>Connection\<close>, \<open>Manage_Interface\<close> (\<open>interface/\<close>, \<open>manage_interface.cc\<close>): the factory (an
    instance of \<open>insert_once\<close>), the five commands, serving a connection line by line, the well-formedness
    of the interface in every run.
  \<^item> \<open>Daemon\<close> (\<open>main.cc\<close>): the start of the program. The properties below compose the configuration, the
    interface, the management client and the packet server: over two starts of a new installation, and
    from the start of a registered device to the greetings of its peers.

  \<^bold>\<open>Parameters.\<close> Code outside the repository is an argument: OpenSSL, protobuf, libevent, libcurl,
  RapidJSON, yaml-cpp, libuuid, the sockets, the file system, the clock and the iteration order of hash
  maps. What is relied on is a named hypothesis (\<open>rapidjson_documented\<close>, \<open>yaml_documented\<close> and the like),
  each shown to hold for a concrete instance by a witness. The polls for the device, the rounds of a
  certificate download and the requests of a command take a sequence of answers, so that the server may
  answer differently each time.

  \<^bold>\<open>Not modelled.\<close> The declarations of the management API's interfaces, logging, export macros
  and test drivers have no behaviour of their own; the FUSE client and the file splitter are
  empty; functions that are declared and never defined (\<open>StorageContext::init\<close>, \<open>add_file\<close>,
  \<open>setGroupName\<close>, \<open>package_pkg\<close>, the time updates of an inode) have no code to model, and \<open>new_instance\<close> of
  the instance pool does not type-check. The bodies of generated protobuf classes, TLS and the event
  loop itself are outside the repository.
\<close>

section \<open>Properties across components\<close>

text \<open>C11. A new installation needs two starts: on a host whose folder, socket and files are in place
  and that has neither a configuration nor a device file, the first start writes the default
  configuration and then always fails, at the latest by dereferencing the device configuration it
  did not load. If its registration was accepted, the second start reads the same configuration
  back, takes the device from the file, and goes on to start the packet server for it.\<close>

theorem new_installation_needs_two_starts:
  assumes "host_ready H path" and "fs path = None" and "fs (server_certificate_path Config_default) = None"
  shows "\<exists>fs' e. main env H None path fs = (fs', Some (Inl e)) \<and>
    (snd (register_client (h_libraries H) (h_web H) (h_machine H) (h_interfaces H)
        (management_init Config_default \<lparr>mgmt_instance = None, mgmt_files = fs\<rparr>)) = Inr () \<longrightarrow>
      e = NullDeref \<and>
      (\<exists>device key. device \<noteq> [] \<and> key \<noteq> [] \<and>
        main env H None path fs' = with_pool Config_default (start_server env H Config_default
          (registered_device device key) (fs'(manage_sock_url Config_default := None)))))"
proof -
  let ?L = "h_libraries H" and ?c = "ManagementContext_new Config_default"
  let ?sock = "manage_sock_url Config_default" and ?crt = "server_certificate_path Config_default"
  let ?reg = "register_client ?L (h_web H) (h_machine H) (h_interfaces H)"
  have H: "yaml_documented (h_emit H) (h_yaml H)" "rapidjson_documented (lib_writer ?L) (lib_parse ?L)"
    "lib_writable ?L path" "lib_writable ?L ?crt" "h_stream_good H" "path \<noteq> ?sock" "path \<noteq> ?crt"
    using assms(1) by (simp_all add: host_ready_def)
  obtain bytes where l: "load_or_create H path fs = (fs(path \<mapsto> bytes), Inr Config_default)"
    and b: "save_config (h_emit H) True True (Some Config_default) = Inr (True, Some bytes)"
    using load_or_create_new [of fs path H, OF assms(2) H(3,5)] by blast
  define g where "g = management_init Config_default
    \<lparr>mgmt_instance = None, mgmt_files = (fs(path \<mapsto> bytes))(?sock := None)\<rparr>"
  have crt: "mc_server_certificate_path ?c = ?crt" by (simp add: ManagementContext_new_def)
  have g: "mgmt_instance g = Some ?c" "mc_device_ctx ?c = None" "mgmt_files g (mc_server_certificate_path ?c) = None"
    using assms(3) H(7) by (simp_all add: g_def management_init_def ManagementContext_new_def)
  have reg: "snd (?reg g) = snd (?reg (management_init Config_default \<lparr>mgmt_instance = None, mgmt_files = fs\<rparr>))"
    using register_client_files [of ?L "h_web H" "h_machine H" "h_interfaces H"
        "(fs(path \<mapsto> bytes))(?sock := None)" "management_init Config_default \<lparr>mgmt_instance = None, mgmt_files = fs\<rparr>"]
    by (simp add: g_def management_init_def)
  note first = main_configured [where env = env, OF assms(1) l g_def dev_ctx_unregistered [OF g]]
  show ?thesis
  proof (cases "snd (?reg g)")
    case (Inl e)
    then show ?thesis using first reg by simp
  next
    case (Inr u)
    then have r: "?reg g = (fst (?reg g), Inr ())" by (metis old.unit.exhaust surjective_pairing)
    obtain key device conf where conf: "key \<noteq> []" "device \<noteq> []" "root conf = conf_root key device"
      "mgmt_files (fst (?reg g)) = (mgmt_files g)(?crt \<mapsto> save (lib_writer ?L) conf)"
      using register_client_saves [OF g(1) r] H(4) crt by metis
    let ?fs' = "mgmt_files (fst (?reg g))"
    have "?fs' path = Some bytes" "?fs' ?crt = Some (save (lib_writer ?L) conf)"
      unfolding conf(4) using H(6,7) by (simp_all add: g_def management_init_def)
    from main_second_start [where env = env, OF assms(1) conf(3) this(1) b this(2)]
    have "main env H None path ?fs' = with_pool Config_default (start_server env H Config_default
          (registered_device device key) (?fs'(manage_sock_url Config_default := None)))" .
    moreover have "main env H None path fs = (?fs', Some (Inl NullDeref))" using first Inr by simp
    ultimately show ?thesis using conf(1,2) by (intro exI [of _ ?fs'] exI [of _ NullDeref]) metis
  qed
qed

theorem new_installation_needs_two_starts_witness:
  "\<exists>fs' device key. main plain_env plain_host None ''sync.yaml'' Map.empty = (fs', Some (Inl NullDeref)) \<and>
     device \<noteq> [] \<and>
     main plain_env plain_host None ''sync.yaml'' fs' = with_pool Config_default (start_server plain_env plain_host
       Config_default (registered_device device key) (fs'(manage_sock_url Config_default := None)))"
proof -
  have "snd (register_client plain_libraries (web_answering registration) (desk_machine ''id'') (Some [])
      (management_init Config_default \<lparr>mgmt_instance = None, mgmt_files = Map.empty\<rparr>)) = Inr ()"
    by (rule registration_accepted) (simp add: management_init_def)
  then have "snd (register_client (h_libraries plain_host) (h_web plain_host) (h_machine plain_host) (h_interfaces plain_host)
      (management_init Config_default \<lparr>mgmt_instance = None, mgmt_files = Map.empty\<rparr>)) = Inr ()"
    by (simp add: plain_host_def)
  then show ?thesis
    using new_installation_needs_two_starts [OF plain_host_ready, of Map.empty plain_env] by auto
qed



end
